(* ===== verification/Prelude.thy ===== *)
theory Prelude
  imports Main "HOL-Library.Word" "HOL-Library.AList" "HOL-Library.Monad_Syntax"
begin

text \<open>
  Shared vocabulary of the development: the machine-integer types of the Rust sources, the
  combinators that stand for Rust's \<^verbatim>\<open>Option\<close> and loop idioms, and the key-value tables of the
  application state.

  Panics. A Rust function that can panic (\<^verbatim>\<open>unwrap\<close>, \<^verbatim>\<open>expect\<close>, \<^verbatim>\<open>unreachable!\<close>, a division by
  zero) is modelled with an \<^typ>\<open>'a option\<close> result in which \<^const>\<open>None\<close> is the panic; a function
  whose model returns a plain value cannot panic. Machine integers follow the release profile of
  the workspace (no \<^verbatim>\<open>overflow-checks\<close>), so \<open>+\<close>, \<open>-\<close> and \<open>*\<close> wrap.
\<close>

section \<open>Machine integers\<close>

type_synonym u8 = "8 word"
type_synonym u16 = "16 word"
type_synonym u32 = "32 word"
type_synonym u64 = "64 word"
type_synonym u128 = "128 word"
type_synonym u256 = "256 word"

text \<open>\<^verbatim>\<open>u64::saturating_sub\<close>.\<close>

definition saturating_sub :: "'a::len word \<Rightarrow> 'a word \<Rightarrow> 'a word" where
  "saturating_sub a b = (if a \<le> b then 0 else a - b)"

named_theorems table_simps \<open>laws of the state tables\<close>
named_theorems exec_defs \<open>definitions of the state transition functions\<close>

lemma unat_saturating_sub: "unat (saturating_sub a b) = unat a - unat b"
  by (auto simp: saturating_sub_def word_le_nat_alt unat_sub)

lemma unat_ucast_mod: "unat (ucast (w :: 'a::len word) :: 'b::len word) = unat w mod 2 ^ LENGTH('b)"
  by (metis of_nat_unat unat_of_nat)

lemma unat_ucast_up:
  "LENGTH('a::len) \<le> LENGTH('b::len) \<Longrightarrow> unat (ucast (w :: 'a word) :: 'b word) = unat w"
proof -
  assume le: "LENGTH('a) \<le> LENGTH('b)"
  have "unat w < 2 ^ LENGTH('a)" by (rule unsigned_less)
  also have "\<dots> \<le> 2 ^ LENGTH('b)" using le by (rule power_increasing) simp
  finally show ?thesis by (simp add: unat_ucast_mod)
qed

lemma word_plus_one_neq [simp]: "(a::'a::len word) + 1 \<noteq> a"
  by simp

section \<open>Options and loops\<close>

definition unwrap_or :: "'a option \<Rightarrow> 'a \<Rightarrow> 'a" where
  "unwrap_or x d = (case x of None \<Rightarrow> d | Some v \<Rightarrow> v)"

lemma unwrap_or_simps [simp]: "unwrap_or None d = d" "unwrap_or (Some v) d = v"
  by (simp_all add: unwrap_or_def)

text \<open>A loop whose body updates the state and may panic: it stops at the first panic.\<close>

fun for_each :: "('a \<Rightarrow> 's \<Rightarrow> 's option) \<Rightarrow> 'a list \<Rightarrow> 's \<Rightarrow> 's option" where
  "for_each f [] s = Some s"
| "for_each f (x # xs) s = (case f x s of None \<Rightarrow> None | Some s' \<Rightarrow> for_each f xs s')"

lemma for_each_invariant:
  assumes "for_each f xs s = Some s'" and "P s"
    and "\<And>x a b. x \<in> set xs \<Longrightarrow> P a \<Longrightarrow> f x a = Some b \<Longrightarrow> P b"
  shows "P s'"
  using assms
proof (induction xs arbitrary: s)
  case (Cons x xs)
  from Cons.prems(1) obtain t where t: "f x s = Some t" and rest: "for_each f xs t = Some s'"
    by (auto split: option.splits)
  have "P t"
    using Cons.prems(2) Cons.prems(3)[OF _ _ t] by simp
  then show ?case
    using Cons.IH[OF rest] Cons.prems(3) by (meson list.set_intros(2))
qed simp

lemma for_each_no_panic:
  assumes "P s" and "\<And>x a. x \<in> set xs \<Longrightarrow> P a \<Longrightarrow> \<exists>b. f x a = Some b \<and> P b"
  shows "\<exists>s'. for_each f xs s = Some s' \<and> P s'"
  using assms
proof (induction xs arbitrary: s)
  case (Cons x xs)
  from Cons.prems(2)[of x s] Cons.prems(1) obtain t where "f x s = Some t" "P t" by auto
  with Cons.IH[of t] Cons.prems(2) show ?case by auto
qed simp

lemma for_each_eq_fold: "(\<And>x s. f x s = Some (g x s)) \<Longrightarrow> for_each f xs s = Some (fold g xs s)"
  by (induction xs arbitrary: s) auto

lemma fold_preserves: "P s \<Longrightarrow> (\<And>x a. x \<in> set xs \<Longrightarrow> P a \<Longrightarrow> P (f x a)) \<Longrightarrow> P (fold f xs s)"
  by (induction xs arbitrary: s) auto

text \<open>A field that no iteration changes is unchanged by the loop.\<close>

lemma fold_field: "(\<And>x a. fld (f x a) = fld a) \<Longrightarrow> fld (fold f xs s) = fld s"
  by (induction xs arbitrary: s) auto

lemma for_each_field:
  assumes "for_each f xs s = Some s'" and "\<And>x a b. f x a = Some b \<Longrightarrow> fld b = fld a"
  shows "fld s' = fld s"
  using for_each_invariant[OF assms(1), of "\<lambda>t. fld t = fld s"] assms(2) by simp

lemma find_snoc:
  "find P (xs @ [x]) = (case find P xs of Some y \<Rightarrow> Some y | None \<Rightarrow> if P x then Some x else None)"
  by (induction xs) auto

end
