(* ===== verification/Tables.thy ===== *)
theory Tables
  imports Prelude
begin

text \<open>
  The state tables, \<^verbatim>\<open>core/application/src/state/context.rs\<close>. The executor reaches every table
  through the trait \<^verbatim>\<open>TableRef\<close> (\<^verbatim>\<open>set\<close>, \<^verbatim>\<open>get\<close>, \<^verbatim>\<open>keys\<close>, \<^verbatim>\<open>remove\<close>, \<^verbatim>\<open>clear\<close>, \<^verbatim>\<open>as_map\<close>). Its
  contract is the locale \<open>table_ref\<close>; the model's tables are association lists with one entry per
  key, and the interpretation \<open>tbl\<close> discharges the contract for them. The order of \<^verbatim>\<open>keys\<close> is the
  order of first insertion here; the source iterates a hash set, whose order is unspecified.
\<close>

section \<open>The contract of a table\<close>

locale table_ref =
  fixes get :: "'t \<Rightarrow> 'k \<Rightarrow> 'v option"
    and put :: "'t \<Rightarrow> 'k \<Rightarrow> 'v \<Rightarrow> 't"
    and remove :: "'t \<Rightarrow> 'k \<Rightarrow> 't"
    and clear :: "'t \<Rightarrow> 't"
    and keys :: "'t \<Rightarrow> 'k list"
    and as_map :: "'t \<Rightarrow> ('k \<times> 'v) list"
    and invar :: "'t \<Rightarrow> bool"
  assumes get_put: "get (put t k v) = (get t)(k \<mapsto> v)"
    and get_remove: "get (remove t k) = (get t)(k := None)"
    and get_clear: "get (clear t) = Map.empty"
    and keys_get: "set (keys t) = dom (get t)"
    and as_map_get: "invar t \<Longrightarrow> set (as_map t) = {(k, v). get t k = Some v}"
    and keys_distinct: "invar t \<Longrightarrow> distinct (keys t)"
    and as_map_keys: "map fst (as_map t) = keys t"
    and invar_put: "invar t \<Longrightarrow> invar (put t k v)"
    and invar_remove: "invar t \<Longrightarrow> invar (remove t k)"
    and invar_clear: "invar (clear t)"
begin

text \<open>Removing the listed keys one by one (the \<^verbatim>\<open>keys().for_each(remove)\<close> idiom).\<close>

lemma get_fold_remove:
  "get (fold (\<lambda>k t. remove t k) ks t) k = (if k \<in> set ks then None else get t k)"
  by (induction ks arbitrary: t) (auto simp: get_remove)

lemma remove_all_keys: "get (fold (\<lambda>k t. remove t k) (keys t) t) = Map.empty"
  by (rule ext) (auto simp: get_fold_remove keys_get dom_def)

lemma get_fold_put:
  "distinct (map fst kvs) \<Longrightarrow>
   get (fold (\<lambda>kv t. put t (fst kv) (snd kv)) kvs t) k =
     (case map_of kvs k of Some v \<Rightarrow> Some v | None \<Rightarrow> get t k)"
proof (induction kvs arbitrary: t)
  case (Cons kv kvs)
  obtain a b where kv: "kv = (a, b)" by fastforce
  from Cons.prems kv have "map_of kvs a = None" by (simp add: map_of_eq_None_iff)
  with Cons kv show ?case by (auto simp: get_put split: option.splits)
qed simp

lemma invar_fold_remove: "invar t \<Longrightarrow> invar (fold (\<lambda>k t. remove t k) ks t)"
  by (induction ks arbitrary: t) (auto intro: invar_remove)

lemma invar_fold_put: "invar t \<Longrightarrow> invar (fold (\<lambda>kv t. put t (fst kv) (snd kv)) kvs t)"
  by (induction kvs arbitrary: t) (auto intro: invar_put)

lemma sum_keys:
  assumes "invar t"
  shows "(\<Sum>k\<leftarrow>keys t. g k) = sum (g :: 'k \<Rightarrow> 'a::comm_monoid_add) (dom (get t))"
  using keys_distinct[OF assms] by (simp add: sum_list_distinct_conv_sum_set keys_get)

lemma finite_dom: "finite (dom (get t))"
  using keys_get[of t] by (metis finite_set)

text \<open>The sum of a quantity over the entries of a table, and how an update moves it.\<close>

lemma sum_put:
  fixes f :: "'v \<Rightarrow> 'a::ab_group_add"
  assumes "invar t"
  shows "(\<Sum>j\<leftarrow>keys (put t k v). f (the (get (put t k v) j))) =
    (\<Sum>j\<leftarrow>keys t. f (the (get t j))) - (case get t k of None \<Rightarrow> 0 | Some w \<Rightarrow> f w) + f v"
proof -
  let ?D = "dom (get t)"
  have rest: "(\<Sum>j\<in>?D - {k}. f (the (get (put t k v) j))) = (\<Sum>j\<in>?D - {k}. f (the (get t j)))"
    by (rule sum.cong) (auto simp: get_put)
  have fin: "finite (?D - {k})" using finite_dom by simp
  have new: "(\<Sum>j\<in>dom (get (put t k v)). f (the (get (put t k v) j))) =
      f v + (\<Sum>j\<in>?D - {k}. f (the (get t j)))"
  proof -
    have dom: "dom (get (put t k v)) = insert k (?D - {k})" by (auto simp: get_put)
    have "(\<Sum>j\<in>insert k (?D - {k}). f (the (get (put t k v) j))) =
        f (the (get (put t k v) k)) + (\<Sum>j\<in>?D - {k}. f (the (get (put t k v) j)))"
      by (rule sum.insert[OF fin]) simp
    then show ?thesis unfolding dom rest by (simp add: get_put)
  qed
  have old: "(\<Sum>j\<in>?D. f (the (get t j))) =
      (case get t k of None \<Rightarrow> 0 | Some w \<Rightarrow> f w) + (\<Sum>j\<in>?D - {k}. f (the (get t j)))"
  proof (cases "get t k")
    case None
    then have "?D - {k} = ?D" by auto
    with None show ?thesis by simp
  next
    case (Some w)
    then have "k \<in> ?D" by auto
    with Some finite_dom show ?thesis by (simp add: sum.remove)
  qed
  show ?thesis
    by (simp only: sum_keys[OF assms] sum_keys[OF invar_put[OF assms]] new old) simp
qed

end

section \<open>Tables as association lists\<close>

type_synonym ('k, 'v) table = "('k \<times> 'v) list"

definition tbl_get :: "('k, 'v) table \<Rightarrow> 'k \<Rightarrow> 'v option" where
  "tbl_get t k = map_of t k"

definition tbl_set :: "('k, 'v) table \<Rightarrow> 'k \<Rightarrow> 'v \<Rightarrow> ('k, 'v) table" where
  "tbl_set t k v = AList.update k v t"

definition tbl_remove :: "('k, 'v) table \<Rightarrow> 'k \<Rightarrow> ('k, 'v) table" where
  "tbl_remove t k = AList.delete k t"

definition tbl_clear :: "('k, 'v) table \<Rightarrow> ('k, 'v) table" where
  "tbl_clear t = []"

definition tbl_keys :: "('k, 'v) table \<Rightarrow> 'k list" where
  "tbl_keys t = map fst t"

definition tbl_as_map :: "('k, 'v) table \<Rightarrow> ('k \<times> 'v) list" where
  "tbl_as_map t = t"

definition tbl_wf :: "('k, 'v) table \<Rightarrow> bool" where
  "tbl_wf t \<longleftrightarrow> distinct (map fst t)"

lemmas tbl_defs = tbl_get_def tbl_set_def tbl_remove_def tbl_clear_def tbl_keys_def tbl_as_map_def
  tbl_wf_def

interpretation tbl: table_ref tbl_get tbl_set tbl_remove tbl_clear tbl_keys tbl_as_map tbl_wf
proof (unfold_locales, goal_cases)
  case (1 t k v)
  show ?case by (rule ext) (simp add: tbl_defs update_conv')
next
  case (2 t k)
  show ?case by (rule ext) (simp add: tbl_defs delete_conv')
next
  case (3 t)
  show ?case by (rule ext) (simp add: tbl_defs)
next
  case (4 t)
  have "tbl_get t = map_of t" by (rule ext) (simp add: tbl_get_def)
  then show ?case by (simp add: tbl_keys_def dom_map_of_conv_image_fst)
next
  case (5 t)
  then show ?case by (auto simp: tbl_defs dest: map_of_SomeD)
next
  case (8 t k v)
  then show ?case by (simp add: tbl_defs distinct_update)
next
  case (9 t k)
  then show ?case by (simp add: tbl_defs distinct_delete)
qed (simp_all add: tbl_defs)

declare tbl.get_put [simp, table_simps] tbl.get_remove [simp, table_simps]
  tbl.get_clear [simp, table_simps] tbl.invar_put [simp, table_simps]
  tbl.invar_remove [simp, table_simps] tbl.invar_clear [simp, table_simps]

lemma tbl_get_Nil [simp]: "tbl_get [] k = None"
  by (simp add: tbl_get_def)

lemma tbl_wf_Nil [simp]: "tbl_wf []"
  by (simp add: tbl_wf_def)

lemma tbl_keys_iff: "k \<in> set (tbl_keys t) \<longleftrightarrow> tbl_get t k \<noteq> None"
  by (simp add: tbl.keys_get dom_def)

text \<open>The sum of \<open>f\<close> over the values of a table.\<close>

definition tbl_total :: "('v \<Rightarrow> 'a::comm_monoid_add) \<Rightarrow> ('k, 'v) table \<Rightarrow> 'a" where
  "tbl_total f t = (\<Sum>k\<leftarrow>tbl_keys t. f (the (tbl_get t k)))"

lemma tbl_total_set [table_simps]:
  fixes f :: "'v \<Rightarrow> 'a::ab_group_add"
  shows "tbl_wf t \<Longrightarrow> tbl_total f (tbl_set t k v) =
    tbl_total f t - (case tbl_get t k of None \<Rightarrow> 0 | Some w \<Rightarrow> f w) + f v"
  unfolding tbl_total_def by (rule tbl.sum_put)

end
