(* ===== verification/HpFixed.thy ===== *)
theory HpFixed
  imports Prelude "HOL-Library.Signed_Division" "HOL-Library.Type_Length"
begin

text \<open>
  Fixed-point numbers, \<^verbatim>\<open>lib/hp-fixed\<close>. \<^verbatim>\<open>HpUfixed<P>\<close> (\<^verbatim>\<open>unsigned.rs\<close>) wraps a 256-bit unsigned
  integer and \<^verbatim>\<open>HpFixed<P>\<close> (\<^verbatim>\<open>signed.rs\<close>) an arbitrary-precision integer; the precision \<open>P\<close> is a
  type argument here too, so \<^verbatim>\<open>HpUfixed<18>\<close> is the type \<open>18 HpUfixed\<close>. The 256-bit integer is a
  256-bit word: its operators \<open>+\<close>, \<open>-\<close> and \<open>*\<close> wrap, and a division by zero panics, as documented
  for \<^verbatim>\<open>ruint::Uint\<close>; \<^verbatim>\<open>BigInt\<close>'s division truncates towards zero.
\<close>

section \<open>Unsigned fixed-point numbers\<close>

datatype 'p HpUfixed = HpUfixed (get_value: u256)

datatype HpFixedConversionError =
    PrecisionLevelNotSupported | Overflow | Underflow | DivisionError | FloatParseError | ParseError

text \<open>\<open>scale\<close> is \<^verbatim>\<open>U256::from(10u32).pow(P)\<close>.\<close>

definition scale :: "'p::len0 itself \<Rightarrow> u256" where
  "scale _ = 10 ^ LENGTH('p)"

definition hp_zero :: "'p HpUfixed" where
  "hp_zero = HpUfixed 0"

definition hp_add :: "'p HpUfixed \<Rightarrow> 'p HpUfixed \<Rightarrow> 'p HpUfixed" where
  "hp_add x y = HpUfixed (get_value x + get_value y)"

definition hp_sub :: "'p HpUfixed \<Rightarrow> 'p HpUfixed \<Rightarrow> 'p HpUfixed" where
  "hp_sub x y = HpUfixed (get_value x - get_value y)"

text \<open>The derived order compares the wrapped integers.\<close>

definition hp_le :: "'p HpUfixed \<Rightarrow> 'p HpUfixed \<Rightarrow> bool" where
  "hp_le x y \<longleftrightarrow> get_value x \<le> get_value y"

definition hp_less :: "'p HpUfixed \<Rightarrow> 'p HpUfixed \<Rightarrow> bool" where
  "hp_less x y \<longleftrightarrow> get_value x < get_value y"

text \<open>The operators of the source are those of the type classes.\<close>

instantiation HpUfixed :: (type) ab_group_add
begin

definition zero_HpUfixed :: "'a HpUfixed" where
  "zero_HpUfixed = hp_zero"

definition plus_HpUfixed :: "'a HpUfixed \<Rightarrow> 'a HpUfixed \<Rightarrow> 'a HpUfixed" where
  "plus_HpUfixed = hp_add"

definition minus_HpUfixed :: "'a HpUfixed \<Rightarrow> 'a HpUfixed \<Rightarrow> 'a HpUfixed" where
  "minus_HpUfixed = hp_sub"

definition uminus_HpUfixed :: "'a HpUfixed \<Rightarrow> 'a HpUfixed" where
  "uminus_HpUfixed x = HpUfixed (- get_value x)"

instance
  by standard (auto simp: zero_HpUfixed_def plus_HpUfixed_def minus_HpUfixed_def uminus_HpUfixed_def
      hp_zero_def hp_add_def hp_sub_def intro: HpUfixed.expand)

end

instantiation HpUfixed :: (type) linorder
begin

definition less_eq_HpUfixed :: "'a HpUfixed \<Rightarrow> 'a HpUfixed \<Rightarrow> bool" where
  "less_eq_HpUfixed = hp_le"

definition less_HpUfixed :: "'a HpUfixed \<Rightarrow> 'a HpUfixed \<Rightarrow> bool" where
  "less_HpUfixed = hp_less"

instance
  by standard (auto simp: less_eq_HpUfixed_def less_HpUfixed_def hp_le_def hp_less_def intro: HpUfixed.expand)

end

lemmas HpUfixed_zero = zero_HpUfixed_def hp_zero_def
lemmas HpUfixed_plus = plus_HpUfixed_def hp_add_def
lemmas HpUfixed_minus = minus_HpUfixed_def hp_sub_def
lemmas HpUfixed_less_eq = less_eq_HpUfixed_def hp_le_def
lemmas HpUfixed_less = less_HpUfixed_def hp_less_def
lemmas HpUfixed_arith_defs = HpUfixed_zero HpUfixed_plus HpUfixed_minus HpUfixed_less_eq HpUfixed_less

text \<open>
  The powers of ten are \<^verbatim>\<open>u128\<close> words, which wrap from \<open>10 ^ 39\<close> on. From a difference of 128 digits on
  the power is zero and the source panics in the division, where the word division here gives zero; the
  sources convert between 6 and 18 digits.
\<close>

definition convert_precision :: "'p::len0 HpUfixed \<Rightarrow> 'q::len0 HpUfixed" where
  "convert_precision x =
     (let precision_diff = int LENGTH('p) - int LENGTH('q)
      in HpUfixed (if precision_diff > 0
        then get_value x div ucast ((10 :: u128) ^ nat precision_diff)
        else get_value x * ucast ((10 :: u128) ^ nat (- precision_diff))))"

definition hp_min :: "'p HpUfixed \<Rightarrow> 'p HpUfixed \<Rightarrow> 'p HpUfixed" where
  "hp_min x y = (if get_value x \<le> get_value y then x else y)"

definition hp_max :: "'p HpUfixed \<Rightarrow> 'p HpUfixed \<Rightarrow> 'p HpUfixed" where
  "hp_max x y = (if get_value x \<ge> get_value y then x else y)"

definition hp_floor :: "'p::len0 HpUfixed \<Rightarrow> 'p HpUfixed" where
  "hp_floor x = HpUfixed (get_value x div scale TYPE('p) * scale TYPE('p))"

definition hp_mul :: "'p::len0 HpUfixed \<Rightarrow> 'p HpUfixed \<Rightarrow> 'p HpUfixed" where
  "hp_mul x y = HpUfixed (get_value x * get_value y div scale TYPE('p))"

definition hp_div :: "'p::len0 HpUfixed \<Rightarrow> 'p HpUfixed \<Rightarrow> 'p HpUfixed option" where
  "hp_div x y =
     (if get_value y = 0 then None
      else Some (HpUfixed (get_value x * scale TYPE('p) div get_value y)))"

text \<open>\<^verbatim>\<open>From<u16>\<close>, \<^verbatim>\<open>From<u32>\<close>, \<^verbatim>\<open>From<u64>\<close>, \<^verbatim>\<open>From<u128>\<close> and \<^verbatim>\<open>From<usize>\<close>.\<close>

definition hp_from :: "nat \<Rightarrow> 'p::len0 HpUfixed" where
  "hp_from value = HpUfixed (of_nat value * scale TYPE('p))"

text \<open>\<^verbatim>\<open>TryFrom<HpUfixed<P>>\<close> for \<^verbatim>\<open>u32\<close>, \<^verbatim>\<open>u64\<close>, \<^verbatim>\<open>u128\<close> and \<^verbatim>\<open>usize\<close>.\<close>

definition hp_try_into :: "'p::len0 HpUfixed \<Rightarrow> HpFixedConversionError + 'w::len word" where
  "hp_try_into x =
     (let divisor = scale TYPE('p)
      in if divisor = 0 then Inl DivisionError
         else let interim = get_value x div divisor
           in if unat interim < 2 ^ LENGTH('w) then Inr (ucast interim) else Inl Overflow)"

section \<open>Decimal strings\<close>

text \<open>
  A conversion from \<^verbatim>\<open>f64\<close> goes through the decimal rendering of the float (\<^verbatim>\<open>format!("{value}")\<close>),
  and the model starts from that string. A string that \<^verbatim>\<open>from_str_radix\<close> rejects is a panic.
\<close>

definition digit_of :: "char \<Rightarrow> nat option" where
  "digit_of c = (let n = of_char c :: nat in if 48 \<le> n \<and> n \<le> 57 then Some (n - 48) else None)"

fun parse_digits :: "nat \<Rightarrow> string \<Rightarrow> nat option" where
  "parse_digits acc [] = Some acc"
| "parse_digits acc (c # cs) =
     (case digit_of c of None \<Rightarrow> None | Some d \<Rightarrow> parse_digits (10 * acc + d) cs)"

fun split_on :: "char \<Rightarrow> string \<Rightarrow> string list" where
  "split_on c [] = [[]]"
| "split_on c (x # xs) =
     (let r = split_on c xs in if x = c then [] # r else (x # hd r) # tl r)"

text \<open>\<open>frac_str.push('0')\<close> until \<open>P\<close> digits, then \<open>truncate(P)\<close>.\<close>

definition pad_fraction :: "nat \<Rightarrow> string \<Rightarrow> string" where
  "pad_fraction P s = take P (s @ replicate (P - length s) CHR ''0'')"

definition get_float_parts_b :: "nat \<Rightarrow> string \<Rightarrow> (nat \<times> nat) option" where
  "get_float_parts_b P s =
     (let parts = split_on CHR ''.'' s
      in do {
        integer_part \<leftarrow> parse_digits 0 (parts ! 0);
        fraction_part \<leftarrow> (if length parts > 1 then parse_digits 0 (pad_fraction P (parts ! 1))
                          else Some 0);
        Some (integer_part, fraction_part)
      })"

definition get_float_parts :: "nat \<Rightarrow> string \<Rightarrow> (u256 \<times> u256) option" where
  "get_float_parts P s =
     (case get_float_parts_b P s of
        Some (i, f) \<Rightarrow> if i < 2 ^ 256 \<and> f < 2 ^ 256 then Some (of_nat i, of_nat f) else None
      | None \<Rightarrow> None)"

definition hp_from_f64 :: "string \<Rightarrow> 'p::len0 HpUfixed option" where
  "hp_from_f64 s =
     (case get_float_parts LENGTH('p) s of
        Some (integer_part, fraction_part) \<Rightarrow>
          Some (HpUfixed (integer_part * scale TYPE('p) + fraction_part))
      | None \<Rightarrow> None)"

fun show_digits :: "nat \<Rightarrow> string" where
  "show_digits n =
     (if n < 10 then [char_of (48 + n)] else show_digits (n div 10) @ [char_of (48 + n mod 10)])"

declare show_digits.simps [simp del]

text \<open>The string \<^verbatim>\<open>TryFrom<HpUfixed<P>> for f64\<close> hands to the float parser.\<close>

definition hp_f64_string :: "'p::len0 HpUfixed \<Rightarrow> string" where
  "hp_f64_string x =
     (let divisor = scale TYPE('p);
          fraction_part = get_value x mod divisor;
          integer_part = get_value x div divisor
      in show_digits (unat integer_part) @ ''.'' @ show_digits (unat fraction_part))"

section \<open>Signed fixed-point numbers\<close>

datatype 'p HpFixed = HpFixed (get_int: int)

definition szero :: "'p HpFixed" where
  "szero = HpFixed 0"

definition sadd :: "'p HpFixed \<Rightarrow> 'p HpFixed \<Rightarrow> 'p HpFixed" where
  "sadd x y = HpFixed (get_int x + get_int y)"

definition ssub :: "'p HpFixed \<Rightarrow> 'p HpFixed \<Rightarrow> 'p HpFixed" where
  "ssub x y = HpFixed (get_int x - get_int y)"

text \<open>The derived order compares the wrapped integers.\<close>

definition sle :: "'p HpFixed \<Rightarrow> 'p HpFixed \<Rightarrow> bool" where
  "sle x y \<longleftrightarrow> get_int x \<le> get_int y"

definition sless :: "'p HpFixed \<Rightarrow> 'p HpFixed \<Rightarrow> bool" where
  "sless x y \<longleftrightarrow> get_int x < get_int y"

text \<open>The operators of the source are those of the type classes.\<close>

instantiation HpFixed :: (type) ab_group_add
begin

definition zero_HpFixed :: "'a HpFixed" where
  "zero_HpFixed = szero"

definition plus_HpFixed :: "'a HpFixed \<Rightarrow> 'a HpFixed \<Rightarrow> 'a HpFixed" where
  "plus_HpFixed = sadd"

definition minus_HpFixed :: "'a HpFixed \<Rightarrow> 'a HpFixed \<Rightarrow> 'a HpFixed" where
  "minus_HpFixed = ssub"

definition uminus_HpFixed :: "'a HpFixed \<Rightarrow> 'a HpFixed" where
  "uminus_HpFixed x = HpFixed (- get_int x)"

instance
  by standard (auto simp: zero_HpFixed_def plus_HpFixed_def minus_HpFixed_def uminus_HpFixed_def
      szero_def sadd_def ssub_def intro: HpFixed.expand)

end

instantiation HpFixed :: (type) linorder
begin

definition less_eq_HpFixed :: "'a HpFixed \<Rightarrow> 'a HpFixed \<Rightarrow> bool" where
  "less_eq_HpFixed = sle"

definition less_HpFixed :: "'a HpFixed \<Rightarrow> 'a HpFixed \<Rightarrow> bool" where
  "less_HpFixed = sless"

instance
  by standard (auto simp: less_eq_HpFixed_def less_HpFixed_def sle_def sless_def intro: HpFixed.expand)

end

lemmas HpFixed_zero = zero_HpFixed_def szero_def
lemmas HpFixed_plus = plus_HpFixed_def sadd_def
lemmas HpFixed_minus = minus_HpFixed_def ssub_def
lemmas HpFixed_less_eq = less_eq_HpFixed_def sle_def
lemmas HpFixed_less = less_HpFixed_def sless_def
lemmas HpFixed_arith_defs = HpFixed_zero HpFixed_plus HpFixed_minus HpFixed_less_eq HpFixed_less

definition sconvert_precision :: "'p::len0 HpFixed \<Rightarrow> 'q::len0 HpFixed" where
  "sconvert_precision x =
     (let precision_diff = int LENGTH('p) - int LENGTH('q)
      in HpFixed (if precision_diff > 0 then get_int x sdiv 10 ^ nat precision_diff
                  else get_int x * 10 ^ nat (- precision_diff)))"

definition sfloor :: "'p::len0 HpFixed \<Rightarrow> 'p HpFixed" where
  "sfloor x = HpFixed (get_int x sdiv 10 ^ LENGTH('p) * 10 ^ LENGTH('p))"

definition smul :: "'p::len0 HpFixed \<Rightarrow> 'p HpFixed \<Rightarrow> 'p HpFixed" where
  "smul x y = HpFixed (get_int x * get_int y sdiv 10 ^ LENGTH('p))"

definition sdivide :: "'p::len0 HpFixed \<Rightarrow> 'p HpFixed \<Rightarrow> 'p HpFixed option" where
  "sdivide x y =
     (if get_int y = 0 then None else Some (HpFixed (get_int x * 10 ^ LENGTH('p) sdiv get_int y)))"

definition sfrom :: "int \<Rightarrow> 'p::len0 HpFixed" where
  "sfrom value = HpFixed (value * 10 ^ LENGTH('p))"

definition sfrom_f64 :: "string \<Rightarrow> 'p::len0 HpFixed option" where
  "sfrom_f64 s =
     (let neg = (s \<noteq> [] \<and> hd s = CHR ''-'');
          s' = (if neg \<and> \<not> (tl s \<noteq> [] \<and> hd (tl s) = CHR ''+'') then tl s else s)
      in case get_float_parts_b LENGTH('p) s' of
           Some (integer_part, fraction_part) \<Rightarrow>
             let result = int (integer_part * 10 ^ LENGTH('p) + fraction_part)
             in Some (HpFixed (if neg then - result else result))
         | None \<Rightarrow> None)"

text \<open>\<^verbatim>\<open>TryFrom<HpFixed<P>>\<close> for the signed integers of \<open>w\<close> bits.\<close>

definition stry_into :: "nat \<Rightarrow> 'p::len0 HpFixed \<Rightarrow> HpFixedConversionError + int" where
  "stry_into w x =
     (let interim = get_int x sdiv 10 ^ LENGTH('p)
      in if interim > 2 ^ (w - 1) - 1 then Inl Overflow
         else if interim < - (2 ^ (w - 1)) then Inl Underflow
         else Inr interim)"

definition stry_into_bigint :: "'p::len0 HpFixed \<Rightarrow> int" where
  "stry_into_bigint x = get_int x sdiv 10 ^ LENGTH('p)"

definition try_abs :: "'p::len0 HpFixed \<Rightarrow> 'p HpFixed" where
  "try_abs x = sfrom \<bar>stry_into_bigint x\<bar>"

section \<open>Properties\<close>

lemma get_value_arith [simp]:
  "get_value (0 :: 'p HpUfixed) = 0"
  "get_value (x + y) = get_value x + get_value (y :: 'p HpUfixed)"
  "get_value (x - y) = get_value x - get_value (y :: 'p HpUfixed)"
  by (simp_all add: HpUfixed_arith_defs)

lemma unat_power_10: "unat ((10 :: u256) ^ n) = 10 ^ n mod 2 ^ 256"
proof -
  have "(10 :: u256) ^ n = of_nat (10 ^ n)" by simp
  then show ?thesis by (simp only: unat_of_nat) simp
qed

lemma unat_scale: "10 ^ LENGTH('p) < (2::nat) ^ 256 \<Longrightarrow> unat (scale TYPE('p::len0)) = 10 ^ LENGTH('p)"
  by (simp add: scale_def unat_power_10)

lemma scale_neq_0: "10 ^ LENGTH('p) < (2::nat) ^ 256 \<Longrightarrow> scale TYPE('p::len0) \<noteq> 0"
  using unat_scale[where 'p='p] by auto

text \<open>Multiplication and division by the scale, on the naturals.\<close>

lemma unat_hp_mul:
  assumes "10 ^ LENGTH('p) < (2::nat) ^ 256"
    and "unat (get_value x) * unat (get_value y) < 2 ^ 256"
  shows "unat (get_value (hp_mul x (y :: 'p::len0 HpUfixed))) =
    unat (get_value x) * unat (get_value y) div 10 ^ LENGTH('p)"
  using assms by (simp add: hp_mul_def unat_div unat_scale unat_mult_lem[THEN iffD1])

lemma unat_hp_from:
  assumes "value * 10 ^ LENGTH('p) < 2 ^ 256"
  shows "unat (get_value (hp_from value :: 'p::len0 HpUfixed)) = value * 10 ^ LENGTH('p)"
proof (cases "value = 0")
  case False
  have "of_nat value * (10 :: u256) ^ LENGTH('p) = of_nat (value * 10 ^ LENGTH('p))" by simp
  then have "unat (of_nat value * (10 :: u256) ^ LENGTH('p)) = value * 10 ^ LENGTH('p) mod 2 ^ 256"
    by (simp only: unat_of_nat) simp
  with assms show ?thesis by (simp add: hp_from_def scale_def)
qed (simp add: hp_from_def)

lemma hp_mul_le:
  assumes "10 ^ LENGTH('p) < (2::nat) ^ 256"
    and "unat (get_value x) * unat (get_value y) < 2 ^ 256"
    and "unat (get_value y) \<le> 10 ^ LENGTH('p)"
  shows "hp_mul x (y :: 'p::len0 HpUfixed) \<le> x"
proof -
  have "unat (get_value x) * unat (get_value y) div 10 ^ LENGTH('p)
      \<le> unat (get_value x) * 10 ^ LENGTH('p) div 10 ^ LENGTH('p)"
    using assms(3) by (intro div_le_mono) simp
  then show ?thesis
    by (simp add: HpUfixed_less_eq word_le_nat_alt unat_hp_mul[OF assms(1,2)])
qed

text \<open>
  The integer conversions are inverse to each other wherever the value fits: what \<^verbatim>\<open>From\<close> builds,
  \<^verbatim>\<open>TryFrom\<close> returns, and a value that does not fit the target width is an overflow error.
\<close>

lemma hp_try_into_from:
  assumes "10 ^ LENGTH('p) < (2::nat) ^ 256" and "n * 10 ^ LENGTH('p) < 2 ^ 256"
  shows "(hp_try_into (hp_from n :: 'p::len0 HpUfixed) :: HpFixedConversionError + 'w::len word) =
    (if n < 2 ^ LENGTH('w) then Inr (of_nat n) else Inl Overflow)"
proof -
  have v: "unat (get_value (hp_from n :: 'p HpUfixed)) = n * 10 ^ LENGTH('p)"
    using assms(2) by (rule unat_hp_from)
  have q: "unat (get_value (hp_from n :: 'p HpUfixed) div scale TYPE('p)) = n"
    using assms(1) by (simp add: unat_div v unat_scale)
  then have "(ucast (get_value (hp_from n :: 'p HpUfixed) div scale TYPE('p)) :: 'w word) = of_nat n"
    by (metis of_nat_unat)
  with q show ?thesis
    using assms(1) by (simp add: hp_try_into_def Let_def scale_neq_0)
qed

text \<open>Widening the precision and narrowing it back is the identity when nothing overflows.\<close>

lemma unat_pow10_u128: "d \<le> 38 \<Longrightarrow> unat (ucast ((10 :: u128) ^ d) :: u256) = 10 ^ d"
proof -
  assume d: "d \<le> 38"
  have "(10::nat) ^ d \<le> 10 ^ 38" using d by (rule power_increasing) simp
  also have "\<dots> < 2 ^ 128" by simp
  finally have b: "(10::nat) ^ d < 2 ^ 128" .
  have "(10 :: u128) ^ d = of_nat (10 ^ d)" by simp
  then have "unat ((10 :: u128) ^ d) = 10 ^ d mod 2 ^ 128" by (simp only: unat_of_nat) simp
  with b have "unat ((10 :: u128) ^ d) = 10 ^ d" by simp
  then show ?thesis by (simp add: unat_ucast_up)
qed

lemma convert_precision_roundtrip:
  fixes x :: "'p::len0 HpUfixed"
  assumes le: "LENGTH('p) \<le> LENGTH('q::len0)" and d: "LENGTH('q) - LENGTH('p) \<le> 38"
    and fits: "unat (get_value x) * 10 ^ (LENGTH('q) - LENGTH('p)) < 2 ^ 256"
  shows "convert_precision (convert_precision x :: 'q HpUfixed) = x"
proof -
  let ?d = "LENGTH('q) - LENGTH('p)"
  let ?s = "ucast ((10 :: u128) ^ ?d) :: u256"
  have s: "unat ?s = 10 ^ ?d" using d by (rule unat_pow10_u128)
  have up: "get_value (convert_precision x :: 'q HpUfixed) = get_value x * ?s"
    using le by (simp add: convert_precision_def Let_def nat_diff_distrib)
  have "unat (get_value x * ?s) = unat (get_value x) * 10 ^ ?d"
    using fits s by (simp add: unat_mult_lem[THEN iffD1])
  then have "unat (get_value x * ?s div ?s) = unat (get_value x)"
    using s by (simp add: unat_div)
  then have narrow: "get_value x * ?s div ?s = get_value x" by (simp add: word_unat_eq_iff)
  have "get_value (convert_precision (convert_precision x :: 'q HpUfixed) :: 'p HpUfixed) = get_value x"
  proof (cases "LENGTH('p) = LENGTH('q)")
    case True
    then show ?thesis using up by (simp add: convert_precision_def)
  next
    case False
    with le have "int LENGTH('q) - int LENGTH('p) > 0" by simp
    then show ?thesis
      unfolding convert_precision_def [where 'p = 'q and 'q = 'p]
      using up narrow by (simp add: Let_def nat_diff_distrib)
  qed
  then show ?thesis by (rule HpUfixed.expand)
qed

end
