(* ===== verification/Types.thy ===== *)
theory Types
  imports Tables HpFixed
begin

text \<open>
  The data model of the application state, \<^verbatim>\<open>core/types/src\<close> (\<^verbatim>\<open>state.rs\<close>, \<^verbatim>\<open>transaction.rs\<close>,
  \<^verbatim>\<open>application.rs\<close>, \<^verbatim>\<open>response.rs\<close>, \<^verbatim>\<open>reputation.rs\<close>) and the sender and signature types of
  \<^verbatim>\<open>lib/fleek-crypto\<close>. A Rust enum is a datatype with the source's constructors (referred to as
  \<open>Metadata.Epoch\<close> or \<open>Value.Epoch\<close> where two enums share a name), a struct is a record whose
  fields carry a short prefix. A byte array \<^verbatim>\<open>[u8; n]\<close> used as a key is a word of \<open>8 n\<close> bits, read
  big-endian, so that the order of arrays is the order of words; a \<^verbatim>\<open>Duration\<close> is its number of
  nanoseconds, without the upper bound, since only reported latencies below 20 seconds are added; a \<^verbatim>\<open>BTreeSet\<close> is a set; a \<^verbatim>\<open>BTreeMap\<close> or \<^verbatim>\<open>HashMap\<close> is a table.
\<close>

section \<open>Identifiers\<close>

type_synonym ServiceId = u32
type_synonym Epoch = u64
type_synonym NodeIndex = u32
type_synonym BlockNumber = u64
type_synonym ChainId = u32
type_synonym Nonce = u64
type_synonym TxHash = u256
type_synonym Blake3Hash = u256
type_synonym EthAddress = "160 word"
type_synonym NodePublicKey = u256
type_synonym ConsensusPublicKey = "768 word"
type_synonym ClientPublicKey = "768 word"
type_synonym Duration = nat
type_synonym Round = u64

datatype (plugins only: code size) IpAddr = V4 u32 | V6 u128

section \<open>Enumerations of the state\<close>

datatype (plugins only: code size) Tokens = USDC | FLK

definition token_address :: "Tokens \<Rightarrow> EthAddress" where
  "token_address t = (case t of USDC \<Rightarrow> 0 | FLK \<Rightarrow> 0x0101010101010101010101010101010101010101)"

datatype (plugins only: code size) CommodityTypes = Bandwidth | Compute | Gpu

definition commodity_index :: "CommodityTypes \<Rightarrow> nat" where
  "commodity_index c = (case c of Bandwidth \<Rightarrow> 0 | Compute \<Rightarrow> 1 | Gpu \<Rightarrow> 2)"

datatype (plugins only: code size) Participation = PTrue | PFalse | OptedIn | OptedOut

datatype (plugins only: code size) CommitteeSelectionBeaconPhase = Commit "Epoch \<times> Round" | Reveal "Epoch \<times> Round"

type_synonym BeaconCommit = u256
type_synonym BeaconReveal = u256

datatype (plugins only: code size) Metadata =
    ChainId | Epoch | BlockNumber | SupplyYearStart | TotalSupply | ProtocolFundAddress
  | NextNodeIndex | GovernanceAddress | LastEpochHash | LastBlockHash | GenesisCommittee
  | SubDagIndex | SubDagRound | CommitteeSelectionBeaconPhase | EpochEra | WithdrawId
  | TimeInterval

datatype (plugins only: code size) Value =
    ChainId u32
  | Epoch u64
  | BlockNumber u64
  | VString string
  | VHpUfixed "18 HpUfixed"
  | AccountPublicKey EthAddress
  | NextNodeIndex u32
  | VHash u256
  | GenesisCommittee "NodeIndex list"
  | SubDagIndex u64
  | SubDagRound u64
  | BlockRange u64 u64
  | CommitteeSelectionBeaconPhase CommitteeSelectionBeaconPhase
  | EpochEra u64
  | WithdrawId u64
  | TimeInterval u64

datatype (plugins only: code size) ProtocolParamKey =
    EpochTime | CommitteeSize | NodeCount | MinimumNodeStake | EligibilityTime | LockTime
  | ProtocolShare | NodeShare | ServiceBuilderShare | MaxInflation | MaxBoost | MaxStakeLockTime
  | MinNumMeasurements | SGXSharedPubKey | EpochsPerYear | ReputationPingTimeout
  | TopologyTargetK | TopologyMinNodes | CommitteeSelectionBeaconCommitPhaseDuration
  | CommitteeSelectionBeaconRevealPhaseDuration | CommitteeSelectionBeaconNonRevealSlashAmount
  | TotalTimeIntervals

datatype (plugins only: code size) ProtocolParamValue =
    EpochTime u64
  | EpochsPerYear u64
  | CommitteeSize u64
  | NodeCount u64
  | MinimumNodeStake u64
  | EligibilityTime u64
  | LockTime u64
  | ProtocolShare u16
  | NodeShare u16
  | ServiceBuilderShare u16
  | MaxInflation u16
  | MaxBoost u16
  | MaxStakeLockTime u64
  | MinNumMeasurements u64
  | SGXSharedPubKey string
  | ReputationPingTimeout Duration
  | TopologyTargetK u64
  | TopologyMinNodes u64
  | CommitteeSelectionBeaconCommitPhaseDuration u64
  | CommitteeSelectionBeaconRevealPhaseDuration u64
  | CommitteeSelectionBeaconNonRevealSlashAmount u64
  | TotalTimeIntervals u64

section \<open>Records of the state\<close>

record NodeServed =
  ns_served :: "u128 list"
  ns_stables_revenue :: "6 HpUfixed"

record TotalServed =
  ts_served :: "u128 list"
  ts_reward_pool :: "6 HpUfixed"

record ReputationMeasurements =
  rm_latency :: "Duration option"
  rm_interactions :: "64 word option"
  rm_inbound_bandwidth :: "u128 option"
  rm_outbound_bandwidth :: "u128 option"
  rm_bytes_received :: "u128 option"
  rm_bytes_sent :: "u128 option"
  rm_uptime :: "18 HpFixed option"
  rm_hops :: "u8 option"

record ReportedReputationMeasurements =
  rr_reporting_node :: NodeIndex
  rr_measurements :: ReputationMeasurements

record HandshakePorts =
  hs_http :: u16
  hs_webrtc :: u16
  hs_webtransport :: u16

record NodePorts =
  po_primary :: u16
  po_worker :: u16
  po_mempool :: u16
  po_rpc :: u16
  po_pool :: u16
  po_pinger :: u16
  po_handshake :: HandshakePorts

definition NodePorts_default :: NodePorts where
  "NodePorts_default = \<lparr>po_primary = 4310, po_worker = 4311, po_mempool = 4210, po_rpc = 4240,
     po_pool = 4300, po_pinger = 4350,
     po_handshake = \<lparr>hs_http = 4220, hs_webrtc = 4320, hs_webtransport = 4321\<rparr>\<rparr>"

record Staking =
  stk_staked :: "18 HpUfixed"
  stk_stake_locked_until :: u64
  stk_locked :: "18 HpUfixed"
  stk_locked_until :: u64

definition Staking_default :: Staking where
  "Staking_default = \<lparr>stk_staked = 0, stk_stake_locked_until = 0, stk_locked = 0, stk_locked_until = 0\<rparr>"

record NodeInfo =
  ni_owner :: EthAddress
  ni_public_key :: NodePublicKey
  ni_consensus_key :: ConsensusPublicKey
  ni_staked_since :: Epoch
  ni_stake :: Staking
  ni_domain :: IpAddr
  ni_worker_domain :: IpAddr
  ni_ports :: NodePorts
  ni_worker_public_key :: NodePublicKey
  ni_participation :: Participation
  ni_nonce :: u64

record Service =
  svc_owner :: EthAddress
  svc_commodity_type :: CommodityTypes

datatype (plugins only: code size) NodeRegistryChangeSlashReason = CommitteeBeaconNonReveal

datatype (plugins only: code size) NodeRegistryChange =
  New | Removed | Slashed "18 HpUfixed" Staking NodeRegistryChangeSlashReason

type_synonym BlockNodeRegistryChanges = "(NodePublicKey \<times> NodeRegistryChange) list"

record Committee =
  com_members :: "NodeIndex list"
  com_ready_to_change :: "NodeIndex list"
  com_signalled_commit_phase_timeout :: "NodeIndex list"
  com_signalled_reveal_phase_timeout :: "NodeIndex list"
  com_epoch_end_timestamp :: u64
  com_epoch_transition_timestamp :: u64
  com_active_node_set :: "NodeIndex list"
  com_node_registry_changes :: "(BlockNumber, BlockNodeRegistryChanges) table"

definition Committee_default :: Committee where
  "Committee_default = \<lparr>com_members = [], com_ready_to_change = [],
     com_signalled_commit_phase_timeout = [], com_signalled_reveal_phase_timeout = [],
     com_epoch_end_timestamp = 0, com_epoch_transition_timestamp = 0,
     com_active_node_set = [], com_node_registry_changes = []\<rparr>"

record JobInfo =
  jf_frequency :: u32
  jf_amount :: u32
  jf_service :: ServiceId
  jf_arguments :: "u8 list"

record JobStatus =
  js_last_run :: u64
  js_success :: bool
  js_message :: "string option"

record Job =
  job_hash :: u256
  job_info :: JobInfo
  job_status :: "JobStatus option"
  job_assignee :: "NodeIndex option"

record AccountInfo =
  acc_flk_balance :: "18 HpUfixed"
  acc_stables_balance :: "6 HpUfixed"
  acc_bandwidth_balance :: u128
  acc_nonce :: u64
  acc_client_key :: "ClientPublicKey option"

definition AccountInfo_default :: AccountInfo where
  "AccountInfo_default = \<lparr>acc_flk_balance = 0, acc_stables_balance = 0, acc_bandwidth_balance = 0,
     acc_nonce = 0, acc_client_key = None\<rparr>"

record WithdrawInfo =
  wi_epoch :: Epoch
  wi_token :: Tokens
  wi_receiver :: EthAddress
  wi_amount :: "18 HpUfixed"

record MintInfo =
  mi_amount :: "18 HpUfixed"
  mi_token :: Tokens
  mi_receiving_address :: EthAddress
  mi_eth_tx_hash :: u256
  mi_block_number :: u64

record ContentUpdate =
  cu_uri :: Blake3Hash
  cu_remove :: bool

section \<open>Responses\<close>

datatype (plugins only: code size) ExecutionError =
    CommitteeSelectionBeaconNodeNotActive | CommitteeSelectionBeaconNotCommitted
  | CommitteeSelectionBeaconNotInCommitPhase | CommitteeSelectionBeaconCommitPhaseNotActive
  | CommitteeSelectionBeaconAlreadyCommitted | CommitteeSelectionBeaconRevealPhaseNotActive
  | CommitteeSelectionBeaconAlreadyRevealed | CommitteeSelectionBeaconNotInRevealPhase
  | CommitteeSelectionBeaconInvalidReveal | CommitteeSelectionBeaconInvalidCommitPhaseTimeout
  | CommitteeSelectionBeaconInvalidRevealPhaseTimeout | CommitteeSelectionBeaconNonRevealingNode
  | CommitteeSelectionBeaconRoundNotFound | MissingCommittee | InsufficientBalance
  | InvalidChainId | InvalidSignature | InvalidNonce | InvalidProof | InvalidInternetAddress
  | InsufficientNodeDetails | InvalidStateFunction | InvalidConsensusKey | InvalidToken
  | InvalidStateForContentRemoval | InvalidContentRemoval | NoLockedTokens | TokensLocked
  | NotNodeOwner | NotCommitteeMember | NodeDoesNotExist | AccountDoesNotExist
  | CantSendToYourself | AlreadySignaled | SubmittedTooManyTransactions | NonExistingService
  | OnlyAccountOwner | OnlyNode | OnlyGovernance | InvalidServiceId | InsufficientStake
  | NodeNotParticipating | LockExceededMaxStakeLockTime | LockedTokensUnstakeForbidden
  | EpochAlreadyChanged | EpochHasNotStarted | ConsensusKeyAlreadyIndexed
  | ContentAlreadyRegistered | Unimplemented | TooManyMeasurements | TooManyUpdates
  | TooManyUpdatesForContent | AlreadyMinted | AlreadyExecutedDigest | InvalidClientKeyLength
  | DuplicateClientKey | MissingClientKey

text \<open>The variants of \<^verbatim>\<open>ExecutionData\<close> that the executor produces.\<close>

datatype (plugins only: code size) ExecutionData = EDNone | EDString string | EDUInt u128 | EpochChange

datatype (plugins only: code size) TransactionResponse = Success ExecutionData | Revert ExecutionError

fun is_success :: "TransactionResponse \<Rightarrow> bool" where
  "is_success (Success _) = True"
| "is_success (Revert _) = False"

section \<open>Transactions\<close>

datatype (plugins only: code size) TransactionSender =
  NodeConsensus ConsensusPublicKey | NodeMain NodePublicKey | AccountOwner EthAddress

datatype (plugins only: code size) TransactionSignature =
  SigNodeConsensus "384 word" | SigNodeMain "512 word" | SigAccountOwner "520 word"

datatype (plugins only: code size) UpdateMethod =
    SubmitDeliveryAcknowledgmentAggregation u128 u32 "unit list" "u8 list option"
  | Withdraw "18 HpUfixed" Tokens EthAddress
  | ClearWithdraws u64
  | Mint "18 HpUfixed" Tokens EthAddress u256 u64
  | ClearMints u64
  | Deposit Tokens "18 HpUfixed"
  | Transfer "18 HpUfixed" Tokens EthAddress
  | Stake "18 HpUfixed" NodePublicKey "ConsensusPublicKey option" "IpAddr option"
      "NodePublicKey option" "IpAddr option" "NodePorts option"
  | StakeLock NodePublicKey u64
  | Unstake "18 HpUfixed" NodePublicKey
  | WithdrawUnstaked NodePublicKey "EthAddress option"
  | ChangeEpoch Epoch
  | CommitteeSelectionBeaconCommit BeaconCommit
  | CommitteeSelectionBeaconReveal BeaconReveal
  | CommitteeSelectionBeaconCommitPhaseTimeout Epoch Round
  | CommitteeSelectionBeaconRevealPhaseTimeout Epoch Round
  | AddService Service ServiceId
  | RemoveService ServiceId
  | Slash ServiceId NodePublicKey
  | SubmitReputationMeasurements "(NodeIndex, ReputationMeasurements) table"
  | ChangeProtocolParam ProtocolParamKey ProtocolParamValue
  | OptIn
  | OptOut
  | UpdateContentRegistry "ContentUpdate list"
  | IncrementNonce
  | AddJobs "Job list"
  | RemoveJobs "u256 list"
  | JobUpdates "(u256, JobStatus) table"

record UpdatePayload =
  up_sender :: TransactionSender
  up_nonce :: u64
  up_method :: UpdateMethod
  up_chain_id :: ChainId

record UpdateRequest =
  ur_signature :: TransactionSignature
  ur_payload :: UpdatePayload

text \<open>The fields of \<^verbatim>\<open>ethers::types::Transaction\<close> that the executor reads.\<close>

record EthersTransaction =
  et_hash :: u256
  et_nonce :: u256
  et_from :: EthAddress
  et_to :: "EthAddress option"
  et_value :: u256
  et_input :: "u8 list"
  et_chain_id :: "u256 option"
  et_v :: u64
  et_r :: u256
  et_s :: u256

datatype (plugins only: code size) TransactionRequest =
  UpdateReq UpdateRequest | EthereumReq EthersTransaction

fun txn_sender :: "TransactionRequest \<Rightarrow> TransactionSender" where
  "txn_sender (UpdateReq p) = up_sender (ur_payload p)"
| "txn_sender (EthereumReq p) = AccountOwner (et_from p)"

section \<open>Measurement limits\<close>

definition MAX_MEASUREMENTS_PER_TX :: nat where "MAX_MEASUREMENTS_PER_TX = 10000"
definition MAX_MEASUREMENTS_SUBMIT :: u8 where "MAX_MEASUREMENTS_SUBMIT = 2"
definition MAX_UPDATES_CONTENT_REGISTRY :: nat where "MAX_UPDATES_CONTENT_REGISTRY = 100"

definition measurements_verify :: "ReputationMeasurements \<Rightarrow> bool" where
  "measurements_verify m =
    ((case rm_latency m of Some latency \<Rightarrow> latency < 20 * 10 ^ 9 | None \<Rightarrow> True) \<and>
     (case rm_inbound_bandwidth m of Some b \<Rightarrow> b \<le> 6250000000 | None \<Rightarrow> True) \<and>
     (case rm_outbound_bandwidth m of Some b \<Rightarrow> b \<le> 6250000000 | None \<Rightarrow> True) \<and>
     (case rm_uptime m of Some u \<Rightarrow> u \<le> sfrom 100 | None \<Rightarrow> True))"

end
