(* ===== verification/State.thy ===== *)
theory State
  imports Types
begin

text \<open>
  The state of the executor and its read-only helpers,
  \<^verbatim>\<open>core/application/src/state/executor.rs\<close>. \<^verbatim>\<open>StateExecutor\<close> is a bundle of table references; the
  record \<open>app_state\<close> has one field per table. The tables mutate through shared references in the
  source; here every operation takes the state and returns the new one. Reverting does not roll
  back: a handler that writes and then reverts returns the written state, as the source does.
\<close>

record app_state =
  st_metadata :: "(Metadata, Value) table"
  st_account_info :: "(EthAddress, AccountInfo) table"
  st_client_keys :: "(ClientPublicKey, EthAddress \<times> Nonce) table"
  st_node_info :: "(NodeIndex, NodeInfo) table"
  st_consensus_key_to_index :: "(ConsensusPublicKey, NodeIndex) table"
  st_pub_key_to_index :: "(NodePublicKey, NodeIndex) table"
  st_latencies :: "(NodeIndex \<times> NodeIndex, Duration) table"
  st_committee_info :: "(Epoch, Committee) table"
  st_services :: "(ServiceId, Service) table"
  st_parameters :: "(ProtocolParamKey, ProtocolParamValue) table"
  st_rep_measurements :: "(NodeIndex, ReportedReputationMeasurements list) table"
  st_rep_scores :: "(NodeIndex, u8) table"
  st_submitted_rep_measurements :: "(NodeIndex, u8) table"
  st_current_epoch_served :: "(NodeIndex, NodeServed) table"
  st_last_epoch_served :: "(NodeIndex, NodeServed) table"
  st_total_served :: "(Epoch, TotalServed) table"
  st_service_revenue :: "(ServiceId, 6 HpUfixed) table"
  st_commodity_prices :: "(CommodityTypes, 6 HpUfixed) table"
  st_executed_digests :: "(TxHash, unit) table"
  st_uptime :: "(NodeIndex, u8) table"
  st_uri_to_node :: "(Blake3Hash, NodeIndex set) table"
  st_node_to_uri :: "(NodeIndex, Blake3Hash set) table"
  st_committee_selection_beacon :: "(NodeIndex, BeaconCommit \<times> BeaconReveal option) table"
  st_non_revealing_node :: "(NodeIndex, unit) table"
  st_withdraws :: "(u64, WithdrawInfo) table"
  st_mints :: "(u256, MintInfo) table"
  st_assigned_jobs :: "(NodeIndex, u256 list) table"
  st_jobs :: "(u256, Job) table"

text \<open>The state of a new database: every table is empty.\<close>

definition empty_state :: app_state where
  "empty_state = \<lparr>st_metadata = [], st_account_info = [], st_client_keys = [], st_node_info = [],
     st_consensus_key_to_index = [], st_pub_key_to_index = [], st_latencies = [],
     st_committee_info = [], st_services = [], st_parameters = [], st_rep_measurements = [],
     st_rep_scores = [], st_submitted_rep_measurements = [], st_current_epoch_served = [],
     st_last_epoch_served = [], st_total_served = [], st_service_revenue = [],
     st_commodity_prices = [], st_executed_digests = [], st_uptime = [], st_uri_to_node = [],
     st_node_to_uri = [], st_committee_selection_beacon = [], st_non_revealing_node = [],
     st_withdraws = [], st_mints = [], st_assigned_jobs = [], st_jobs = []\<rparr>"

section \<open>Writing one entry of a table\<close>

definition set_metadata :: "Metadata \<Rightarrow> Value \<Rightarrow> app_state \<Rightarrow> app_state" where
  "set_metadata k v s = s\<lparr>st_metadata := tbl_set (st_metadata s) k v\<rparr>"

definition set_account_info :: "EthAddress \<Rightarrow> AccountInfo \<Rightarrow> app_state \<Rightarrow> app_state" where
  "set_account_info k v s = s\<lparr>st_account_info := tbl_set (st_account_info s) k v\<rparr>"

definition set_node_info :: "NodeIndex \<Rightarrow> NodeInfo \<Rightarrow> app_state \<Rightarrow> app_state" where
  "set_node_info k v s = s\<lparr>st_node_info := tbl_set (st_node_info s) k v\<rparr>"

definition set_committee_info :: "Epoch \<Rightarrow> Committee \<Rightarrow> app_state \<Rightarrow> app_state" where
  "set_committee_info k v s = s\<lparr>st_committee_info := tbl_set (st_committee_info s) k v\<rparr>"

lemmas set_defs = set_metadata_def set_account_info_def set_node_info_def set_committee_info_def

abbreviation account :: "app_state \<Rightarrow> EthAddress \<Rightarrow> AccountInfo" where
  "account s a \<equiv> unwrap_or (tbl_get (st_account_info s) a) AccountInfo_default"

abbreviation node :: "app_state \<Rightarrow> NodeIndex \<Rightarrow> NodeInfo option" where
  "node s i \<equiv> tbl_get (st_node_info s) i"

abbreviation committee :: "app_state \<Rightarrow> Epoch \<Rightarrow> Committee" where
  "committee s e \<equiv> unwrap_or (tbl_get (st_committee_info s) e) Committee_default"

section \<open>Reading the metadata\<close>

definition get_epoch :: "app_state \<Rightarrow> Epoch" where
  "get_epoch s =
     (case tbl_get (st_metadata s) Metadata.Epoch of Some (Value.Epoch e) \<Rightarrow> e | _ \<Rightarrow> 0)"

definition get_block_number :: "app_state \<Rightarrow> u64 option" where
  "get_block_number s =
     (case tbl_get (st_metadata s) Metadata.BlockNumber of
        None \<Rightarrow> None
      | Some (Value.BlockNumber n) \<Rightarrow> Some n
      | Some _ \<Rightarrow> Some 0)"

definition get_block_hash :: "app_state \<Rightarrow> u256" where
  "get_block_hash s =
     (case tbl_get (st_metadata s) Metadata.LastBlockHash of Some (VHash h) \<Rightarrow> h | _ \<Rightarrow> 0)"

definition get_sub_dag_index :: "app_state \<Rightarrow> u64" where
  "get_sub_dag_index s =
     (case tbl_get (st_metadata s) Metadata.SubDagIndex of Some (Value.SubDagIndex v) \<Rightarrow> v | _ \<Rightarrow> 0)"

definition get_sub_dag_round :: "app_state \<Rightarrow> u64" where
  "get_sub_dag_round s =
     (case tbl_get (st_metadata s) Metadata.SubDagRound of Some (Value.SubDagRound v) \<Rightarrow> v | _ \<Rightarrow> 0)"

definition get_epoch_era :: "app_state \<Rightarrow> u64" where
  "get_epoch_era s =
     (case tbl_get (st_metadata s) Metadata.EpochEra of Some (Value.EpochEra v) \<Rightarrow> v | _ \<Rightarrow> 0)"

definition set_epoch_era :: "u64 \<Rightarrow> app_state \<Rightarrow> app_state" where
  "set_epoch_era era = set_metadata Metadata.EpochEra (Value.EpochEra era)"

definition get_committee :: "app_state \<Rightarrow> Epoch \<Rightarrow> Committee" where
  "get_committee s epoch = committee s epoch"

definition get_current_committee :: "app_state \<Rightarrow> Committee option" where
  "get_current_committee s = tbl_get (st_committee_info s) (get_epoch s)"

definition get_node_index :: "app_state \<Rightarrow> NodePublicKey \<Rightarrow> NodeIndex option" where
  "get_node_index s pk = tbl_get (st_pub_key_to_index s) pk"

definition get_node_public_key :: "app_state \<Rightarrow> NodeIndex \<Rightarrow> NodePublicKey option" where
  "get_node_public_key s i = map_option ni_public_key (node s i)"

text \<open>The governance address; a missing address is \<^verbatim>\<open>unreachable!\<close> in the source.\<close>

definition get_governance_address :: "app_state \<Rightarrow> EthAddress option" where
  "get_governance_address s =
     (case tbl_get (st_metadata s) Metadata.GovernanceAddress of
        Some (AccountPublicKey a) \<Rightarrow> Some a | _ \<Rightarrow> None)"

definition set_last_epoch_hash :: "u256 \<Rightarrow> app_state \<Rightarrow> app_state" where
  "set_last_epoch_hash h = set_metadata Metadata.LastEpochHash (VHash h)"

definition set_last_block :: "u256 \<Rightarrow> u64 \<Rightarrow> u64 \<Rightarrow> app_state \<Rightarrow> app_state option" where
  "set_last_block block_hash sub_dag_index sub_dag_round s =
     (let s1 = set_metadata Metadata.LastBlockHash (VHash block_hash) s;
          s2 = set_metadata Metadata.SubDagIndex (Value.SubDagIndex sub_dag_index) s1;
          s3 = set_metadata Metadata.SubDagRound (Value.SubDagRound sub_dag_round) s2
      in do {
        n \<leftarrow> get_block_number s3;
        Some (set_metadata Metadata.BlockNumber (Value.BlockNumber (n + 1)) s3)
      })"

definition increment_block_number :: "app_state \<Rightarrow> (u64 \<times> app_state) option" where
  "increment_block_number s = do {
     n \<leftarrow> get_block_number s;
     Some (n + 1, set_metadata Metadata.BlockNumber (Value.BlockNumber (n + 1)) s)
   }"

section \<open>Senders and stake\<close>

definition only_account_owner :: "TransactionSender \<Rightarrow> TransactionResponse + EthAddress" where
  "only_account_owner sender =
     (case sender of AccountOwner a \<Rightarrow> Inr a | _ \<Rightarrow> Inl (Revert OnlyAccountOwner))"

definition only_node :: "app_state \<Rightarrow> TransactionSender \<Rightarrow> TransactionResponse + NodeIndex" where
  "only_node s sender =
     (case sender of
        NodeMain pk \<Rightarrow> (case tbl_get (st_pub_key_to_index s) pk of
            Some i \<Rightarrow> Inr i | None \<Rightarrow> Inl (Revert NodeDoesNotExist))
      | NodeConsensus pk \<Rightarrow> (case tbl_get (st_consensus_key_to_index s) pk of
            Some i \<Rightarrow> Inr i | None \<Rightarrow> Inl (Revert NodeDoesNotExist))
      | AccountOwner _ \<Rightarrow> Inl (Revert OnlyNode))"

definition get_min_stake :: "app_state \<Rightarrow> 18 HpUfixed option" where
  "get_min_stake s =
     (case tbl_get (st_parameters s) ProtocolParamKey.MinimumNodeStake of
        Some (ProtocolParamValue.MinimumNodeStake v) \<Rightarrow> Some (hp_from (unat v))
      | _ \<Rightarrow> None)"

definition has_sufficient_stake :: "app_state \<Rightarrow> NodeIndex \<Rightarrow> bool option" where
  "has_sufficient_stake s i =
     (case node s i of
        None \<Rightarrow> Some False
      | Some info \<Rightarrow> do {
          m \<leftarrow> get_min_stake s;
          Some (stk_staked (ni_stake info) + stk_locked (ni_stake info) \<ge> m)
        })"

definition has_sufficient_unlocked_stake :: "app_state \<Rightarrow> NodeIndex \<Rightarrow> bool option" where
  "has_sufficient_unlocked_stake s i =
     (case node s i of
        None \<Rightarrow> Some False
      | Some info \<Rightarrow> do {
          m \<leftarrow> get_min_stake s;
          Some (stk_staked (ni_stake info) \<ge> m)
        })"

definition is_participating :: "app_state \<Rightarrow> NodeIndex \<Rightarrow> bool" where
  "is_participating s i =
     (case node s i of
        None \<Rightarrow> False
      | Some info \<Rightarrow> ni_participation info = OptedOut \<or> ni_participation info = PTrue)"

definition only_node_with_sufficient_stake ::
    "app_state \<Rightarrow> TransactionSender \<Rightarrow> (TransactionResponse + NodeIndex) option" where
  "only_node_with_sufficient_stake s sender =
     (case only_node s sender of
        Inl e \<Rightarrow> Some (Inl e)
      | Inr i \<Rightarrow> do {
          ok \<leftarrow> has_sufficient_stake s i;
          Some (if ok then Inr i else Inl (Revert InsufficientStake))
        })"

text \<open>
  The source's guard for an \<^emph>\<open>unlocked\<close> stake; its body calls \<^verbatim>\<open>has_sufficient_stake\<close>, which counts
  the locked stake too.
\<close>

definition only_node_with_sufficient_unlocked_stake ::
    "app_state \<Rightarrow> TransactionSender \<Rightarrow> (TransactionResponse + NodeIndex) option" where
  "only_node_with_sufficient_unlocked_stake s sender =
     (case only_node s sender of
        Inl e \<Rightarrow> Some (Inl e)
      | Inr i \<Rightarrow> do {
          ok \<leftarrow> has_sufficient_stake s i;
          Some (if ok then Inr i else Inl (Revert InsufficientStake))
        })"

definition only_node_with_sufficient_stake_and_participating ::
    "app_state \<Rightarrow> TransactionSender \<Rightarrow> (TransactionResponse + NodeIndex) option" where
  "only_node_with_sufficient_stake_and_participating s sender = do {
     r \<leftarrow> only_node_with_sufficient_stake s sender;
     Some (case r of
        Inl e \<Rightarrow> Inl e
      | Inr i \<Rightarrow> if is_participating s i then Inr i else Inl (Revert NodeNotParticipating))
   }"

definition get_node_info :: "app_state \<Rightarrow> TransactionSender \<Rightarrow> (NodeIndex \<times> NodeInfo) option" where
  "get_node_info s sender =
     (case sender of
        NodeMain pk \<Rightarrow> (case tbl_get (st_pub_key_to_index s) pk of
            Some i \<Rightarrow> map_option (Pair i) (node s i) | None \<Rightarrow> None)
      | NodeConsensus pk \<Rightarrow> (case tbl_get (st_consensus_key_to_index s) pk of
            Some i \<Rightarrow> map_option (Pair i) (node s i) | None \<Rightarrow> None)
      | AccountOwner _ \<Rightarrow> None)"

text \<open>The nodes with a positive stake, by ascending index (a \<^verbatim>\<open>BTreeMap\<close>).\<close>

definition get_node_registry :: "app_state \<Rightarrow> (NodeIndex \<times> NodeInfo) list" where
  "get_node_registry s =
     filter (\<lambda>(_, info). stk_staked (ni_stake info) > 0)
       (List.map_filter (\<lambda>i. map_option (Pair i) (node s i)) (sort (tbl_keys (st_node_info s))))"

lemmas guard_defs = only_account_owner_def only_node_def only_node_with_sufficient_stake_def
  only_node_with_sufficient_unlocked_stake_def only_node_with_sufficient_stake_and_participating_def

text \<open>The guards: a rejection is always a revert, and what an acceptance establishes.\<close>

lemma only_node_revert: "only_node s sender = Inl e \<Longrightarrow> \<not> is_success e"
  by (auto simp: only_node_def split: TransactionSender.splits option.splits)

lemma only_account_owner_Inr [simp]: "only_account_owner sender = Inr a \<longleftrightarrow> sender = AccountOwner a"
  by (auto simp: only_account_owner_def split: TransactionSender.splits)

lemma only_account_owner_revert: "only_account_owner sender = Inl e \<Longrightarrow> e = Revert OnlyAccountOwner"
  by (auto simp: only_account_owner_def split: TransactionSender.splits)

lemma stake_guard_Inr:
  "only_node_with_sufficient_stake s sender = Some (Inr i) \<longleftrightarrow>
   only_node s sender = Inr i \<and> has_sufficient_stake s i = Some True"
  by (cases "only_node s sender")
    (auto simp: only_node_with_sufficient_stake_def bind_eq_Some_conv split: if_splits)

lemma stake_guard_revert:
  "only_node_with_sufficient_stake s sender = Some (Inl e) \<Longrightarrow> \<not> is_success e"
  by (cases "only_node s sender")
    (auto simp: only_node_with_sufficient_stake_def bind_eq_Some_conv dest: only_node_revert
      split: if_splits)

lemma participating_guard_Inr:
  "only_node_with_sufficient_stake_and_participating s sender = Some (Inr i) \<longleftrightarrow>
   only_node s sender = Inr i \<and> has_sufficient_stake s i = Some True \<and> is_participating s i"
proof (cases "only_node_with_sufficient_stake s sender")
  case None
  then show ?thesis
    using stake_guard_Inr[of s sender i]
    by (auto simp: only_node_with_sufficient_stake_and_participating_def)
next
  case (Some g)
  then show ?thesis
    using stake_guard_Inr[of s sender i]
    by (cases g) (auto simp: only_node_with_sufficient_stake_and_participating_def)
qed

lemma participating_guard_revert:
  assumes "only_node_with_sufficient_stake_and_participating s sender = Some (Inl e)"
  shows "\<not> is_success e"
proof -
  obtain g where g: "only_node_with_sufficient_stake s sender = Some g"
    using assms
    by (auto simp: only_node_with_sufficient_stake_and_participating_def bind_eq_Some_conv)
  with assms show ?thesis
    by (cases g) (auto simp: only_node_with_sufficient_stake_and_participating_def
        dest: stake_guard_revert split: if_splits)
qed

section \<open>The node registry\<close>

definition create_node :: "NodeInfo \<Rightarrow> app_state \<Rightarrow> bool \<times> app_state" where
  "create_node info s =
     (if tbl_get (st_pub_key_to_index s) (ni_public_key info) \<noteq> None
        \<or> tbl_get (st_consensus_key_to_index s) (ni_consensus_key info) \<noteq> None
      then (False, s)
      else let node_index = (case tbl_get (st_metadata s) Metadata.NextNodeIndex of
                 Some (Value.NextNodeIndex i) \<Rightarrow> i | _ \<Rightarrow> 0);
               s1 = s\<lparr>st_pub_key_to_index :=
                        tbl_set (st_pub_key_to_index s) (ni_public_key info) node_index\<rparr>;
               s2 = s1\<lparr>st_consensus_key_to_index :=
                        tbl_set (st_consensus_key_to_index s1) (ni_consensus_key info) node_index\<rparr>;
               s3 = set_node_info node_index info s2
           in (True, set_metadata Metadata.NextNodeIndex (Value.NextNodeIndex (node_index + 1)) s3))"

definition remove_node :: "NodePublicKey \<Rightarrow> app_state \<Rightarrow> bool \<times> app_state" where
  "remove_node pk s =
     (case tbl_get (st_pub_key_to_index s) pk of
        None \<Rightarrow> (False, s)
      | Some i \<Rightarrow>
          let s1 = (case node s i of
                      Some info \<Rightarrow> s\<lparr>st_consensus_key_to_index :=
                        tbl_remove (st_consensus_key_to_index s) (ni_consensus_key info)\<rparr>
                    | None \<Rightarrow> s);
              s2 = s1\<lparr>st_node_info := tbl_remove (st_node_info s1) i\<rparr>
          in (True, s2\<lparr>st_pub_key_to_index := tbl_remove (st_pub_key_to_index s2) pk\<rparr>))"

definition record_node_registry_change ::
    "NodePublicKey \<Rightarrow> NodeRegistryChange \<Rightarrow> app_state \<Rightarrow> app_state option" where
  "record_node_registry_change pk change s = do {
     n \<leftarrow> get_block_number s;
     c \<leftarrow> tbl_get (st_committee_info s) (get_epoch s);
     let changes = unwrap_or (tbl_get (com_node_registry_changes c) (n + 1)) [];
     Some (set_committee_info (get_epoch s)
       (c\<lparr>com_node_registry_changes :=
            tbl_set (com_node_registry_changes c) (n + 1) (changes @ [(pk, change)])\<rparr>) s)
   }"

definition increment_nonce :: "TransactionSender \<Rightarrow> app_state \<Rightarrow> app_state option" where
  "increment_nonce sender s =
     (case sender of
        NodeMain pk \<Rightarrow> do {
          i \<leftarrow> tbl_get (st_pub_key_to_index s) pk;
          info \<leftarrow> node s i;
          Some (set_node_info i (info\<lparr>ni_nonce := ni_nonce info + 1\<rparr>) s)
        }
      | NodeConsensus pk \<Rightarrow> do {
          i \<leftarrow> tbl_get (st_consensus_key_to_index s) pk;
          info \<leftarrow> node s i;
          Some (set_node_info i (info\<lparr>ni_nonce := ni_nonce info + 1\<rparr>) s)
        }
      | AccountOwner a \<Rightarrow>
          let info = account s a
          in Some (set_account_info a (info\<lparr>acc_nonce := acc_nonce info + 1\<rparr>) s))"

end
