(* ===== verification/Genesis.thy ===== *)
theory Genesis
  imports State
begin

text \<open>
  The genesis block: \<^verbatim>\<open>core/types/src/genesis.rs\<close> and \<^verbatim>\<open>apply_genesis_block\<close> of
  \<^verbatim>\<open>core/application/src/env.rs\<close>. A \<^verbatim>\<open>HashMap\<close> of the genesis is a table, a price (an \<^verbatim>\<open>f64\<close>) its
  decimal rendering. Of the checks of \<^verbatim>\<open>load_from_file\<close> the model has the one on phase durations;
  parsing the file is not modelled.
\<close>

section \<open>Genesis data\<close>

record GenesisNode =
  gn_owner :: EthAddress
  gn_primary_public_key :: NodePublicKey
  gn_consensus_public_key :: ConsensusPublicKey
  gn_primary_domain :: IpAddr
  gn_worker_domain :: IpAddr
  gn_worker_public_key :: NodePublicKey
  gn_ports :: NodePorts
  gn_stake :: Staking
  gn_reputation :: "u8 option"
  gn_current_epoch_served :: "NodeServed option"
  gn_genesis_committee :: bool

record GenesisService =
  gs_id :: ServiceId
  gs_owner :: EthAddress
  gs_commodity_type :: CommodityTypes

record GenesisAccount =
  ga_public_key :: EthAddress
  ga_flk_balance :: "18 HpUfixed"
  ga_stables_balance :: u64
  ga_bandwidth_balance :: u64

record GenesisLatency =
  gl_node_public_key_lhs :: NodePublicKey
  gl_node_public_key_rhs :: NodePublicKey
  gl_latency_in_millis :: u64

record Genesis =
  ge_chain_id :: ChainId
  ge_epoch_start :: u64
  ge_epoch_time :: u64
  ge_epochs_per_year :: u64
  ge_committee_size :: u64
  ge_node_count :: u64
  ge_min_stake :: u64
  ge_eligibility_time :: u64
  ge_lock_time :: Epoch
  ge_max_inflation :: u16
  ge_protocol_share :: u16
  ge_node_share :: u16
  ge_service_builder_share :: u16
  ge_max_boost :: u16
  ge_max_lock_time :: u64
  ge_min_num_measurements :: u64
  ge_node_info :: "GenesisNode list"
  ge_service :: "GenesisService list"
  ge_account :: "GenesisAccount list"
  ge_client :: "(ClientPublicKey, EthAddress) table"
  ge_commodity_prices :: "(CommodityTypes \<times> string) list"
  ge_supply_at_genesis :: u64
  ge_protocol_fund_address :: EthAddress
  ge_governance_address :: EthAddress
  ge_total_served :: "(Epoch, TotalServed) table"
  ge_latencies :: "GenesisLatency list option"
  ge_reputation_ping_timeout :: Duration
  ge_topology_target_k :: u64
  ge_topology_min_nodes :: u64
  ge_commit_phase_duration :: u64
  ge_reveal_phase_duration :: u64
  ge_non_reveal_slash_amount :: u64
  ge_total_intervals :: u64

text \<open>The check of \<^verbatim>\<open>load_from_file\<close>: the phases take at most two thirds of an epoch.\<close>

definition phases_fit :: "Genesis \<Rightarrow> bool" where
  "phases_fit g \<longleftrightarrow>
     \<not> ge_commit_phase_duration g + ge_reveal_phase_duration g > 2 * ge_epoch_time g div 3"

definition genesis_node_info :: "GenesisNode \<Rightarrow> NodeInfo" where
  "genesis_node_info n = \<lparr>ni_owner = gn_owner n, ni_public_key = gn_primary_public_key n,
     ni_consensus_key = gn_consensus_public_key n, ni_staked_since = 0, ni_stake = gn_stake n,
     ni_domain = gn_primary_domain n, ni_worker_domain = gn_worker_domain n, ni_ports = gn_ports n,
     ni_worker_public_key = gn_worker_public_key n, ni_participation = PTrue, ni_nonce = 0\<rparr>"

section \<open>The steps of the genesis block\<close>

definition set_param :: "ProtocolParamKey \<times> ProtocolParamValue \<Rightarrow> app_state \<Rightarrow> app_state" where
  "set_param kv s = s\<lparr>st_parameters := tbl_set (st_parameters s) (fst kv) (snd kv)\<rparr>"

definition genesis_total_intervals :: "Genesis \<Rightarrow> u64" where
  "genesis_total_intervals g = (if ge_total_intervals g = 0 then 1 else ge_total_intervals g)"

definition genesis_metadata :: "Genesis \<Rightarrow> (Metadata \<times> Value) list" where
  "genesis_metadata g =
     [(Metadata.LastEpochHash, VHash 0),
      (Metadata.ChainId, Value.ChainId (ge_chain_id g)),
      (Metadata.BlockNumber, Value.BlockNumber 0),
      (Metadata.WithdrawId, Value.WithdrawId 0),
      (Metadata.ProtocolFundAddress, AccountPublicKey (ge_protocol_fund_address g)),
      (Metadata.TimeInterval, Value.TimeInterval (ge_epoch_time g div genesis_total_intervals g)),
      (Metadata.GovernanceAddress, AccountPublicKey (ge_governance_address g)),
      (Metadata.TotalSupply, VHpUfixed (hp_from (unat (ge_supply_at_genesis g)))),
      (Metadata.SupplyYearStart, VHpUfixed (hp_from (unat (ge_supply_at_genesis g))))]"

definition genesis_params :: "Genesis \<Rightarrow> (ProtocolParamKey \<times> ProtocolParamValue) list" where
  "genesis_params g =
     [(ProtocolParamKey.MaxBoost, ProtocolParamValue.MaxBoost (ge_max_boost g)),
      (ProtocolParamKey.MaxStakeLockTime, ProtocolParamValue.MaxStakeLockTime (ge_max_lock_time g)),
      (ProtocolParamKey.EpochTime, ProtocolParamValue.EpochTime (ge_epoch_time g)),
      (ProtocolParamKey.EpochsPerYear, ProtocolParamValue.EpochsPerYear (ge_epochs_per_year g)),
      (ProtocolParamKey.MinimumNodeStake, ProtocolParamValue.MinimumNodeStake (ge_min_stake g)),
      (ProtocolParamKey.LockTime, ProtocolParamValue.LockTime (ge_lock_time g)),
      (ProtocolParamKey.MaxInflation, ProtocolParamValue.MaxInflation (ge_max_inflation g)),
      (ProtocolParamKey.NodeShare, ProtocolParamValue.NodeShare (ge_node_share g)),
      (ProtocolParamKey.ProtocolShare, ProtocolParamValue.ProtocolShare (ge_protocol_share g)),
      (ProtocolParamKey.ServiceBuilderShare,
        ProtocolParamValue.ServiceBuilderShare (ge_service_builder_share g)),
      (ProtocolParamKey.EligibilityTime, ProtocolParamValue.EligibilityTime (ge_eligibility_time g)),
      (ProtocolParamKey.CommitteeSize, ProtocolParamValue.CommitteeSize (ge_committee_size g)),
      (ProtocolParamKey.NodeCount, ProtocolParamValue.NodeCount (ge_node_count g)),
      (ProtocolParamKey.MinNumMeasurements,
        ProtocolParamValue.MinNumMeasurements (ge_min_num_measurements g)),
      (ProtocolParamKey.ReputationPingTimeout,
        ProtocolParamValue.ReputationPingTimeout (ge_reputation_ping_timeout g)),
      (ProtocolParamKey.TopologyTargetK, ProtocolParamValue.TopologyTargetK (ge_topology_target_k g)),
      (ProtocolParamKey.TopologyMinNodes, ProtocolParamValue.TopologyMinNodes (ge_topology_min_nodes g)),
      (ProtocolParamKey.CommitteeSelectionBeaconCommitPhaseDuration,
        ProtocolParamValue.CommitteeSelectionBeaconCommitPhaseDuration (ge_commit_phase_duration g)),
      (ProtocolParamKey.CommitteeSelectionBeaconRevealPhaseDuration,
        ProtocolParamValue.CommitteeSelectionBeaconRevealPhaseDuration (ge_reveal_phase_duration g)),
      (ProtocolParamKey.CommitteeSelectionBeaconNonRevealSlashAmount,
        ProtocolParamValue.CommitteeSelectionBeaconNonRevealSlashAmount (ge_non_reveal_slash_amount g)),
      (ProtocolParamKey.TotalTimeIntervals,
        ProtocolParamValue.TotalTimeIntervals (genesis_total_intervals g))]"

text \<open>The vectors the node loop fills: committee members, active nodes, and registry changes.\<close>

record genesis_nodes =
  gv_members :: "NodeIndex list"
  gv_active :: "NodeIndex list"
  gv_changes :: BlockNodeRegistryChanges

definition genesis_next_index :: "app_state \<Rightarrow> NodeIndex" where
  "genesis_next_index s =
     (case tbl_get (st_metadata s) Metadata.NextNodeIndex of Some (Value.NextNodeIndex i) \<Rightarrow> i | _ \<Rightarrow> 0)"

definition genesis_add_node ::
    "u64 \<Rightarrow> GenesisNode \<Rightarrow> genesis_nodes \<times> app_state \<Rightarrow> (genesis_nodes \<times> app_state) option" where
  "genesis_add_node min_stake n vs =
     (let (v, s) = vs;
          info0 = genesis_node_info n;
          info = info0\<lparr>ni_stake := (ni_stake info0)\<lparr>stk_staked :=
             hp_max (stk_staked (ni_stake info0)) (hp_from (unat min_stake))\<rparr>\<rparr>;
          i = genesis_next_index s;
          s1 = s\<lparr>st_consensus_key_to_index :=
                   tbl_set (st_consensus_key_to_index s) (ni_consensus_key info) i,
                 st_pub_key_to_index := tbl_set (st_pub_key_to_index s) (ni_public_key info) i\<rparr>;
          s2 = set_node_info i info s1;
          s3 = set_metadata Metadata.NextNodeIndex (Value.NextNodeIndex (i + 1)) s2;
          s4 = (case gn_current_epoch_served n of
                  Some served \<Rightarrow> s3\<lparr>st_current_epoch_served :=
                    tbl_set (st_current_epoch_served s3) i served\<rparr>
                | None \<Rightarrow> s3);
          v' = v\<lparr>gv_members := gv_members v @ (if gn_genesis_committee n then [i] else []),
                 gv_active := gv_active v @ [i],
                 gv_changes := gv_changes v @ [(ni_public_key info, New)]\<rparr>
      in case gn_reputation n of
           None \<Rightarrow> Some (v', s4)
         | Some rep \<Rightarrow> if rep \<le> 100
             then Some (v', s4\<lparr>st_rep_scores := tbl_set (st_rep_scores s4) i rep\<rparr>) else None)"

definition genesis_committee :: "Genesis \<Rightarrow> genesis_nodes \<Rightarrow> Committee" where
  "genesis_committee g v =
     (let epoch_end = ge_epoch_time g + ge_epoch_start g
      in \<lparr>com_members = gv_members v, com_ready_to_change = [],
          com_signalled_commit_phase_timeout = [], com_signalled_reveal_phase_timeout = [],
          com_epoch_end_timestamp = epoch_end,
          com_epoch_transition_timestamp =
            epoch_end - ge_commit_phase_duration g - ge_reveal_phase_duration g,
          com_active_node_set = gv_active v, com_node_registry_changes = [(0, gv_changes v)]\<rparr>)"

definition genesis_add_service :: "GenesisService \<Rightarrow> app_state \<Rightarrow> app_state" where
  "genesis_add_service v s = s\<lparr>st_services := tbl_set (st_services s) (gs_id v)
     \<lparr>svc_owner = gs_owner v, svc_commodity_type = gs_commodity_type v\<rparr>\<rparr>"

definition genesis_add_account :: "GenesisAccount \<Rightarrow> app_state \<Rightarrow> app_state" where
  "genesis_add_account a s = set_account_info (ga_public_key a)
     \<lparr>acc_flk_balance = ga_flk_balance a, acc_stables_balance = hp_from (unat (ga_stables_balance a)),
      acc_bandwidth_balance = ucast (ga_bandwidth_balance a), acc_nonce = 0, acc_client_key = None\<rparr> s"

definition genesis_add_client :: "ClientPublicKey \<times> EthAddress \<Rightarrow> app_state \<Rightarrow> app_state" where
  "genesis_add_client c s = s\<lparr>st_client_keys := tbl_set (st_client_keys s) (fst c) (snd c, 0)\<rparr>"

definition genesis_add_price :: "CommodityTypes \<times> string \<Rightarrow> app_state \<Rightarrow> app_state option" where
  "genesis_add_price p s = do {
     price \<leftarrow> hp_from_f64 (snd p);
     Some (s\<lparr>st_commodity_prices := tbl_set (st_commodity_prices s) (fst p) price\<rparr>)
   }"

definition genesis_add_total_served :: "Epoch \<times> TotalServed \<Rightarrow> app_state \<Rightarrow> app_state" where
  "genesis_add_total_served t s = s\<lparr>st_total_served := tbl_set (st_total_served s) (fst t) (snd t)\<rparr>"

definition genesis_add_latency :: "GenesisLatency \<Rightarrow> app_state \<Rightarrow> app_state option" where
  "genesis_add_latency l s =
     (if gl_node_public_key_lhs l < gl_node_public_key_rhs l then do {
        lhs \<leftarrow> tbl_get (st_pub_key_to_index s) (gl_node_public_key_lhs l);
        rhs \<leftarrow> tbl_get (st_pub_key_to_index s) (gl_node_public_key_rhs l);
        Some (s\<lparr>st_latencies := tbl_set (st_latencies s) (lhs, rhs)
          (unat (gl_latency_in_millis l) * 10 ^ 6)\<rparr>)
      } else None)"

section \<open>The genesis block\<close>

definition genesis_header :: "Genesis \<Rightarrow> app_state \<Rightarrow> app_state" where
  "genesis_header g s =
     fold set_param (genesis_params g)
       (set_account_info (ge_governance_address g) AccountInfo_default
         (fold (\<lambda>(k, v). set_metadata k v) (genesis_metadata g) s))"

definition genesis_add_nodes :: "Genesis \<Rightarrow> app_state \<Rightarrow> (genesis_nodes \<times> app_state) option" where
  "genesis_add_nodes g s =
     for_each (genesis_add_node (ge_min_stake g)) (ge_node_info g)
       (\<lparr>gv_members = [], gv_active = [], gv_changes = []\<rparr>, s)"

definition genesis_tables :: "Genesis \<Rightarrow> app_state \<Rightarrow> app_state option" where
  "genesis_tables g s = do {
     let s1 = fold genesis_add_service (ge_service g) s;
     let s2 = fold genesis_add_account (ge_account g) s1;
     let s3 = fold genesis_add_client (ge_client g) s2;
     s4 \<leftarrow> for_each genesis_add_price (ge_commodity_prices g) s3;
     let s5 = fold genesis_add_total_served (ge_total_served g) s4;
     for_each genesis_add_latency (unwrap_or (ge_latencies g) []) s5
   }"

definition apply_genesis_block :: "Genesis \<Rightarrow> app_state \<Rightarrow> (bool \<times> app_state) option" where
  "apply_genesis_block g s =
     (if tbl_get (st_metadata s) Metadata.Epoch \<noteq> None then Some (False, s)
      else do {
        (v, s1) \<leftarrow> genesis_add_nodes g (genesis_header g s);
        let s2 = set_metadata Metadata.GenesisCommittee (Value.GenesisCommittee (gv_members v)) s1;
        s3 \<leftarrow> genesis_tables g (set_committee_info 0 (genesis_committee g v) s2);
        let s4 = set_metadata Metadata.Epoch (Value.Epoch 0) s3;
        Some (True, set_metadata Metadata.EpochEra (Value.EpochEra 0) s4)
      })"

end
