(* ===== verification/Externals.thy ===== *)
theory Externals
  imports Types "HOL-Library.Multiset"
begin

text \<open>
  The third-party functions the executor calls, as parameters of the model: hashing
  (\<^verbatim>\<open>fleek_blake3\<close>, \<^verbatim>\<open>sha3\<close>), the seeded shuffle of \<^verbatim>\<open>rand\<close>, the signature schemes of
  \<^verbatim>\<open>fastcrypto\<close>, and the Ethereum libraries (\<^verbatim>\<open>ethers\<close>, \<^verbatim>\<open>rlp\<close>, the generated contract ABI). A
  definition that uses one takes the record \<open>externals\<close> as its first argument; a theorem that
  relies on one states what it relies on as a hypothesis. The byte encodings of integers are here
  too.
\<close>

section \<open>Bytes\<close>

type_synonym bytes = "u8 list"

definition be_word :: "bytes \<Rightarrow> 'a::len word" where
  "be_word bs = fold (\<lambda>b w. w * 256 + ucast b) bs 0"

definition le_bytes :: "nat \<Rightarrow> 'a::len word \<Rightarrow> bytes" where
  "le_bytes n w = map (\<lambda>i. ucast (drop_bit (8 * i) w)) [0..<n]"

definition be_bytes :: "nat \<Rightarrow> 'a::len word \<Rightarrow> bytes" where
  "be_bytes n w = rev (le_bytes n w)"

definition le_word :: "bytes \<Rightarrow> 'a::len word" where
  "le_word bs = foldr (\<lambda>b w. w * 256 + ucast b) bs 0"

lemma length_le_bytes [simp]: "length (le_bytes n w) = n"
  by (simp add: le_bytes_def)

lemma length_be_bytes [simp]: "length (be_bytes n w) = n"
  by (simp add: be_bytes_def)

lemma le_bytes_Suc: "le_bytes (Suc n) w = ucast w # le_bytes n (drop_bit 8 w)"
  by (rule nth_equalityI) (auto simp: le_bytes_def nth_Cons drop_bit_drop_bit algebra_simps
      simp del: upt_Suc split: nat.splits)

lemma ucast_byte: "(ucast (ucast (w :: 'a::len word) :: u8) :: 'a word) = take_bit 8 w"
  by (rule bit_eqI) (auto simp: bit_ucast_iff bit_take_bit_iff dest: bit_imp_le_length)

lemma shift_add_byte:
  fixes w :: "'a::len word"
  shows "take_bit m (drop_bit 8 w) * 256 + take_bit 8 w = take_bit (8 + m) w"
proof -
  have shift: "take_bit m (drop_bit 8 w) * 256 = push_bit 8 (take_bit m (drop_bit 8 w))"
    by (simp add: push_bit_eq_mult)
  have "push_bit 8 (take_bit m (drop_bit 8 w)) + take_bit 8 w =
      or (push_bit 8 (take_bit m (drop_bit 8 w))) (take_bit 8 w)"
    by (rule disjunctive_add) (auto simp: bit_simps)
  also have "\<dots> = take_bit (8 + m) w"
    by (rule bit_eqI) (auto simp: bit_simps not_le dest: bit_imp_le_length)
  finally show ?thesis unfolding shift .
qed

lemma le_word_le_bytes_take: "le_word (le_bytes n w) = take_bit (8 * n) (w :: 'a::len word)"
proof (induction n arbitrary: w)
  case (Suc n)
  have "le_word (le_bytes (Suc n) w) = take_bit (8 * n) (drop_bit 8 w) * 256 + take_bit 8 w"
    using Suc[of "drop_bit 8 w"] by (simp add: le_bytes_Suc le_word_def ucast_byte)
  then show ?case by (simp add: shift_add_byte)
qed (simp add: le_bytes_def le_word_def)

lemma le_word_le_bytes: "LENGTH('a) \<le> 8 * n \<Longrightarrow> le_word (le_bytes n w) = (w :: 'a::len word)"
  by (simp add: le_word_le_bytes_take take_bit_word_eq_self)

lemma be_word_be_bytes: "LENGTH('a) \<le> 8 * n \<Longrightarrow> be_word (be_bytes n w) = (w :: 'a::len word)"
  using le_word_le_bytes[of n w] by (simp add: be_word_def be_bytes_def le_word_def foldr_conv_fold)

lemma be_bytes_inject:
  "LENGTH('a) \<le> 8 * n \<Longrightarrow> be_bytes n v = be_bytes n w \<longleftrightarrow> v = (w :: 'a::len word)"
  by (metis be_word_be_bytes)

section \<open>Parameters of the model\<close>

text \<open>
  The calls of the generated contract ABI, \<^verbatim>\<open>core/utils/src/eth.rs\<close>, with the fields the ABI
  declares.
\<close>

datatype FleekContractCalls =
    WithdrawCall u256 string EthAddress
  | StakeCall u256 NodePublicKey bytes string NodePublicKey string
  | DepositCall string u256
  | UnstakeCall u256 NodePublicKey
  | WithdrawUnstakedCall NodePublicKey EthAddress
  | ApproveClientKeyCall bytes
  | RevokeClientKeyCall

record externals =
  ext_derive_key :: "string \<Rightarrow> bytes \<Rightarrow> u256"
  ext_sha3_256 :: "bytes \<Rightarrow> u256"
  ext_shuffle :: "u256 \<Rightarrow> NodeIndex list \<Rightarrow> NodeIndex list"
  ext_verify_consensus :: "ConsensusPublicKey \<Rightarrow> 384 word \<Rightarrow> bytes \<Rightarrow> bool"
  ext_verify_node :: "NodePublicKey \<Rightarrow> 512 word \<Rightarrow> bytes \<Rightarrow> bool"
  ext_verify_account :: "EthAddress \<Rightarrow> 520 word \<Rightarrow> bytes \<Rightarrow> bool"
  ext_eth_hash :: "EthersTransaction \<Rightarrow> TxHash"
  ext_recover_from :: "EthersTransaction \<Rightarrow> EthAddress option"
  ext_typed_rlp :: "EthersTransaction \<Rightarrow> bytes"
  ext_decode_call :: "bytes \<Rightarrow> FleekContractCalls option"
  ext_parse_ip :: "string \<Rightarrow> IpAddr option"
  ext_show_ip :: "IpAddr \<Rightarrow> string"
  ext_encode_hex :: "u256 \<Rightarrow> string"

text \<open>
  What the model relies on: \<^verbatim>\<open>SliceRandom::shuffle\<close> permutes its slice.
\<close>

definition shuffle_permutes :: "externals \<Rightarrow> bool" where
  "shuffle_permutes ext \<longleftrightarrow> (\<forall>seed xs. mset (ext_shuffle ext seed xs) = mset xs)"

end
