(* ===== verification/Ledger.thy ===== *)
theory Ledger
  imports State Externals
begin

text \<open>
  The account operations of the executor (\<^verbatim>\<open>executor.rs\<close>): proofs of delivery, the bridge
  (\<^verbatim>\<open>withdraw\<close>, \<^verbatim>\<open>clear_withdraws\<close>, \<^verbatim>\<open>mint\<close>, \<^verbatim>\<open>clear_mints\<close>, \<^verbatim>\<open>deposit\<close>), transfers, client keys and the
  protocol parameters. Each returns the response and the new state; a result of type
  \<open>option\<close> is \<^const>\<open>None\<close> where the source panics.
\<close>

section \<open>Proofs of delivery\<close>

text \<open>Both proof checks of the source are placeholders that accept everything.\<close>

definition verify_proof_of_delivery :: "EthAddress \<Rightarrow> NodeIndex \<Rightarrow> u128 \<Rightarrow> u32 \<Rightarrow> bool" where
  "verify_proof_of_delivery client provider commodity service_id = True"

definition verify_proof_of_consensus :: bool where
  "verify_proof_of_consensus = True"

text \<open>\<open>for i in 0..=commodity_index\<close>: pad the vector with zeros up to the index.\<close>

definition pad_served :: "nat \<Rightarrow> u128 list \<Rightarrow> u128 list" where
  "pad_served n served = fold (\<lambda>i v. if i \<ge> length v then v @ [0] else v) [0..<Suc n] served"

definition submit_pod ::
    "TransactionSender \<Rightarrow> u128 \<Rightarrow> u32 \<Rightarrow> app_state \<Rightarrow> (TransactionResponse \<times> app_state) option" where
  "submit_pod sender commodity service_id s = do {
     r \<leftarrow> only_node_with_sufficient_stake_and_participating s sender;
     (case r of
        Inl e \<Rightarrow> Some (e, s)
      | Inr i \<Rightarrow>
     (case node s i of
        None \<Rightarrow> Some (Revert NodeDoesNotExist, s)
      | Some info \<Rightarrow>
     (case tbl_get (st_services s) service_id of
        None \<Rightarrow> Some (Revert InvalidServiceId, s)
      | Some service \<Rightarrow>
     if \<not> verify_proof_of_delivery (ni_owner info) i commodity service_id
     then Some (Revert InvalidProof, s)
     else do {
       let current_epoch = get_epoch s;
       let node_served = unwrap_or (tbl_get (st_current_epoch_served s) i)
             \<lparr>ns_served = [], ns_stables_revenue = 0\<rparr>;
       let total_served = unwrap_or (tbl_get (st_total_served s) current_epoch)
             \<lparr>ts_served = [], ts_reward_pool = 0\<rparr>;
       price \<leftarrow> tbl_get (st_commodity_prices s) (svc_commodity_type service);
       let c = commodity_index (svc_commodity_type service);
       let ns = pad_served c (ns_served node_served);
       let ts = pad_served c (ts_served total_served);
       let revenue = hp_mul (hp_from (unat commodity)) price;
       let node_served' = \<lparr>ns_served = ns[c := ns ! c + commodity],
             ns_stables_revenue = ns_stables_revenue node_served + revenue\<rparr>;
       let total_served' = \<lparr>ts_served = ts[c := ts ! c + commodity],
             ts_reward_pool = ts_reward_pool total_served + revenue\<rparr>;
       let service_revenue = unwrap_or (tbl_get (st_service_revenue s) service_id) 0 + revenue;
       Some (Success EDNone,
         s\<lparr>st_current_epoch_served := tbl_set (st_current_epoch_served s) i node_served',
           st_total_served := tbl_set (st_total_served s) current_epoch total_served',
           st_service_revenue := tbl_set (st_service_revenue s) service_id service_revenue\<rparr>)
     })))
   }"

section \<open>The bridge\<close>

definition withdraw_id_of :: "app_state \<Rightarrow> u64" where
  "withdraw_id_of s =
     (case tbl_get (st_metadata s) Metadata.WithdrawId of Some (Value.WithdrawId i) \<Rightarrow> i | _ \<Rightarrow> 0)"

definition withdraw ::
    "TransactionSender \<Rightarrow> EthAddress \<Rightarrow> 18 HpUfixed \<Rightarrow> Tokens \<Rightarrow> app_state \<Rightarrow>
     TransactionResponse \<times> app_state" where
  "withdraw sender receiver amount token s =
     (case only_account_owner sender of
        Inl e \<Rightarrow> (e, s)
      | Inr a \<Rightarrow>
     (case tbl_get (st_account_info s) a of
        None \<Rightarrow> (Revert AccountDoesNotExist, s)
      | Some acc \<Rightarrow>
     let wid = withdraw_id_of s
     in case token of
          FLK \<Rightarrow>
            if amount > acc_flk_balance acc then (Revert InsufficientBalance, s)
            else let s1 = s\<lparr>st_withdraws := tbl_set (st_withdraws s) wid
                       \<lparr>wi_epoch = 0, wi_token = FLK, wi_receiver = receiver, wi_amount = amount\<rparr>\<rparr>;
                     s2 = set_metadata Metadata.WithdrawId (Value.WithdrawId (wid + 1)) s1
                 in (Success EDNone,
                     set_account_info a (acc\<lparr>acc_flk_balance := acc_flk_balance acc - amount\<rparr>) s2)
        | USDC \<Rightarrow>
            let amount6 = convert_precision amount
            in if amount6 > acc_stables_balance acc then (Revert InsufficientBalance, s)
            else let s1 = s\<lparr>st_withdraws := tbl_set (st_withdraws s) wid
                       \<lparr>wi_epoch = 0, wi_token = USDC, wi_receiver = receiver,
                        wi_amount = convert_precision amount6\<rparr>\<rparr>;
                     s2 = set_metadata Metadata.WithdrawId (Value.WithdrawId (wid + 1)) s1
                 in (Success EDNone,
                     set_account_info a
                       (acc\<lparr>acc_stables_balance := acc_stables_balance acc - amount6\<rparr>) s2)))"

text \<open>
  The four governance operations share their preamble: the sender is an account and it is the
  governance address.
\<close>

definition clear_withdraws ::
    "TransactionSender \<Rightarrow> u64 \<Rightarrow> app_state \<Rightarrow> (TransactionResponse \<times> app_state) option" where
  "clear_withdraws sender withdraw_id s =
     (case only_account_owner sender of
        Inl e \<Rightarrow> Some (e, s)
      | Inr a \<Rightarrow> do {
          gov \<leftarrow> get_governance_address s;
          Some (if a \<noteq> gov then (Revert OnlyGovernance, s)
            else (Success EDNone,
              s\<lparr>st_withdraws := fold (\<lambda>i t. tbl_remove t i)
                  (filter (\<lambda>i. i < withdraw_id) (tbl_keys (st_withdraws s))) (st_withdraws s)\<rparr>))
        })"

definition mint ::
    "TransactionSender \<Rightarrow> EthAddress \<Rightarrow> 18 HpUfixed \<Rightarrow> Tokens \<Rightarrow> u256 \<Rightarrow> u64 \<Rightarrow> app_state \<Rightarrow>
     (TransactionResponse \<times> app_state) option" where
  "mint sender receiver amount token eth_tx_hash block_number s =
     (case only_account_owner sender of
        Inl e \<Rightarrow> Some (e, s)
      | Inr a \<Rightarrow> do {
          gov \<leftarrow> get_governance_address s;
          Some (if a \<noteq> gov then (Revert OnlyGovernance, s)
            else let acc = account s receiver
            in if tbl_get (st_mints s) eth_tx_hash \<noteq> None then (Revert AlreadyMinted, s)
            else let s1 = s\<lparr>st_mints := tbl_set (st_mints s) eth_tx_hash
                       \<lparr>mi_amount = amount, mi_token = token, mi_receiving_address = receiver,
                        mi_eth_tx_hash = eth_tx_hash, mi_block_number = block_number\<rparr>\<rparr>;
                     acc' = (case token of
                        FLK \<Rightarrow> acc\<lparr>acc_flk_balance := acc_flk_balance acc + amount\<rparr>
                      | USDC \<Rightarrow> acc\<lparr>acc_stables_balance :=
                                     acc_stables_balance acc + convert_precision amount\<rparr>)
                 in (Success EDNone, set_account_info receiver acc' s1))
        })"

definition clear_mints ::
    "TransactionSender \<Rightarrow> u64 \<Rightarrow> app_state \<Rightarrow> (TransactionResponse \<times> app_state) option" where
  "clear_mints sender block_number s =
     (case only_account_owner sender of
        Inl e \<Rightarrow> Some (e, s)
      | Inr a \<Rightarrow> do {
          gov \<leftarrow> get_governance_address s;
          Some (if a \<noteq> gov then (Revert OnlyGovernance, s)
            else (Success EDNone,
              s\<lparr>st_mints := fold (\<lambda>k t. tbl_remove t k)
                  (map fst (filter (\<lambda>(_, v). mi_block_number v < block_number)
                     (tbl_as_map (st_mints s)))) (st_mints s)\<rparr>))
        })"

definition deposit ::
    "TransactionSender \<Rightarrow> 18 HpUfixed \<Rightarrow> Tokens \<Rightarrow> app_state \<Rightarrow>
     (TransactionResponse \<times> app_state) option" where
  "deposit sender amount token s =
     (case only_account_owner sender of
        Inl e \<Rightarrow> Some (e, s)
      | Inr a \<Rightarrow>
          if \<not> verify_proof_of_consensus then Some (Revert InvalidProof, s)
          else let acc = account s a
            in case token of
                 FLK \<Rightarrow> Some (Success EDNone,
                   set_account_info a (acc\<lparr>acc_flk_balance := acc_flk_balance acc + amount\<rparr>) s)
               | USDC \<Rightarrow> (case hp_try_into amount of
                   Inl _ \<Rightarrow> None
                 | Inr v \<Rightarrow> Some (Success EDNone, set_account_info a
                     (acc\<lparr>acc_bandwidth_balance := acc_bandwidth_balance acc + v\<rparr>) s)))"

section \<open>Transfers\<close>

text \<open>The source compares the two account \<^emph>\<open>records\<close>, not the two addresses.\<close>

definition transfer ::
    "TransactionSender \<Rightarrow> 18 HpUfixed \<Rightarrow> Tokens \<Rightarrow> EthAddress \<Rightarrow> app_state \<Rightarrow>
     TransactionResponse \<times> app_state" where
  "transfer sender amount token to s =
     (case only_account_owner sender of
        Inl e \<Rightarrow> (e, s)
      | Inr a \<Rightarrow>
     let sender_account = account s a;
         to_account = account s to
     in if sender_account = to_account then (Revert CantSendToYourself, s)
        else if acc_flk_balance sender_account < amount then (Revert InsufficientBalance, s)
        else let sender_account' =
                   sender_account\<lparr>acc_flk_balance := acc_flk_balance sender_account - amount\<rparr>;
                 to_account' = to_account\<lparr>acc_flk_balance := acc_flk_balance to_account + amount\<rparr>
             in (Success EDNone,
                 set_account_info a sender_account' (set_account_info to to_account' s)))"

section \<open>Client keys\<close>

text \<open>\<open>client_key.try_into()\<close> succeeds on exactly 96 bytes.\<close>

definition approve_client_key ::
    "EthAddress \<Rightarrow> u8 list \<Rightarrow> app_state \<Rightarrow> TransactionResponse \<times> app_state" where
  "approve_client_key sender client_key s =
     (if length client_key \<noteq> 96 then (Revert InvalidClientKeyLength, s)
      else let acc = account s sender
        in if acc_client_key acc \<noteq> None then (Revert DuplicateClientKey, s)
           else (Success EDNone,
             set_account_info sender (acc\<lparr>acc_client_key := Some (be_word client_key)\<rparr>) s))"

definition revoke_client_key :: "EthAddress \<Rightarrow> app_state \<Rightarrow> TransactionResponse \<times> app_state" where
  "revoke_client_key sender s =
     (let acc = account s sender
      in if acc_client_key acc = None then (Revert MissingClientKey, s)
         else (Success EDNone, set_account_info sender (acc\<lparr>acc_client_key := None\<rparr>) s))"

section \<open>Protocol parameters\<close>

definition change_protocol_param ::
    "TransactionSender \<Rightarrow> ProtocolParamKey \<Rightarrow> ProtocolParamValue \<Rightarrow> app_state \<Rightarrow>
     (TransactionResponse \<times> app_state) option" where
  "change_protocol_param sender param value s =
     (case only_account_owner sender of
        Inl e \<Rightarrow> Some (e, s)
      | Inr a \<Rightarrow> do {
          gov \<leftarrow> get_governance_address s;
          Some (if a \<noteq> gov then (Revert OnlyGovernance, s)
            else (Success EDNone, s\<lparr>st_parameters := tbl_set (st_parameters s) param value\<rparr>))
        })"

section \<open>Services and slashing: not implemented in the source\<close>

definition add_service :: "TransactionSender \<Rightarrow> Service \<Rightarrow> ServiceId \<Rightarrow> TransactionResponse" where
  "add_service sender service service_id = Revert Unimplemented"

definition remove_service :: "TransactionSender \<Rightarrow> ServiceId \<Rightarrow> TransactionResponse" where
  "remove_service sender service_id = Revert Unimplemented"

definition slash :: "TransactionSender \<Rightarrow> ServiceId \<Rightarrow> NodePublicKey \<Rightarrow> TransactionResponse" where
  "slash sender service_id node_key = Revert Unimplemented"

lemmas ledger_defs [exec_defs] = submit_pod_def withdraw_def clear_withdraws_def mint_def
  clear_mints_def deposit_def transfer_def approve_client_key_def revoke_client_key_def
  change_protocol_param_def

end
