(* ===== verification/Staking.thy ===== *)
theory Staking
  imports Ledger
begin

text \<open>
  Staking and participation (\<^verbatim>\<open>executor.rs\<close>): \<^verbatim>\<open>stake\<close>, \<^verbatim>\<open>stake_lock\<close>, \<^verbatim>\<open>unstake\<close>,
  \<^verbatim>\<open>withdraw_unstaked\<close>, \<^verbatim>\<open>opt_in\<close>, \<^verbatim>\<open>opt_out\<close>. Epoch arithmetic is on 64-bit words and wraps.
\<close>

definition stake ::
    "TransactionSender \<Rightarrow> 18 HpUfixed \<Rightarrow> NodePublicKey \<Rightarrow> ConsensusPublicKey option \<Rightarrow>
     IpAddr option \<Rightarrow> NodePublicKey option \<Rightarrow> IpAddr option \<Rightarrow> NodePorts option \<Rightarrow> app_state \<Rightarrow>
     (TransactionResponse \<times> app_state) option" where
  "stake sender amount node_public_key node_consensus_key node_domain worker_public_key
     worker_domain ports s =
     (case only_account_owner sender of
        Inl e \<Rightarrow> Some (e, s)
      | Inr a \<Rightarrow>
     let current_epoch = get_epoch s;
         owner = account s a
     in if acc_flk_balance owner < amount then Some (Revert InsufficientBalance, s)
        else let node_index = tbl_get (st_pub_key_to_index s) node_public_key
        in if (case node_consensus_key of
                 Some ck \<Rightarrow> tbl_get (st_consensus_key_to_index s) ck \<noteq> node_index | None \<Rightarrow> False)
           then Some (Revert ConsensusKeyAlreadyIndexed, s)
           else let commit = (\<lambda>s'. Some (Success EDNone, set_account_info a
                      (owner\<lparr>acc_flk_balance := acc_flk_balance owner - amount\<rparr>) s'))
           in case node_index of
             Some index \<Rightarrow>
              (case node s index of
                 None \<Rightarrow> Some (Revert NodeDoesNotExist, s)
               | Some n \<Rightarrow>
                   let n1 = (case node_domain of Some d \<Rightarrow> n\<lparr>ni_domain := d\<rparr> | None \<Rightarrow> n);
                       n2 = (case worker_public_key of
                               Some k \<Rightarrow> n1\<lparr>ni_worker_public_key := k\<rparr> | None \<Rightarrow> n1);
                       n3 = (case worker_domain of
                               Some d \<Rightarrow> n2\<lparr>ni_worker_domain := d\<rparr> | None \<Rightarrow> n2);
                       n4 = (case ports of Some p \<Rightarrow> n3\<lparr>ni_ports := p\<rparr> | None \<Rightarrow> n3);
                       n5 = n4\<lparr>ni_stake := (ni_stake n4)\<lparr>stk_staked :=
                              stk_staked (ni_stake n4) + amount\<rparr>\<rparr>
                   in commit (set_node_info index n5 s))
           | None \<Rightarrow>
              (case (node_consensus_key, node_domain, worker_public_key, worker_domain, ports) of
                 (Some ck, Some domain, Some wk, Some wd, Some po) \<Rightarrow>
                   let info = \<lparr>ni_owner = a, ni_public_key = node_public_key,
                         ni_consensus_key = ck, ni_staked_since = current_epoch,
                         ni_stake = Staking_default\<lparr>stk_staked := amount\<rparr>,
                         ni_domain = domain, ni_worker_domain = wd, ni_ports = po,
                         ni_worker_public_key = wk, ni_participation = PFalse, ni_nonce = 0\<rparr>
                   in do {
                     s' \<leftarrow> record_node_registry_change node_public_key New (snd (create_node info s));
                     commit s'
                   }
               | _ \<Rightarrow> Some (Revert InsufficientNodeDetails, s)))"

definition max_stake_lock_time :: "app_state \<Rightarrow> u64" where
  "max_stake_lock_time s =
     (case tbl_get (st_parameters s) ProtocolParamKey.MaxStakeLockTime of
        Some (ProtocolParamValue.MaxStakeLockTime v) \<Rightarrow> v | _ \<Rightarrow> 1)"

definition stake_lock ::
    "TransactionSender \<Rightarrow> NodePublicKey \<Rightarrow> u64 \<Rightarrow> app_state \<Rightarrow> TransactionResponse \<times> app_state" where
  "stake_lock sender node_public_key locked_for s =
     (case only_account_owner sender of
        Inl e \<Rightarrow> (e, s)
      | Inr a \<Rightarrow>
     (case get_node_info s (NodeMain node_public_key) of
        None \<Rightarrow> (Revert NodeDoesNotExist, s)
      | Some (index, n) \<Rightarrow>
     if a \<noteq> ni_owner n then (Revert NotNodeOwner, s)
     else if stk_staked (ni_stake n) = 0 then (Revert InsufficientStake, s)
     else let epoch = get_epoch s;
              current_lock = saturating_sub (stk_stake_locked_until (ni_stake n)) epoch
          in if current_lock + locked_for > max_stake_lock_time s
             then (Revert LockExceededMaxStakeLockTime, s)
             else (Success EDNone, set_node_info index
               (n\<lparr>ni_stake := (ni_stake n)\<lparr>stk_stake_locked_until :=
                    stk_stake_locked_until (ni_stake n) + locked_for\<rparr>\<rparr>) s)))"

definition lock_time_of :: "app_state \<Rightarrow> u64" where
  "lock_time_of s =
     (case tbl_get (st_parameters s) ProtocolParamKey.LockTime of
        Some (ProtocolParamValue.LockTime v) \<Rightarrow> v | _ \<Rightarrow> 0)"

definition unstake ::
    "TransactionSender \<Rightarrow> 18 HpUfixed \<Rightarrow> NodePublicKey \<Rightarrow> app_state \<Rightarrow>
     (TransactionResponse \<times> app_state) option" where
  "unstake sender amount node_public_key s =
     (case only_account_owner sender of
        Inl e \<Rightarrow> Some (e, s)
      | Inr a \<Rightarrow>
     (case get_node_info s (NodeMain node_public_key) of
        None \<Rightarrow> Some (Revert NodeDoesNotExist, s)
      | Some (index, n) \<Rightarrow>
     if a \<noteq> ni_owner n then Some (Revert NotNodeOwner, s)
     else let current_epoch = get_epoch s
     in if stk_stake_locked_until (ni_stake n) > current_epoch
        then Some (Revert LockedTokensUnstakeForbidden, s)
     else if stk_staked (ni_stake n) < amount then Some (Revert InsufficientBalance, s)
     else let n' = n\<lparr>ni_stake := (ni_stake n)\<lparr>
                stk_staked := stk_staked (ni_stake n) - amount,
                stk_locked := stk_locked (ni_stake n) + amount,
                stk_locked_until := current_epoch + lock_time_of s\<rparr>\<rparr>;
              s1 = set_node_info index n' s
          in do {
            enough \<leftarrow> has_sufficient_unlocked_stake s1 index;
            Some (Success EDNone,
              if \<not> enough \<and> is_participating s1 index
              then set_node_info index (n'\<lparr>ni_participation := OptedOut\<rparr>) s1 else s1)
          }))"

definition withdraw_unstaked ::
    "TransactionSender \<Rightarrow> NodePublicKey \<Rightarrow> EthAddress option \<Rightarrow> app_state \<Rightarrow>
     TransactionResponse \<times> app_state" where
  "withdraw_unstaked sender node_public_key recipient s =
     (case only_account_owner sender of
        Inl e \<Rightarrow> (e, s)
      | Inr a \<Rightarrow>
     (case get_node_info s (NodeMain node_public_key) of
        None \<Rightarrow> (Revert NodeDoesNotExist, s)
      | Some (index, n) \<Rightarrow>
     if a \<noteq> ni_owner n then (Revert NotNodeOwner, s)
     else if stk_locked (ni_stake n) = 0 then (Revert NoLockedTokens, s)
     else if stk_locked_until (ni_stake n) > get_epoch s then (Revert TokensLocked, s)
     else let to = unwrap_or recipient a;
              receiver = account s to;
              receiver' = receiver\<lparr>acc_flk_balance :=
                acc_flk_balance receiver + stk_locked (ni_stake n)\<rparr>;
              n' = n\<lparr>ni_stake := (ni_stake n)\<lparr>stk_locked := 0\<rparr>\<rparr>
          in (Success EDNone, set_node_info index n' (set_account_info to receiver' s))))"

definition opt_in :: "TransactionSender \<Rightarrow> app_state \<Rightarrow> (TransactionResponse \<times> app_state) option" where
  "opt_in sender s = do {
     r \<leftarrow> only_node_with_sufficient_unlocked_stake s sender;
     Some (case r of
        Inl e \<Rightarrow> (e, s)
      | Inr i \<Rightarrow> (case node s i of
          Some n \<Rightarrow> (Success EDNone, set_node_info i (n\<lparr>ni_participation := OptedIn\<rparr>) s)
        | None \<Rightarrow> (Revert NodeDoesNotExist, s)))
   }"

definition opt_out :: "TransactionSender \<Rightarrow> app_state \<Rightarrow> (TransactionResponse \<times> app_state) option" where
  "opt_out sender s = do {
     r \<leftarrow> only_node_with_sufficient_stake_and_participating s sender;
     Some (case r of
        Inl e \<Rightarrow> (e, s)
      | Inr i \<Rightarrow> (case node s i of
          Some n \<Rightarrow> (Success EDNone, set_node_info i (n\<lparr>ni_participation := OptedOut\<rparr>) s)
        | None \<Rightarrow> (Revert NodeDoesNotExist, s)))
   }"

lemmas staking_defs [exec_defs] = stake_def stake_lock_def unstake_def withdraw_unstaked_def
  opt_in_def opt_out_def

end
