(* ===== verification/Content_Registry.thy ===== *)
theory Content_Registry
  imports State
begin

text \<open>
  The content registry (\<^verbatim>\<open>executor.rs\<close>): which nodes provide which content, kept in two tables that
  mirror each other. An update is staged first and committed only when every item of it is valid.
\<close>

section \<open>Operations\<close>

abbreviation providers :: "app_state \<Rightarrow> Blake3Hash \<Rightarrow> NodeIndex set" where
  "providers s uri \<equiv> unwrap_or (tbl_get (st_uri_to_node s) uri) {}"

abbreviation uris_provided :: "app_state \<Rightarrow> NodeIndex \<Rightarrow> Blake3Hash set" where
  "uris_provided s i \<equiv> unwrap_or (tbl_get (st_node_to_uri s) i) {}"

type_synonym staged_registry = "(Blake3Hash, NodeIndex set) table \<times> Blake3Hash set"

text \<open>One iteration of the loop over the updates.\<close>

definition stage_update ::
    "app_state \<Rightarrow> NodeIndex \<Rightarrow> bool \<Rightarrow> ContentUpdate \<Rightarrow> staged_registry \<Rightarrow>
     ExecutionError + staged_registry" where
  "stage_update s node_index empty_uris_provided update st =
     (case st of (staged_uri_to_node, staged_uris_provided) \<Rightarrow>
       if tbl_get staged_uri_to_node (cu_uri update) \<noteq> None then Inl TooManyUpdatesForContent
       else if cu_remove update
         \<and> (tbl_get (st_uri_to_node s) (cu_uri update) = None \<or> empty_uris_provided)
       then Inl InvalidStateForContentRemoval
       else if cu_remove update then
         (if node_index \<notin> providers s (cu_uri update) then Inl InvalidContentRemoval
          else if cu_uri update \<notin> staged_uris_provided then Inl InvalidContentRemoval
          else Inr (tbl_set staged_uri_to_node (cu_uri update)
                      (providers s (cu_uri update) - {node_index}),
                    staged_uris_provided - {cu_uri update}))
       else Inr (tbl_set staged_uri_to_node (cu_uri update)
                   (insert node_index (providers s (cu_uri update))),
                 insert (cu_uri update) staged_uris_provided))"

fun stage_updates ::
    "app_state \<Rightarrow> NodeIndex \<Rightarrow> bool \<Rightarrow> ContentUpdate list \<Rightarrow> staged_registry \<Rightarrow>
     ExecutionError + staged_registry" where
  "stage_updates s i e [] st = Inr st"
| "stage_updates s i e (u # us) st =
     (case stage_update s i e u st of Inl err \<Rightarrow> Inl err | Inr st' \<Rightarrow> stage_updates s i e us st')"

definition commit_staged ::
    "NodeIndex \<Rightarrow> staged_registry \<Rightarrow> app_state \<Rightarrow> app_state" where
  "commit_staged i st s =
     s\<lparr>st_node_to_uri := tbl_set (st_node_to_uri s) i (snd st),
       st_uri_to_node := fold (\<lambda>kv t. tbl_set t (fst kv) (snd kv)) (fst st) (st_uri_to_node s)\<rparr>"

definition update_content_registry ::
    "TransactionSender \<Rightarrow> ContentUpdate list \<Rightarrow> app_state \<Rightarrow>
     (TransactionResponse \<times> app_state) option" where
  "update_content_registry sender updates s =
     (if length updates > MAX_UPDATES_CONTENT_REGISTRY then Some (Revert TooManyUpdates, s)
      else do {
        r \<leftarrow> only_node_with_sufficient_stake_and_participating s sender;
        Some (case r of
           Inl e \<Rightarrow> (e, s)
         | Inr i \<Rightarrow>
             let uris = uris_provided s i
             in case stage_updates s i (uris = {}) updates ([], uris) of
                  Inl err \<Rightarrow> (Revert err, s)
                | Inr st \<Rightarrow> (Success EDNone, commit_staged i st s))
      })"

text \<open>Dropping everything a node provides; on an error nothing is changed.\<close>

fun stage_clear ::
    "app_state \<Rightarrow> NodeIndex \<Rightarrow> Blake3Hash list \<Rightarrow> (Blake3Hash, NodeIndex set) table \<Rightarrow>
     ExecutionError + (Blake3Hash, NodeIndex set) table" where
  "stage_clear s i [] st = Inr st"
| "stage_clear s i (uri # uris) st =
     (case tbl_get (st_uri_to_node s) uri of
        None \<Rightarrow> Inl InvalidStateForContentRemoval
      | Some ps \<Rightarrow> if i \<notin> ps then Inl InvalidStateForContentRemoval
          else stage_clear s i uris (tbl_set st uri (ps - {i})))"

definition clear_content_registry :: "NodeIndex \<Rightarrow> app_state \<Rightarrow> ExecutionError + app_state" where
  "clear_content_registry i s =
     (case stage_clear s i (sorted_list_of_set (uris_provided s i)) [] of
        Inl e \<Rightarrow> Inl e
      | Inr st \<Rightarrow> Inr (s\<lparr>
          st_uri_to_node := fold (\<lambda>kv t. tbl_set t (fst kv) (snd kv)) st (st_uri_to_node s),
          st_node_to_uri := tbl_remove (st_node_to_uri s) i\<rparr>))"

definition clean_up_content_registry :: "app_state \<Rightarrow> app_state" where
  "clean_up_content_registry s =
     fold (\<lambda>(i, info) s. if ni_participation info = PFalse
             then (case clear_content_registry i s of Inl _ \<Rightarrow> s | Inr s' \<Rightarrow> s') else s)
       (get_node_registry s) s"

section \<open>The two tables mirror each other\<close>

definition content_ok :: "app_state \<Rightarrow> bool" where
  "content_ok s \<longleftrightarrow> (\<forall>i uri. i \<in> providers s uri \<longleftrightarrow> uri \<in> uris_provided s i)"

text \<open>What staging has done after a list of updates, in terms of the registry it started from.\<close>

definition staged_ok :: "app_state \<Rightarrow> NodeIndex \<Rightarrow> ContentUpdate list \<Rightarrow> staged_registry \<Rightarrow> bool" where
  "staged_ok s i us st \<longleftrightarrow>
     tbl_wf (fst st) \<and> distinct (map cu_uri us) \<and>
     (\<forall>uri. tbl_get (fst st) uri =
        (case find (\<lambda>u. cu_uri u = uri) us of None \<Rightarrow> None
         | Some u \<Rightarrow> Some (if cu_remove u then providers s uri - {i} else insert i (providers s uri)))) \<and>
     (\<forall>uri. uri \<in> snd st \<longleftrightarrow>
        (case find (\<lambda>u. cu_uri u = uri) us of None \<Rightarrow> uri \<in> uris_provided s i
         | Some u \<Rightarrow> \<not> cu_remove u))"

lemma find_uri_None:
  "find (\<lambda>u. cu_uri u = uri) us = None \<longleftrightarrow> uri \<notin> set (map cu_uri us)"
  by (auto simp: find_None_iff)

lemma stage_update_ok:
  assumes ok: "staged_ok s i us st" and step: "stage_update s i e u st = Inr st'"
  shows "staged_ok s i (us @ [u]) st'"
proof -
  obtain m uris where st: "st = (m, uris)" by fastforce
  have fresh: "find (\<lambda>v. cu_uri v = cu_uri u) us = None"
    using ok step st by (auto simp: stage_update_def staged_ok_def split: if_splits option.splits)
  then have notin: "cu_uri u \<notin> set (map cu_uri us)" using find_uri_None[of "cu_uri u" us] by blast
  have st': "st' = (tbl_set m (cu_uri u) (if cu_remove u then providers s (cu_uri u) - {i}
        else insert i (providers s (cu_uri u))),
      if cu_remove u then uris - {cu_uri u} else insert (cu_uri u) uris)"
    using step st by (auto simp: stage_update_def split: if_splits)
  show ?thesis
    using ok fresh notin unfolding staged_ok_def st st'
    by (auto simp: find_snoc split: option.splits)
qed

lemma stage_updates_ok:
  "staged_ok s i done st \<Longrightarrow> stage_updates s i e us st = Inr st' \<Longrightarrow> staged_ok s i (done @ us) st'"
proof (induction us arbitrary: "done" st)
  case (Cons u us)
  then obtain st1 where st1: "stage_update s i e u st = Inr st1" "stage_updates s i e us st1 = Inr st'"
    by (auto split: sum.splits)
  show ?case using Cons.IH[OF stage_update_ok[OF Cons.prems(1) st1(1)] st1(2)] by simp
qed simp

lemma staged_ok_start: "staged_ok s i [] ([], uris_provided s i)"
  by (simp add: staged_ok_def)

text \<open>The providers of every content after a commit.\<close>

lemma providers_commit:
  assumes "staged_ok s i us st"
  shows "providers (commit_staged i st s) uri =
    (case find (\<lambda>u. cu_uri u = uri) us of None \<Rightarrow> providers s uri
     | Some u \<Rightarrow> if cu_remove u then providers s uri - {i} else insert i (providers s uri))"
proof -
  have wf: "distinct (map fst (fst st))" using assms by (simp add: staged_ok_def tbl_wf_def)
  have "map_of (fst st) uri = tbl_get (fst st) uri" by (simp add: tbl_get_def)
  then show ?thesis
    using assms by (auto simp: commit_staged_def tbl.get_fold_put[OF wf] staged_ok_def
        split: option.splits)
qed

lemma uris_commit:
  assumes "staged_ok s i us st"
  shows "uris_provided (commit_staged i st s) j = (if j = i then snd st else uris_provided s j)"
  by (simp add: commit_staged_def)

lemma content_ok_commit:
  assumes ok: "content_ok s" and st: "staged_ok s i us st"
  shows "content_ok (commit_staged i st s)"
  unfolding content_ok_def providers_commit[OF st] uris_commit[OF st]
  using ok st by (auto simp: content_ok_def staged_ok_def split: option.splits)

lemma update_content_registry_cases:
  assumes "update_content_registry sender updates s = Some (r, s')"
  obtains "\<not> is_success r" "s' = s"
  | i st where "only_node_with_sufficient_stake_and_participating s sender = Some (Inr i)"
      "length updates \<le> MAX_UPDATES_CONTENT_REGISTRY" "r = Success EDNone"
      "stage_updates s i (uris_provided s i = {}) updates ([], uris_provided s i) = Inr st"
      "s' = commit_staged i st s"
proof (cases "length updates > MAX_UPDATES_CONTENT_REGISTRY")
  case True
  then show thesis using that(1) assms by (auto simp: update_content_registry_def)
next
  case False
  then obtain g where g: "only_node_with_sufficient_stake_and_participating s sender = Some g"
    using assms by (auto simp: update_content_registry_def bind_eq_Some_conv)
  show thesis
  proof (cases g)
    case (Inl e)
    then show thesis using that(1) assms g False participating_guard_revert[OF g[unfolded Inl]]
      by (simp add: update_content_registry_def)
  next
    case (Inr i)
    have eq: "(case stage_updates s i (uris_provided s i = {}) updates ([], uris_provided s i) of
          Inl err \<Rightarrow> (Revert err, s) | Inr st \<Rightarrow> (Success EDNone, commit_staged i st s)) = (r, s')"
      using assms g False Inr by (simp add: update_content_registry_def Let_def)
    show thesis
    proof (cases "stage_updates s i (uris_provided s i = {}) updates ([], uris_provided s i)")
      case (Inl err)
      with eq show thesis using that(1) by auto
    next
      case st: (Inr st)
      show thesis using that(2)[OF g[unfolded Inr] _ _ st] eq st False by auto
    qed
  qed
qed

lemma update_content_registry_content_ok:
  assumes "content_ok s" and "update_content_registry sender updates s = Some (r, s')"
  shows "content_ok s'"
proof -
  from update_content_registry_cases[OF assms(2)] show ?thesis
  proof cases
    case (2 i st)
    show ?thesis
      unfolding 2(5) using content_ok_commit[OF assms(1)] stage_updates_ok[OF staged_ok_start 2(4)]
      by blast
  qed (use assms in simp)
qed

section \<open>Clearing a node\<close>

lemma stage_clear_ok:
  assumes "content_ok s" "set uris \<subseteq> uris_provided s i" "distinct uris"
    "\<forall>uri. tbl_get st uri = (if uri \<in> set done then Some (providers s uri - {i}) else None)" "tbl_wf st"
  shows "\<exists>st'. stage_clear s i uris st = Inr st' \<and> tbl_wf st' \<and>
    (\<forall>uri. tbl_get st' uri =
       (if uri \<in> set done \<union> set uris then Some (providers s uri - {i}) else None))"
  using assms
proof (induction uris arbitrary: st "done")
  case (Cons uri uris)
  then have "i \<in> providers s uri" by (auto simp: content_ok_def)
  then obtain ps where ps: "tbl_get (st_uri_to_node s) uri = Some ps" "i \<in> ps"
    by (cases "tbl_get (st_uri_to_node s) uri") auto
  have "\<exists>st'. stage_clear s i uris (tbl_set st uri (ps - {i})) = Inr st' \<and> tbl_wf st' \<and>
    (\<forall>v. tbl_get st' v =
       (if v \<in> set (uri # done) \<union> set uris then Some (providers s v - {i}) else None))"
    using Cons.prems ps by (intro Cons.IH) auto
  then show ?case using ps by auto
qed auto

lemma clear_content_registry_ok:
  assumes ok: "content_ok s"
  shows "\<exists>s'. clear_content_registry i s = Inr s' \<and> content_ok s' \<and>
    (\<forall>uri. providers s' uri = providers s uri - {i})"
proof -
  let ?uris = "sorted_list_of_set (uris_provided s i)"
  have set: "set ?uris = uris_provided s i" by simp
  obtain st where st: "stage_clear s i ?uris [] = Inr st" "tbl_wf st"
      "\<forall>uri. tbl_get st uri = (if uri \<in> set ?uris then Some (providers s uri - {i}) else None)"
    using stage_clear_ok[OF ok, of ?uris i "[]" "[]"] by auto
  let ?s = "s\<lparr>st_uri_to_node := fold (\<lambda>kv t. tbl_set t (fst kv) (snd kv)) st (st_uri_to_node s),
      st_node_to_uri := tbl_remove (st_node_to_uri s) i\<rparr>"
  have mo: "map_of st uri = tbl_get st uri" for uri by (simp add: tbl_get_def)
  have prov: "providers ?s uri = providers s uri - {i}" for uri
    using st(2,3) ok set unfolding content_ok_def tbl_wf_def
    by (auto simp: tbl.get_fold_put mo)
  moreover have "content_ok ?s"
    unfolding content_ok_def prov using ok by (auto simp: content_ok_def)
  moreover have "clear_content_registry i s = Inr ?s"
    using st(1) by (simp add: clear_content_registry_def)
  ultimately show ?thesis by blast
qed

lemma clean_up_content_registry_ok: "content_ok s \<Longrightarrow> content_ok (clean_up_content_registry s)"
  unfolding clean_up_content_registry_def
proof (rule fold_preserves, goal_cases)
  case (2 x a)
  then show ?case using clear_content_registry_ok[of a "fst x"] by (auto split: prod.splits)
qed

end
