(* ===== verification/Jobs.thy ===== *)
theory Jobs
  imports State Externals
begin

text \<open>
  The job scheduler (\<^verbatim>\<open>executor.rs\<close>, \<^verbatim>\<open>executor/epoch_change.rs\<close>): jobs are spread over the
  participating nodes in chunks, after a shuffle seeded by the hash of the job hashes. A \<^verbatim>\<open>HashMap\<close>
  local to a handler is a table; the job hashes are sorted before they are used, so its iteration
  order does not matter.
\<close>

section \<open>Operations\<close>

definition job_nodes :: "externals \<Rightarrow> u256 list \<Rightarrow> app_state \<Rightarrow> NodeIndex list" where
  "job_nodes ext jobs s =
     ext_shuffle ext (ext_sha3_256 ext (concat (map (be_bytes 32) jobs)))
       (sort (map fst (filter (\<lambda>(_, info). ni_participation info = PTrue) (get_node_registry s))))"

definition job_chunk :: "nat \<Rightarrow> nat \<Rightarrow> nat" where
  "job_chunk njobs nnodes =
     (if nnodes = 0 \<or> njobs < nnodes then 1 else (njobs + nnodes - 1) div nnodes)"

text \<open>The loop body: job number \<open>i\<close> goes to node number \<open>i / chunk\<close>; both \<^verbatim>\<open>expect\<close>s can panic.\<close>

definition assign_one ::
    "NodeIndex list \<Rightarrow> nat \<Rightarrow> nat \<times> u256 \<Rightarrow> (NodeIndex, u256 list) table \<Rightarrow>
     (NodeIndex, u256 list) table option" where
  "assign_one nodes chunk ij assigned =
     (if chunk = 0 then None
      else if fst ij div chunk \<ge> length nodes then None
      else let index = nodes ! (fst ij div chunk)
           in Some (tbl_set assigned index (unwrap_or (tbl_get assigned index) [] @ [snd ij])))"

definition assign_jobs ::
    "externals \<Rightarrow> u256 list \<Rightarrow> app_state \<Rightarrow> (NodeIndex, u256 list) table option" where
  "assign_jobs ext jobs0 s =
     (let jobs = sort jobs0;
          nodes = job_nodes ext jobs s;
          chunk = job_chunk (length jobs) (length nodes)
      in for_each (assign_one nodes chunk) (enumerate 0 jobs) [])"

definition record_assignees ::
    "(NodeIndex, u256 list) table \<Rightarrow> (u256, Job) table \<Rightarrow> (u256, Job) table" where
  "record_assignees assigned jobs =
     fold (\<lambda>(index, node_jobs). fold (\<lambda>h t. case tbl_get t h of
             Some job \<Rightarrow> tbl_set t h (job\<lparr>job_assignee := Some index\<rparr>) | None \<Rightarrow> t) node_jobs)
       assigned jobs"

definition extend_assigned ::
    "(NodeIndex, u256 list) table \<Rightarrow> (NodeIndex, u256 list) table \<Rightarrow> (NodeIndex, u256 list) table" where
  "extend_assigned assigned t =
     fold (\<lambda>(node, node_jobs) t. case tbl_get t node of
             Some cur \<Rightarrow> tbl_set t node (cur @ node_jobs) | None \<Rightarrow> tbl_set t node node_jobs)
       assigned t"

definition add_jobs ::
    "externals \<Rightarrow> Job list \<Rightarrow> app_state \<Rightarrow> (TransactionResponse \<times> app_state) option" where
  "add_jobs ext job_list s =
     (let jobs = fold (\<lambda>job t. tbl_set t (job_hash job) job) job_list []
      in do {
        assigned \<leftarrow> assign_jobs ext (tbl_keys jobs) s;
        let jobs' = record_assignees assigned jobs;
        Some (Success EDNone,
          s\<lparr>st_assigned_jobs := extend_assigned assigned (st_assigned_jobs s),
            st_jobs := fold (\<lambda>kv t. tbl_set t (fst kv) (snd kv)) jobs' (st_jobs s)\<rparr>)
      })"

definition remove_job :: "u256 \<Rightarrow> app_state \<Rightarrow> app_state" where
  "remove_job h s =
     (let s1 = (case tbl_get (st_jobs s) h of
            Some job \<Rightarrow> (case job_assignee job of
               Some assignee \<Rightarrow> (case tbl_get (st_assigned_jobs s) assignee of
                  Some assigned \<Rightarrow>
                    s\<lparr>st_assigned_jobs := tbl_set (st_assigned_jobs s) assignee (remove1 h assigned)\<rparr>
                | None \<Rightarrow> s)
             | None \<Rightarrow> s)
          | None \<Rightarrow> s)
      in s1\<lparr>st_jobs := tbl_remove (st_jobs s1) h\<rparr>)"

definition remove_jobs :: "u256 list \<Rightarrow> app_state \<Rightarrow> TransactionResponse \<times> app_state" where
  "remove_jobs jobs s = (Success EDNone, fold remove_job jobs s)"

definition update_job :: "u256 \<times> JobStatus \<Rightarrow> app_state \<Rightarrow> app_state" where
  "update_job u s =
     (case tbl_get (st_jobs s) (fst u) of
        Some job \<Rightarrow> s\<lparr>st_jobs := tbl_set (st_jobs s) (fst u) (job\<lparr>job_status := Some (snd u)\<rparr>)\<rparr>
      | None \<Rightarrow> s)"

definition update_jobs :: "(u256, JobStatus) table \<Rightarrow> app_state \<Rightarrow> TransactionResponse \<times> app_state" where
  "update_jobs updates s = (Success EDNone, fold update_job updates s)"

text \<open>Epoch change: all jobs are assigned anew.\<close>

definition reassign_jobs :: "externals \<Rightarrow> app_state \<Rightarrow> app_state option" where
  "reassign_jobs ext s =
     (let jobs = map (\<lambda>(_, job). job\<lparr>job_assignee := None\<rparr>) (tbl_as_map (st_jobs s));
          s1 = s\<lparr>st_jobs := tbl_clear (st_jobs s), st_assigned_jobs := tbl_clear (st_assigned_jobs s)\<rparr>
      in map_option snd (add_jobs ext jobs s1))"

lemmas jobs_defs [exec_defs] = add_jobs_def remove_jobs_def update_jobs_def reassign_jobs_def

section \<open>The assignment\<close>

lemma job_chunk_pos: "0 < job_chunk j n"
  by (auto simp: job_chunk_def div_greater_zero_iff)

lemma job_chunk_covers: "i < j \<Longrightarrow> 0 < n \<Longrightarrow> i div job_chunk j n < n"
proof (cases "j < n")
  case False
  assume i: "i < j" and n: "0 < n"
  let ?c = "(j + n - 1) div n"
  have "j \<le> ?c * n"
    using n div_mult_mod_eq[of "j + n - 1" n] mod_less_divisor[OF n, of "j + n - 1"] by linarith
  with i have "i < n * ?c" by (simp add: mult.commute)
  then have "i div ?c < n" by (rule less_mult_imp_div_less)
  with False n show ?thesis by (simp add: job_chunk_def)
qed (simp add: job_chunk_def)

text \<open>After the loop, each node's list is the sublist of the jobs whose number maps to it.\<close>

definition node_of :: "NodeIndex list \<Rightarrow> nat \<Rightarrow> nat \<Rightarrow> NodeIndex" where
  "node_of nodes chunk i = nodes ! (i div chunk)"

lemma assign_loop:
  assumes "0 < chunk" "\<forall>i < k + length hs. i div chunk < length nodes"
  shows "\<exists>t'. for_each (assign_one nodes chunk) (enumerate k hs) t = Some t' \<and>
    (tbl_wf t \<longrightarrow> tbl_wf t') \<and>
    (\<forall>n. unwrap_or (tbl_get t' n) [] =
       unwrap_or (tbl_get t n) [] @
         map snd (filter (\<lambda>ij. node_of nodes chunk (fst ij) = n) (enumerate k hs))) \<and>
    (\<forall>n. tbl_get t' n \<noteq> None \<longleftrightarrow> tbl_get t n \<noteq> None \<or>
       (\<exists>ij \<in> set (enumerate k hs). node_of nodes chunk (fst ij) = n))"
  using assms
proof (induction hs arbitrary: k t)
  case (Cons h hs)
  let ?n = "node_of nodes chunk k"
  let ?t = "tbl_set t ?n (unwrap_or (tbl_get t ?n) [] @ [h])"
  have step: "assign_one nodes chunk (k, h) t = Some ?t"
    using Cons.prems(1) Cons.prems(2)[rule_format, of k]
    by (simp add: assign_one_def node_of_def Let_def)
  obtain t' where t': "for_each (assign_one nodes chunk) (enumerate (Suc k) hs) ?t = Some t'"
      "tbl_wf ?t \<longrightarrow> tbl_wf t'"
      "\<forall>n. unwrap_or (tbl_get t' n) [] = unwrap_or (tbl_get ?t n) [] @
         map snd (filter (\<lambda>ij. node_of nodes chunk (fst ij) = n) (enumerate (Suc k) hs))"
      "\<forall>n. tbl_get t' n \<noteq> None \<longleftrightarrow> tbl_get ?t n \<noteq> None \<or>
         (\<exists>ij \<in> set (enumerate (Suc k) hs). node_of nodes chunk (fst ij) = n)"
    using Cons.IH[of "Suc k" ?t] Cons.prems by auto
  show ?case
  proof (intro exI conjI allI)
    show "for_each (assign_one nodes chunk) (enumerate k (h # hs)) t = Some t'"
      using step t'(1) by simp
    show "tbl_wf t \<longrightarrow> tbl_wf t'" using t'(2) by simp
    fix n
    show "unwrap_or (tbl_get t' n) [] = unwrap_or (tbl_get t n) [] @
        map snd (filter (\<lambda>ij. node_of nodes chunk (fst ij) = n) (enumerate k (h # hs)))"
      using t'(3) by auto
    show "tbl_get t' n \<noteq> None \<longleftrightarrow> tbl_get t n \<noteq> None \<or>
        (\<exists>ij \<in> set (enumerate k (h # hs)). node_of nodes chunk (fst ij) = n)"
      using t'(4) by auto
  qed
qed auto

lemma mem_node_jobs:
  "h \<in> set (map snd (filter (\<lambda>ij. P (fst ij)) (enumerate 0 hs))) \<longleftrightarrow> (\<exists>i < length hs. hs ! i = h \<and> P i)"
  by (auto simp: in_set_enumerate_eq image_iff)

lemma distinct_node_jobs:
  "distinct hs \<Longrightarrow> distinct (map snd (filter P (enumerate 0 hs)))"
  by (metis distinct_map_filter map_snd_enumerate)

text \<open>
  The result of \<^verbatim>\<open>assign_jobs\<close>: with a participating node every job is assigned, to exactly one of
  the shuffled nodes.
\<close>

lemma assign_jobs_result:
  assumes nodes: "job_nodes ext (sort hs) s \<noteq> []" and dist: "distinct hs"
  shows "\<exists>t. assign_jobs ext hs s = Some t \<and> tbl_wf t \<and>
    (\<forall>n. distinct (unwrap_or (tbl_get t n) [])) \<and>
    (\<forall>n. tbl_get t n \<noteq> None \<longrightarrow> n \<in> set (job_nodes ext (sort hs) s)) \<and>
    (\<forall>h. h \<in> set hs \<longleftrightarrow> (\<exists>n. h \<in> set (unwrap_or (tbl_get t n) []))) \<and>
    (\<forall>h m n. h \<in> set (unwrap_or (tbl_get t m) []) \<longrightarrow> h \<in> set (unwrap_or (tbl_get t n) []) \<longrightarrow> m = n)"
proof -
  let ?js = "sort hs" and ?ns = "job_nodes ext (sort hs) s"
  let ?c = "job_chunk (length ?js) (length ?ns)"
  have cover: "i div ?c < length ?ns" if "i < length ?js" for i
    using that nodes by (intro job_chunk_covers) auto
  obtain t where t: "for_each (assign_one ?ns ?c) (enumerate 0 ?js) [] = Some t" "tbl_wf t"
      "\<And>n. unwrap_or (tbl_get t n) [] =
         map snd (filter (\<lambda>ij. node_of ?ns ?c (fst ij) = n) (enumerate 0 ?js))"
      "\<And>n. tbl_get t n \<noteq> None \<longleftrightarrow> (\<exists>ij \<in> set (enumerate 0 ?js). node_of ?ns ?c (fst ij) = n)"
    using assign_loop[of ?c 0 ?js ?ns "[]"] cover job_chunk_pos by auto
  have mem: "h \<in> set (unwrap_or (tbl_get t n) []) \<longleftrightarrow>
      (\<exists>i < length ?js. ?js ! i = h \<and> node_of ?ns ?c i = n)" for h n
    unfolding t(3) mem_node_jobs[where P = "\<lambda>i. node_of ?ns ?c i = n"] ..
  have inj: "?js ! i = ?js ! j \<Longrightarrow> i = j" if "i < length ?js" "j < length ?js" for i j
    using that dist by (metis distinct_sort nth_eq_iff_index_eq)
  show ?thesis
  proof (intro exI conjI allI impI)
    show "assign_jobs ext hs s = Some t" using t(1) by (simp add: assign_jobs_def Let_def)
    show "tbl_wf t" by (rule t(2))
    show "distinct (unwrap_or (tbl_get t n) [])" for n
      unfolding t(3) using dist by (intro distinct_node_jobs) simp
    show "n \<in> set ?ns" if "tbl_get t n \<noteq> None" for n
      using that cover unfolding t(4) node_of_def by (auto simp: in_set_enumerate_eq)
    show "h \<in> set hs \<longleftrightarrow> (\<exists>n. h \<in> set (unwrap_or (tbl_get t n) []))" for h
    proof -
      have "h \<in> set ?js \<longleftrightarrow> (\<exists>n. h \<in> set (unwrap_or (tbl_get t n) []))"
        unfolding mem in_set_conv_nth[of h ?js] by auto
      then show ?thesis by simp
    qed
    show "m = n" if "h \<in> set (unwrap_or (tbl_get t m) [])" "h \<in> set (unwrap_or (tbl_get t n) [])"
      for h m n
      using that inj unfolding mem by metis
  qed
qed

text \<open>With no participating node the first job already panics.\<close>

lemma assign_jobs_panics:
  assumes "job_nodes ext (sort hs) s = []" "hs \<noteq> []"
  shows "assign_jobs ext hs s = None"
proof -
  obtain h js where "sort hs = h # js"
    using assms(2) by (metis length_0_conv length_sort list.exhaust)
  then show ?thesis using assms(1) by (simp add: assign_jobs_def assign_one_def Let_def)
qed

section \<open>Recording the assignment\<close>

lemma record_inner:
  "tbl_get (fold (\<lambda>h t. case tbl_get t h of
      Some job \<Rightarrow> tbl_set t h (job\<lparr>job_assignee := Some n\<rparr>) | None \<Rightarrow> t) hs t) k =
   (if k \<in> set hs then map_option (\<lambda>job. job\<lparr>job_assignee := Some n\<rparr>) (tbl_get t k) else tbl_get t k)"
proof (induction hs arbitrary: t)
  case (Cons h hs)
  show ?case
  proof (cases "tbl_get t h")
    case None
    then show ?thesis using Cons by (cases "k = h") auto
  next
    case (Some job)
    then show ?thesis using Cons[of "tbl_set t h (job\<lparr>job_assignee := Some n\<rparr>)"]
      by (cases "k = h") auto
  qed
qed simp

lemma record_assignees_get:
  "(\<forall>(m, hs) \<in> set assigned. k \<in> set hs \<longrightarrow> m = n) \<Longrightarrow>
   tbl_get (record_assignees assigned t) k =
     (if \<exists>(m, hs) \<in> set assigned. k \<in> set hs
      then map_option (\<lambda>job. job\<lparr>job_assignee := Some n\<rparr>) (tbl_get t k) else tbl_get t k)"
proof (induction assigned arbitrary: t)
  case (Cons e es)
  obtain m hs where e: "e = (m, hs)" by fastforce
  let ?t = "fold (\<lambda>h t. case tbl_get t h of
      Some job \<Rightarrow> tbl_set t h (job\<lparr>job_assignee := Some m\<rparr>) | None \<Rightarrow> t) hs t"
  have "record_assignees (e # es) t = record_assignees es ?t"
    by (simp add: record_assignees_def e)
  moreover have "tbl_get (record_assignees es ?t) k =
     (if \<exists>(m, hs) \<in> set es. k \<in> set hs
      then map_option (\<lambda>job. job\<lparr>job_assignee := Some n\<rparr>) (tbl_get ?t k) else tbl_get ?t k)"
    using Cons.prems by (intro Cons.IH) auto
  moreover have "k \<in> set hs \<Longrightarrow> m = n" using Cons.prems e by auto
  ultimately show ?case
    by (cases "tbl_get t k") (auto simp: record_inner e)
qed (simp add: record_assignees_def)

lemma record_assignees_keys:
  "tbl_get (record_assignees assigned t) k = None \<longleftrightarrow> tbl_get t k = None"
proof (induction assigned arbitrary: t)
  case (Cons e es)
  obtain m hs where e: "e = (m, hs)" by fastforce
  show ?case
    using Cons.IH[of "fold (\<lambda>h t. case tbl_get t h of
      Some job \<Rightarrow> tbl_set t h (job\<lparr>job_assignee := Some m\<rparr>) | None \<Rightarrow> t) hs t"]
    by (simp add: record_assignees_def e record_inner)
qed (simp add: record_assignees_def)

lemma extend_assigned_get:
  "tbl_wf assigned \<Longrightarrow> tbl_get (extend_assigned assigned t) n =
     (case tbl_get assigned n of None \<Rightarrow> tbl_get t n
      | Some hs \<Rightarrow> Some (unwrap_or (tbl_get t n) [] @ hs))"
proof (induction assigned arbitrary: t)
  case (Cons e es)
  obtain m hs where e: "e = (m, hs)" by fastforce
  let ?t = "tbl_set t m (unwrap_or (tbl_get t m) [] @ hs)"
  have "extend_assigned (e # es) t = extend_assigned es ?t"
    by (cases "tbl_get t m") (simp_all add: extend_assigned_def e)
  moreover have "tbl_get es m = None"
    using Cons.prems e by (simp add: tbl_wf_def tbl_get_def map_of_eq_None_iff)
  moreover have "tbl_get (extend_assigned es ?t) n =
     (case tbl_get es n of None \<Rightarrow> tbl_get ?t n | Some hs \<Rightarrow> Some (unwrap_or (tbl_get ?t n) [] @ hs))"
    using Cons.prems by (intro Cons.IH) (simp add: tbl_wf_def)
  ultimately show ?case
    by (auto simp: e tbl_get_def split: option.splits)
qed (simp add: extend_assigned_def)

section \<open>The job tables agree\<close>

abbreviation assigned_to :: "app_state \<Rightarrow> NodeIndex \<Rightarrow> u256 list" where
  "assigned_to s i \<equiv> unwrap_or (tbl_get (st_assigned_jobs s) i) []"

definition jobs_ok :: "app_state \<Rightarrow> bool" where
  "jobs_ok s \<longleftrightarrow> tbl_wf (st_jobs s) \<and>
     (\<forall>h job. tbl_get (st_jobs s) h = Some job \<longrightarrow> job_hash job = h) \<and>
     (\<forall>i. distinct (assigned_to s i)) \<and>
     (\<forall>i h. h \<in> set (assigned_to s i) \<longleftrightarrow>
        (\<exists>job. tbl_get (st_jobs s) h = Some job \<and> job_assignee job = Some i))"

lemma job_table_get:
  "tbl_get (fold (\<lambda>job t. tbl_set t (job_hash job) job) jobs t) h =
     (case find (\<lambda>job. job_hash job = h) (rev jobs) of Some job \<Rightarrow> Some job | None \<Rightarrow> tbl_get t h)"
proof (induction jobs arbitrary: t)
  case (Cons j js)
  then show ?case by (auto simp: find_snoc split: option.splits)
qed simp

lemma job_table_hash:
  "tbl_get (fold (\<lambda>job t. tbl_set t (job_hash job) job) jobs []) h = Some job \<Longrightarrow>
   job \<in> set jobs \<and> job_hash job = h"
  by (auto simp: job_table_get find_Some_iff split: option.splits) (metis nth_mem set_rev length_rev)

lemma job_table_keys:
  "set (tbl_keys (fold (\<lambda>job t. tbl_set t (job_hash job) job) jobs [])) = job_hash ` set jobs"
  by (auto simp: tbl.keys_get dom_def job_table_get find_None_iff image_iff split: option.splits)

lemma job_table_wf: "tbl_wf (fold (\<lambda>job t. tbl_set t (job_hash job) job) jobs [])"
  by (rule fold_preserves) auto

lemma record_assignees_wf: "tbl_wf t \<Longrightarrow> tbl_wf (record_assignees assigned t)"
  unfolding record_assignees_def
  by (rule fold_preserves) (auto intro!: fold_preserves[where P = tbl_wf] split: option.splits)

lemma extend_assigned_list:
  "tbl_wf a \<Longrightarrow> unwrap_or (tbl_get (extend_assigned a t) n) [] =
     unwrap_or (tbl_get t n) [] @ unwrap_or (tbl_get a n) []"
  by (simp add: extend_assigned_get split: option.splits)

definition participating_nodes :: "app_state \<Rightarrow> NodeIndex set" where
  "participating_nodes s =
     fst ` {(i, info) \<in> set (get_node_registry s). ni_participation info = PTrue}"

lemma set_job_nodes: "shuffle_permutes ext \<Longrightarrow> set (job_nodes ext hs s) = participating_nodes s"
proof -
  assume "shuffle_permutes ext"
  then have "set (ext_shuffle ext seed xs) = set xs" for seed xs
    by (metis shuffle_permutes_def set_mset_mset)
  then show ?thesis by (auto simp: job_nodes_def participating_nodes_def)
qed

lemma participating_nodes_cong:
  "st_node_info s = st_node_info s' \<Longrightarrow> participating_nodes s = participating_nodes s'"
  by (simp add: participating_nodes_def get_node_registry_def)

text \<open>The entries of the new jobs once their assignees are recorded.\<close>

lemma record_assignees_result:
  assumes "tbl_wf a" "\<And>h. tbl_get jobs h \<noteq> None \<longleftrightarrow> (\<exists>n. h \<in> set (unwrap_or (tbl_get a n) []))"
    and "\<And>h m n. h \<in> set (unwrap_or (tbl_get a m) []) \<Longrightarrow> h \<in> set (unwrap_or (tbl_get a n) []) \<Longrightarrow> m = n"
  shows "tbl_get (record_assignees a jobs) h = Some job \<longleftrightarrow>
    (\<exists>job' n. tbl_get jobs h = Some job' \<and> h \<in> set (unwrap_or (tbl_get a n) []) \<and>
       job = job'\<lparr>job_assignee := Some n\<rparr>)"
proof (cases "tbl_get jobs h")
  case None
  then show ?thesis using record_assignees_keys[of a jobs h] by auto
next
  case (Some job')
  then obtain n where n: "h \<in> set (unwrap_or (tbl_get a n) [])" using assms(2)[of h] by auto
  have entry: "(m, hs) \<in> set a \<longleftrightarrow> tbl_get a m = Some hs" for m hs
    using map_of_eq_Some_iff[of a m hs] assms(1) by (simp add: tbl_wf_def tbl_get_def)
  have "\<forall>(m, hs) \<in> set a. h \<in> set hs \<longrightarrow> m = n"
  proof clarify
    fix m hs assume "(m, hs) \<in> set a" "h \<in> set hs"
    then have "h \<in> set (unwrap_or (tbl_get a m) [])" by (simp add: entry)
    then show "m = n" using n by (rule assms(3))
  qed
  moreover have "\<exists>(m, hs) \<in> set a. h \<in> set hs"
  proof (cases "tbl_get a n")
    case (Some hs)
    then show ?thesis using n entry[of n hs] by (intro bexI[of _ "(n, hs)"]) simp_all
  qed (use n in simp)
  ultimately have "tbl_get (record_assignees a jobs) h = Some (job'\<lparr>job_assignee := Some n\<rparr>)"
    using record_assignees_get[of a h n jobs] Some by simp
  with Some n show ?thesis using assms(3)[OF _ n] by (metis option.inject)
qed

lemma get_saved_jobs:
  assumes "tbl_wf R"
  shows "tbl_get (fold (\<lambda>kv t. tbl_set t (fst kv) (snd kv)) R t) h =
    (case tbl_get R h of Some v \<Rightarrow> Some v | None \<Rightarrow> tbl_get t h)"
  using tbl.get_fold_put[of R t h] assms by (simp add: tbl_wf_def tbl_get_def[of R])

lemma jobs_ok_extend:
  assumes ok: "jobs_ok s" and wf: "tbl_wf a" "tbl_wf R"
    and dist: "\<And>n. distinct (unwrap_or (tbl_get a n) [])"
    and new: "\<And>h job. tbl_get R h = Some job \<Longrightarrow> job_hash job = h \<and> tbl_get (st_jobs s) h = None"
    and mem: "\<And>h i. h \<in> set (unwrap_or (tbl_get a i) []) \<longleftrightarrow>
      (\<exists>job. tbl_get R h = Some job \<and> job_assignee job = Some i)"
  shows "jobs_ok (s\<lparr>st_assigned_jobs := extend_assigned a (st_assigned_jobs s),
      st_jobs := fold (\<lambda>kv t. tbl_set t (fst kv) (snd kv)) R (st_jobs s)\<rparr>)"
proof -
  let ?s = "s\<lparr>st_assigned_jobs := extend_assigned a (st_assigned_jobs s),
      st_jobs := fold (\<lambda>kv t. tbl_set t (fst kv) (snd kv)) R (st_jobs s)\<rparr>"
  have old: "h \<in> set (assigned_to s i) \<longleftrightarrow>
      (\<exists>job. tbl_get (st_jobs s) h = Some job \<and> job_assignee job = Some i)" for h i
    using ok by (simp add: jobs_ok_def)
  have get: "tbl_get (st_jobs ?s) h = (case tbl_get R h of Some v \<Rightarrow> Some v | None \<Rightarrow> tbl_get (st_jobs s) h)"
    for h using get_saved_jobs[OF wf(2)] by simp
  have lists: "assigned_to ?s i = assigned_to s i @ unwrap_or (tbl_get a i) []" for i
    using extend_assigned_list[OF wf(1)] by simp
  have disj: "set (assigned_to s i) \<inter> set (unwrap_or (tbl_get a i) []) = {}" for i
    using old[of _ i] mem[of _ i] new by fastforce
  have wfs: "tbl_wf (st_jobs ?s)" using ok by (simp add: jobs_ok_def tbl.invar_fold_put)
  have hash: "job_hash job = h" if "tbl_get (st_jobs ?s) h = Some job" for h job
  proof (cases "tbl_get R h")
    case None
    then show ?thesis using that ok unfolding get by (simp add: jobs_ok_def)
  qed (use that new in \<open>simp add: get_saved_jobs[OF wf(2)]\<close>)
  have iff: "h \<in> set (assigned_to ?s i) \<longleftrightarrow>
      (\<exists>job. tbl_get (st_jobs ?s) h = Some job \<and> job_assignee job = Some i)" for i h
    using mem[of h i] old[of h i] new[of h] unfolding get lists by (cases "tbl_get R h") auto
  have dis: "distinct (assigned_to ?s i)" for i
    unfolding lists distinct_append using ok dist disj by (simp add: jobs_ok_def)
  show ?thesis unfolding jobs_ok_def using wfs hash iff dis by blast
qed

definition job_table :: "Job list \<Rightarrow> (u256, Job) table" where
  "job_table jl = fold (\<lambda>job t. tbl_set t (job_hash job) job) jl []"

text \<open>The assignment of a list of jobs and the entries recorded for it.\<close>

lemma assigned_new_jobs:
  assumes ext: "shuffle_permutes ext" and ne: "participating_nodes s \<noteq> {}"
  obtains a where "assign_jobs ext (tbl_keys (job_table jl)) s = Some a" "tbl_wf a"
    "\<And>n. distinct (unwrap_or (tbl_get a n) [])"
    "\<And>n. tbl_get a n \<noteq> None \<Longrightarrow> n \<in> participating_nodes s"
    "\<And>h. h \<in> job_hash ` set jl \<longleftrightarrow> (\<exists>n. h \<in> set (unwrap_or (tbl_get a n) []))"
    "\<And>h job. tbl_get (record_assignees a (job_table jl)) h = Some job \<Longrightarrow>
      job_hash job = h \<and> h \<in> job_hash ` set jl"
    "\<And>h i. h \<in> set (unwrap_or (tbl_get a i) []) \<longleftrightarrow>
      (\<exists>job. tbl_get (record_assignees a (job_table jl)) h = Some job \<and> job_assignee job = Some i)"
proof -
  let ?J = "job_table jl"
  have dist: "distinct (tbl_keys ?J)"
    using job_table_wf[of jl] by (simp add: tbl_wf_def tbl_keys_def job_table_def)
  have nodes: "job_nodes ext (sort (tbl_keys ?J)) s \<noteq> []"
    using set_job_nodes[OF ext, of "sort (tbl_keys ?J)" s] ne by force
  obtain a where a: "assign_jobs ext (tbl_keys ?J) s = Some a" "tbl_wf a"
      "\<And>n. distinct (unwrap_or (tbl_get a n) [])"
      "\<And>n. tbl_get a n \<noteq> None \<Longrightarrow> n \<in> participating_nodes s"
      "\<And>h. h \<in> set (tbl_keys ?J) \<longleftrightarrow> (\<exists>n. h \<in> set (unwrap_or (tbl_get a n) []))"
      "\<And>h m n. h \<in> set (unwrap_or (tbl_get a m) []) \<Longrightarrow> h \<in> set (unwrap_or (tbl_get a n) []) \<Longrightarrow> m = n"
    using assign_jobs_result[OF nodes dist] unfolding set_job_nodes[OF ext] by blast
  have keys: "set (tbl_keys ?J) = job_hash ` set jl" unfolding job_table_def by (rule job_table_keys)
  have R: "tbl_get (record_assignees a ?J) h = Some job \<longleftrightarrow> (\<exists>job' n. tbl_get ?J h = Some job' \<and>
      h \<in> set (unwrap_or (tbl_get a n) []) \<and> job = job'\<lparr>job_assignee := Some n\<rparr>)" for h job
    by (rule record_assignees_result[OF a(2) _ a(6)]) (simp_all only: tbl_keys_iff[symmetric] a(5))
  show thesis
  proof
    show "h \<in> job_hash ` set jl \<longleftrightarrow> (\<exists>n. h \<in> set (unwrap_or (tbl_get a n) []))" for h
      using a(5) keys by simp
    show "job_hash job = h \<and> h \<in> job_hash ` set jl"
      if r: "tbl_get (record_assignees a ?J) h = Some job" for h job
      using r job_table_hash[of jl h, folded job_table_def] unfolding R by auto
    show "h \<in> set (unwrap_or (tbl_get a i) []) \<longleftrightarrow>
        (\<exists>job. tbl_get (record_assignees a ?J) h = Some job \<and> job_assignee job = Some i)" for h i
    proof
      assume h: "h \<in> set (unwrap_or (tbl_get a i) [])"
      then obtain job' where "tbl_get ?J h = Some job'" using a(5)[of h] unfolding tbl_keys_iff by blast
      with h show "\<exists>job. tbl_get (record_assignees a ?J) h = Some job \<and> job_assignee job = Some i"
        unfolding R by (intro exI[of _ "job'\<lparr>job_assignee := Some i\<rparr>"] conjI exI) simp_all
    qed (unfold R, auto)
  qed (fact a)+
qed

lemma add_jobs_ok:
  assumes ext: "shuffle_permutes ext" and ok: "jobs_ok s" and ne: "participating_nodes s \<noteq> {}"
    and fresh: "\<forall>job \<in> set jl. tbl_get (st_jobs s) (job_hash job) = None"
  shows "\<exists>s'. add_jobs ext jl s = Some (Success EDNone, s') \<and> jobs_ok s' \<and>
    (\<forall>h. tbl_get (st_jobs s) h \<noteq> None \<longrightarrow> tbl_get (st_jobs s') h = tbl_get (st_jobs s) h) \<and>
    (\<forall>job \<in> set jl. \<exists>job' i. tbl_get (st_jobs s') (job_hash job) = Some job' \<and>
       job_assignee job' = Some i \<and> i \<in> participating_nodes s)"
proof -
  obtain a where a: "assign_jobs ext (tbl_keys (job_table jl)) s = Some a" "tbl_wf a"
      "\<And>n. distinct (unwrap_or (tbl_get a n) [])"
    and part: "\<And>n. tbl_get a n \<noteq> None \<Longrightarrow> n \<in> participating_nodes s"
    and all: "\<And>h. h \<in> job_hash ` set jl \<longleftrightarrow> (\<exists>n. h \<in> set (unwrap_or (tbl_get a n) []))"
    and new: "\<And>h job. tbl_get (record_assignees a (job_table jl)) h = Some job \<Longrightarrow>
      job_hash job = h \<and> h \<in> job_hash ` set jl"
    and mem: "\<And>h i. h \<in> set (unwrap_or (tbl_get a i) []) \<longleftrightarrow>
      (\<exists>job. tbl_get (record_assignees a (job_table jl)) h = Some job \<and> job_assignee job = Some i)"
    using assigned_new_jobs[OF ext ne, of jl] by blast
  let ?R = "record_assignees a (job_table jl)"
  let ?s = "s\<lparr>st_assigned_jobs := extend_assigned a (st_assigned_jobs s),
      st_jobs := fold (\<lambda>kv t. tbl_set t (fst kv) (snd kv)) ?R (st_jobs s)\<rparr>"
  have wfR: "tbl_wf ?R" unfolding job_table_def by (rule record_assignees_wf[OF job_table_wf])
  have none: "job_hash job = h \<and> tbl_get (st_jobs s) h = None" if "tbl_get ?R h = Some job" for h job
    using new[OF that] fresh by auto
  have "jobs_ok ?s" by (rule jobs_ok_extend[OF ok a(2) wfR a(3) none mem])
  moreover have "\<exists>job' i. tbl_get (st_jobs ?s) (job_hash job) = Some job' \<and>
       job_assignee job' = Some i \<and> i \<in> participating_nodes s" if job: "job \<in> set jl" for job
  proof -
    obtain n where n: "job_hash job \<in> set (unwrap_or (tbl_get a n) [])"
      using job all[of "job_hash job"] by blast
    then have "n \<in> participating_nodes s" using part[of n] by (cases "tbl_get a n") auto
    moreover obtain r where "tbl_get ?R (job_hash job) = Some r" "job_assignee r = Some n"
      using n mem[of "job_hash job" n] by blast
    ultimately show ?thesis by (simp add: get_saved_jobs[OF wfR])
  qed
  moreover have "add_jobs ext jl s = Some (Success EDNone, ?s)"
    using a(1) by (simp add: add_jobs_def job_table_def Let_def)
  moreover have "tbl_get (st_jobs ?s) h = tbl_get (st_jobs s) h" if "tbl_get (st_jobs s) h \<noteq> None" for h
    using that none[of h] by (cases "tbl_get ?R h") (auto simp: get_saved_jobs[OF wfR])
  ultimately show ?thesis by blast
qed

text \<open>Without a participating node, adding a job panics.\<close>

lemma add_jobs_panics:
  assumes "shuffle_permutes ext" "participating_nodes s = {}" "jl \<noteq> []"
  shows "add_jobs ext jl s = None"
proof -
  let ?hs = "tbl_keys (fold (\<lambda>job t. tbl_set t (job_hash job) job) jl [])"
  have "job_nodes ext (sort ?hs) s = []" using set_job_nodes[OF assms(1), of "sort ?hs" s] assms(2) by simp
  moreover have "?hs \<noteq> []" using job_table_keys[of jl] assms(3) by force
  ultimately show ?thesis by (simp add: add_jobs_def assign_jobs_panics Let_def)
qed

section \<open>Removing and updating jobs\<close>

lemma remove_job_ok:
  assumes ok: "jobs_ok s"
  shows "jobs_ok (remove_job h s)"
proof (cases "\<exists>job i hs. tbl_get (st_jobs s) h = Some job \<and> job_assignee job = Some i \<and>
    tbl_get (st_assigned_jobs s) i = Some hs")
  case True
  then obtain job i hs where j: "tbl_get (st_jobs s) h = Some job" "job_assignee job = Some i"
    "tbl_get (st_assigned_jobs s) i = Some hs" by blast
  let ?s = "s\<lparr>st_assigned_jobs := tbl_set (st_assigned_jobs s) i (remove1 h hs),
      st_jobs := tbl_remove (st_jobs s) h\<rparr>"
  have s: "remove_job h s = ?s" using j by (simp add: remove_job_def)
  have hs: "hs = assigned_to s i" using j(3) by simp
  have dist: "distinct (assigned_to s k)" for k using ok by (simp add: jobs_ok_def)
  have mem: "g \<in> set (assigned_to s k) \<longleftrightarrow>
      (\<exists>job. tbl_get (st_jobs s) g = Some job \<and> job_assignee job = Some k)" for g k
    using ok by (simp add: jobs_ok_def)
  have "distinct (assigned_to ?s k)" for k using dist[of k] dist[of i] by (simp add: hs)
  moreover have "g \<in> set (assigned_to ?s k) \<longleftrightarrow>
      (\<exists>job. tbl_get (st_jobs ?s) g = Some job \<and> job_assignee job = Some k)" for g k
  proof (cases "g = h")
    case True
    then show ?thesis using mem[of h k] j(1,2) dist[of i] by (simp add: hs)
  next
    case False
    then show ?thesis using mem[of g k] mem[of g i] dist[of i] by (simp add: hs)
  qed
  ultimately show ?thesis using ok unfolding s by (simp add: jobs_ok_def)
next
  case False
  have s: "remove_job h s = s\<lparr>st_jobs := tbl_remove (st_jobs s) h\<rparr>"
    using False by (simp add: remove_job_def split: option.splits)
  have mem: "g \<in> set (assigned_to s k) \<longleftrightarrow>
      (\<exists>job. tbl_get (st_jobs s) g = Some job \<and> job_assignee job = Some k)" for g k
    using ok by (simp add: jobs_ok_def)
  have "h \<notin> set (assigned_to s i)" for i
  proof
    assume h: "h \<in> set (assigned_to s i)"
    then obtain hs where "tbl_get (st_assigned_jobs s) i = Some hs"
      by (cases "tbl_get (st_assigned_jobs s) i") simp_all
    with h False mem[of h i] show False by blast
  qed
  then show ?thesis using ok mem unfolding s by (simp add: jobs_ok_def)
qed

lemma remove_jobs_ok: "jobs_ok s \<Longrightarrow> remove_jobs hs s = (r, s') \<Longrightarrow> jobs_ok s'"
  by (auto simp: remove_jobs_def intro: fold_preserves remove_job_ok)

lemma update_job_ok: "jobs_ok s \<Longrightarrow> jobs_ok (update_job u s)"
  by (auto simp: jobs_ok_def update_job_def split: option.splits)

lemma update_jobs_ok: "jobs_ok s \<Longrightarrow> update_jobs us s = (r, s') \<Longrightarrow> jobs_ok s'"
  by (auto simp: update_jobs_def intro: fold_preserves update_job_ok)

lemma st_jobs_remove_job: "st_jobs (remove_job h s) = tbl_remove (st_jobs s) h"
  by (simp add: remove_job_def Let_def split: option.splits)

text \<open>A job that is removed is gone at the end of the list.\<close>

lemma removed_jobs: "h \<in> set hs \<Longrightarrow> tbl_get (st_jobs (fold remove_job hs s)) h = None"
proof (induction hs arbitrary: s)
  case (Cons g hs)
  have keep: "tbl_get (st_jobs s) h = None \<Longrightarrow> tbl_get (st_jobs (fold remove_job hs s)) h = None" for s
    by (induction hs arbitrary: s) (simp_all add: st_jobs_remove_job)
  from Cons show ?case by (cases "g = h") (simp_all add: keep st_jobs_remove_job)
qed simp

text \<open>
  Adding a job under the hash of a job that is assigned already appends the hash to the list of the
  new assignee and leaves every other list as it was, the one of the old assignee included.
\<close>

lemma job_added_again:
  assumes ext: "shuffle_permutes ext" and ok: "jobs_ok s" and ne: "participating_nodes s \<noteq> {}"
    and old: "tbl_get (st_jobs s) (job_hash job) = Some job0" "job_assignee job0 = Some i"
  shows "\<exists>s' k. add_jobs ext [job] s = Some (Success EDNone, s') \<and> k \<in> participating_nodes s \<and>
    tbl_get (st_jobs s') (job_hash job) = Some (job\<lparr>job_assignee := Some k\<rparr>) \<and>
    (\<forall>j. assigned_to s' j = assigned_to s j @ (if j = k then [job_hash job] else [])) \<and>
    job_hash job \<in> set (assigned_to s' i) \<and>
    (k \<noteq> i \<or> 2 \<le> count_list (assigned_to s' i) (job_hash job)) \<and> \<not> jobs_ok s'"
proof -
  let ?h = "job_hash job"
  define ns where "ns = job_nodes ext [?h] s"
  define n where "n = ns ! 0"
  have ns: "set ns = participating_nodes s" using set_job_nodes[OF ext] by (simp add: ns_def)
  then have "ns \<noteq> []" using ne by auto
  then have n: "n \<in> participating_nodes s" unfolding n_def ns[symmetric] by simp
  have a: "assign_jobs ext [?h] s = Some [(n, [?h])]" using \<open>ns \<noteq> []\<close>
    by (simp add: assign_jobs_def assign_one_def job_chunk_def ns_def[symmetric] n_def Let_def
        enumerate_Suc_eq tbl_set_def)
  obtain s' where s': "add_jobs ext [job] s = Some (Success EDNone, s')"
      "st_assigned_jobs s' = extend_assigned [(n, [?h])] (st_assigned_jobs s)"
      "tbl_get (st_jobs s') ?h = Some (job\<lparr>job_assignee := Some n\<rparr>)"
    using a by (simp add: add_jobs_def Let_def record_assignees_def tbl_keys_def tbl_set_def tbl_get_def
        update_conv')
  have lists: "assigned_to s' j = assigned_to s j @ (if j = n then [?h] else [])" for j
    by (simp add: s'(2) extend_assigned_def split: option.splits)
  have mem: "?h \<in> set (assigned_to s i)" using ok old by (auto simp: jobs_ok_def)
  then have twice: "n \<noteq> i \<or> 2 \<le> count_list (assigned_to s' i) ?h"
    using count_list_0_iff[of "assigned_to s i" ?h] by (auto simp: lists Suc_le_eq)
  have stale: "?h \<in> set (assigned_to s' i)" using mem by (simp add: lists)
  have "\<not> jobs_ok s'"
  proof (cases "n = i")
    case True
    then have "\<not> distinct (assigned_to s' i)" using mem by (simp add: lists)
    then show ?thesis unfolding jobs_ok_def by blast
  next
    case False
    then show ?thesis using s'(3) stale by (auto simp: jobs_ok_def)
  qed
  then show ?thesis using s' n lists stale twice by blast
qed

end
