(* ===== verification/Reputation.thy ===== *)
theory Reputation
  imports Types
begin

text \<open>
  The reputation scores, \<^verbatim>\<open>core/reputation/src\<close> (\<^verbatim>\<open>lib.rs\<close>, \<^verbatim>\<open>statistics.rs\<close>, \<^verbatim>\<open>types.rs\<close>): reported
  measurements are weighted by the reporter's score, outliers are dropped, each quantity is
  normalised between its least and greatest value over all nodes, and the average is the score in
  percent. All divisions can panic in the source, so the results are options here; the theory shows
  that none does, and that scores and uptimes are percentages when no reported uptime is negative.
\<close>

section \<open>Statistics\<close>

type_synonym hp = "18 HpFixed"

record WeightedFloat =
  wf_value :: hp
  wf_weight :: hp

definition get_weighted_value :: "WeightedFloat \<Rightarrow> hp" where
  "get_weighted_value w = smul (wf_value w) (wf_weight w)"

text \<open>\<^verbatim>\<open>EPSILON = 1e-8\<close>, rendered in decimal.\<close>

definition EPSILON :: "hp option" where
  "EPSILON = sfrom_f64 ''0.00000001''"

definition approx_quantile :: "u8 list \<Rightarrow> 18 HpUfixed \<Rightarrow> u8 option option" where
  "approx_quantile values q = do {
     zero \<leftarrow> hp_from_f64 ''0'';
     top \<leftarrow> hp_from_f64 ''0.99'';
     if q \<ge> zero \<and> q \<le> top \<and> values \<noteq> [] then
       (case hp_try_into (hp_floor (hp_mul q (hp_from (length values)))) :: _ + u128 of
          Inl _ \<Rightarrow> Some None
        | Inr index \<Rightarrow> if unat index < length values then Some (Some (sort values ! unat index)) else None)
     else Some None
   }"

definition abs_difference :: "hp \<Rightarrow> hp \<Rightarrow> hp" where
  "abs_difference a b = (if a > b then a - b else b - a)"

definition min_max_normalize :: "hp \<Rightarrow> hp \<Rightarrow> hp \<Rightarrow> hp option" where
  "min_max_normalize v min_value max_value = sdivide (v - min_value) (max_value - min_value)"

definition try_min_max_normalize :: "hp \<Rightarrow> hp \<Rightarrow> hp \<Rightarrow> hp option option" where
  "try_min_max_normalize v min_value max_value = do {
     eps \<leftarrow> EPSILON;
     if abs_difference min_value max_value < eps then Some None
     else map_option Some (min_max_normalize v min_value max_value)
   }"

text \<open>The arithmetic of \<^verbatim>\<open>WeightedFloat\<close> acts on the values, so the statistics work on the values.\<close>

definition hp_sum :: "hp list \<Rightarrow> hp" where
  "hp_sum vs = fold (\<lambda>x acc. acc + x) vs 0"

definition calculate_mean :: "hp list \<Rightarrow> hp option option" where
  "calculate_mean vs =
     (if vs \<noteq> [] then map_option Some (sdivide (hp_sum vs) (sfrom (int (length vs)))) else Some None)"

definition calculate_variance :: "hp list \<Rightarrow> hp option option" where
  "calculate_variance vs =
     (if length vs = 1 then Some (Some (sfrom 1))
      else do {
        m \<leftarrow> calculate_mean vs;
        (case m of
           None \<Rightarrow> Some None
         | Some mean \<Rightarrow> map_option Some
             (sdivide (hp_sum (map (\<lambda>v. smul (v - mean) (v - mean)) vs))
                (sfrom (int (length vs)) - sfrom 1)))
      })"

definition calculate_z_score :: "hp \<Rightarrow> hp \<Rightarrow> hp \<Rightarrow> hp option" where
  "calculate_z_score x mean variance = sdivide (smul (x - mean) (x - mean)) variance"

fun retain :: "('a \<Rightarrow> bool option) \<Rightarrow> 'a list \<Rightarrow> 'a list option" where
  "retain P [] = Some []"
| "retain P (x # xs) = do {
     keep \<leftarrow> P x;
     rest \<leftarrow> retain P xs;
     Some (if keep then x # rest else rest)
   }"

definition z_score_normalize_filter :: "WeightedFloat list \<Rightarrow> WeightedFloat list option" where
  "z_score_normalize_filter values = do {
     v \<leftarrow> calculate_variance (map wf_value values);
     (case v of
        None \<Rightarrow> Some values
      | Some variance \<Rightarrow>
          if variance > sfrom 0 then do {
            m \<leftarrow> calculate_mean (map wf_value values);
            (case m of
               None \<Rightarrow> Some values
             | Some mean \<Rightarrow> retain (\<lambda>x. map_option (\<lambda>z. z < sfrom 9)
                 (calculate_z_score (wf_value x) mean variance)) values)
          } else Some values)
   }"

definition calculate_weighted_mean :: "WeightedFloat list \<Rightarrow> hp option" where
  "calculate_weighted_mean values =
     (if values \<noteq> [] then Some (fold (\<lambda>v acc. acc + get_weighted_value v) values (sfrom 0)) else None)"

definition calculate_z_normalized_weighted_mean :: "WeightedFloat list \<Rightarrow> hp option option" where
  "calculate_z_normalized_weighted_mean values =
     map_option calculate_weighted_mean (z_score_normalize_filter values)"

section \<open>Collecting the measurements\<close>

record WeightedReputationMeasurements =
  wrm_measurements :: ReputationMeasurements
  wrm_weight :: u8

record 'a Measured =
  ms_latency :: 'a
  ms_interactions :: 'a
  ms_inbound_bandwidth :: 'a
  ms_outbound_bandwidth :: 'a
  ms_bytes_received :: 'a
  ms_bytes_sent :: 'a

text \<open>
  \<^verbatim>\<open>CollectedMeasurements\<close>, \<^verbatim>\<open>NormalizedMeasurements\<close> and \<^verbatim>\<open>Values\<close> have the same six quantities
  (and the uptime, which \<^verbatim>\<open>Values\<close> does not have).
\<close>

record CollectedMeasurements = "WeightedFloat list Measured" +
  cm_uptime :: "WeightedFloat list"

record NormalizedMeasurements = "hp option Measured" +
  nm_uptime :: "hp option"

type_synonym Values = "hp Measured"

record MinMaxValues =
  mm_min :: Values
  mm_max :: Values

definition u128_to_hp :: "u128 \<Rightarrow> hp" where
  "u128_to_hp b = sfrom (if unat b < 2 ^ 127 then int (unat b) else 2 ^ 127 - 1)"

definition latency_value :: "ReputationMeasurements \<Rightarrow> hp option" where
  "latency_value m = map_option (\<lambda>d. sfrom (min (int (d div 10 ^ 6)) (2 ^ 127 - 1))) (rm_latency m)"

definition interactions_value :: "ReputationMeasurements \<Rightarrow> hp option" where
  "interactions_value m = map_option (\<lambda>i. sfrom (sint i)) (rm_interactions m)"

text \<open>
  The collection of one quantity: the sum of the weights and the count over the reports that have
  it, then one weighted value for each of them. The source does the seven quantities in the same
  two loops. It counts in an \<^verbatim>\<open>i32\<close>, here a natural number: the two agree below \<open>2 ^ 31\<close> reports of
  one node.
\<close>

definition weight_sum_of ::
    "(ReputationMeasurements \<Rightarrow> hp option) \<Rightarrow> WeightedReputationMeasurements list \<Rightarrow> hp" where
  "weight_sum_of f ms =
     fold (\<lambda>m acc. if f (wrm_measurements m) \<noteq> None then acc + sfrom (int (unat (wrm_weight m))) else acc)
       ms (sfrom 0)"

definition count_of ::
    "(ReputationMeasurements \<Rightarrow> hp option) \<Rightarrow> WeightedReputationMeasurements list \<Rightarrow> nat" where
  "count_of f ms = length (filter (\<lambda>m. f (wrm_measurements m) \<noteq> None) ms)"

definition weight_of :: "hp \<Rightarrow> nat \<Rightarrow> u8 \<Rightarrow> hp option" where
  "weight_of weight_sum count w =
     (if weight_sum = sfrom 0 then sdivide (sfrom 1) (sfrom (int count))
      else sdivide (sfrom (int (unat w))) weight_sum)"

fun collect_loop ::
    "(ReputationMeasurements \<Rightarrow> hp option) \<Rightarrow> hp \<Rightarrow> nat \<Rightarrow> WeightedReputationMeasurements list \<Rightarrow>
     WeightedFloat list option" where
  "collect_loop f weight_sum count [] = Some []"
| "collect_loop f weight_sum count (m # ms) =
     (case f (wrm_measurements m) of
        None \<Rightarrow> collect_loop f weight_sum count ms
      | Some v \<Rightarrow> do {
          w \<leftarrow> weight_of weight_sum count (wrm_weight m);
          rest \<leftarrow> collect_loop f weight_sum count ms;
          Some (\<lparr>wf_value = v, wf_weight = w\<rparr> # rest)
        })"

definition collect ::
    "(ReputationMeasurements \<Rightarrow> hp option) \<Rightarrow> WeightedReputationMeasurements list \<Rightarrow>
     WeightedFloat list option" where
  "collect f ms = collect_loop f (weight_sum_of f ms) (count_of f ms) ms"

text \<open>The weights of the latencies are inverted.\<close>

fun invert_loop :: "hp \<Rightarrow> WeightedFloat list \<Rightarrow> WeightedFloat list option" where
  "invert_loop weight_total [] = Some []"
| "invert_loop weight_total (w # ws) = do {
     x \<leftarrow> sdivide (sfrom 1 - wf_weight w) weight_total;
     rest \<leftarrow> invert_loop weight_total ws;
     Some (w\<lparr>wf_weight := x\<rparr> # rest)
   }"

definition invert_weights :: "hp \<Rightarrow> WeightedFloat list \<Rightarrow> WeightedFloat list option" where
  "invert_weights weight_sum_latency ws =
     (if weight_sum_latency \<noteq> sfrom 0 \<and> length ws > 1
      then invert_loop (fold (\<lambda>w acc. acc + (sfrom 1 - wf_weight w)) ws (sfrom 0)) ws
      else Some ws)"

definition collected_measurements ::
    "WeightedReputationMeasurements list \<Rightarrow> CollectedMeasurements option" where
  "collected_measurements ms = do {
     latency \<leftarrow> collect latency_value ms;
     interactions \<leftarrow> collect interactions_value ms;
     inbound \<leftarrow> collect (\<lambda>m. map_option u128_to_hp (rm_inbound_bandwidth m)) ms;
     outbound \<leftarrow> collect (\<lambda>m. map_option u128_to_hp (rm_outbound_bandwidth m)) ms;
     received \<leftarrow> collect (\<lambda>m. map_option u128_to_hp (rm_bytes_received m)) ms;
     sent \<leftarrow> collect (\<lambda>m. map_option u128_to_hp (rm_bytes_sent m)) ms;
     uptime \<leftarrow> collect rm_uptime ms;
     latency' \<leftarrow> invert_weights (weight_sum_of latency_value ms) latency;
     Some \<lparr>ms_latency = latency', ms_interactions = interactions, ms_inbound_bandwidth = inbound,
       ms_outbound_bandwidth = outbound, ms_bytes_received = received, ms_bytes_sent = sent,
       cm_uptime = uptime\<rparr>
   }"

definition normalized_measurements :: "CollectedMeasurements \<Rightarrow> NormalizedMeasurements option" where
  "normalized_measurements c = do {
     latency \<leftarrow> calculate_z_normalized_weighted_mean (ms_latency c);
     interactions \<leftarrow> calculate_z_normalized_weighted_mean (ms_interactions c);
     inbound \<leftarrow> calculate_z_normalized_weighted_mean (ms_inbound_bandwidth c);
     outbound \<leftarrow> calculate_z_normalized_weighted_mean (ms_outbound_bandwidth c);
     received \<leftarrow> calculate_z_normalized_weighted_mean (ms_bytes_received c);
     sent \<leftarrow> calculate_z_normalized_weighted_mean (ms_bytes_sent c);
     uptime \<leftarrow> calculate_z_normalized_weighted_mean (cm_uptime c);
     Some \<lparr>ms_latency = latency, ms_interactions = interactions, ms_inbound_bandwidth = inbound,
       ms_outbound_bandwidth = outbound, ms_bytes_received = received, ms_bytes_sent = sent,
       nm_uptime = uptime\<rparr>
   }"

section \<open>Normalising and scoring\<close>

text \<open>\<^verbatim>\<open>f64::MAX\<close> and \<^verbatim>\<open>f64::MIN\<close>, rendered in decimal.\<close>

definition f64_max :: "hp option" where
  "f64_max = sfrom_f64 (''17976931348623157'' @ replicate 292 (CHR ''0''))"

definition f64_min :: "hp option" where
  "f64_min = sfrom_f64 (''-17976931348623157'' @ replicate 292 (CHR ''0''))"

definition all_values :: "hp \<Rightarrow> Values" where
  "all_values x = \<lparr>ms_latency = x, ms_interactions = x, ms_inbound_bandwidth = x,
     ms_outbound_bandwidth = x, ms_bytes_received = x, ms_bytes_sent = x\<rparr>"

definition with_opt :: "(hp \<Rightarrow> hp \<Rightarrow> hp) \<Rightarrow> hp \<Rightarrow> hp option \<Rightarrow> hp" where
  "with_opt f x v = (case v of Some y \<Rightarrow> f x y | None \<Rightarrow> x)"

definition update_values :: "(hp \<Rightarrow> hp \<Rightarrow> hp) \<Rightarrow> NormalizedMeasurements \<Rightarrow> Values \<Rightarrow> Values" where
  "update_values f m v = \<lparr>ms_latency = with_opt f (ms_latency v) (ms_latency m),
     ms_interactions = with_opt f (ms_interactions v) (ms_interactions m),
     ms_inbound_bandwidth = with_opt f (ms_inbound_bandwidth v) (ms_inbound_bandwidth m),
     ms_outbound_bandwidth = with_opt f (ms_outbound_bandwidth v) (ms_outbound_bandwidth m),
     ms_bytes_received = with_opt f (ms_bytes_received v) (ms_bytes_received m),
     ms_bytes_sent = with_opt f (ms_bytes_sent v) (ms_bytes_sent m)\<rparr>"

definition min_max_values :: "(NodeIndex, NormalizedMeasurements) table \<Rightarrow> MinMaxValues option" where
  "min_max_values t = do {
     hi \<leftarrow> f64_max;
     lo \<leftarrow> f64_min;
     Some (fold (\<lambda>(_, m) v. \<lparr>mm_min = update_values min m (mm_min v),
                             mm_max = update_values max m (mm_max v)\<rparr>)
       t \<lparr>mm_min = all_values hi, mm_max = all_values lo\<rparr>)
   }"

definition normalize_opt :: "hp option \<Rightarrow> hp \<Rightarrow> hp \<Rightarrow> hp option option" where
  "normalize_opt x lo hi =
     (case x of None \<Rightarrow> Some None | Some v \<Rightarrow> try_min_max_normalize v lo hi)"

definition normalize :: "MinMaxValues \<Rightarrow> NormalizedMeasurements \<Rightarrow> NormalizedMeasurements option" where
  "normalize mm m = do {
     latency \<leftarrow> normalize_opt (ms_latency m) (ms_latency (mm_min mm)) (ms_latency (mm_max mm));
     interactions \<leftarrow> normalize_opt (ms_interactions m)
       (ms_interactions (mm_min mm)) (ms_interactions (mm_max mm));
     inbound \<leftarrow> normalize_opt (ms_inbound_bandwidth m)
       (ms_inbound_bandwidth (mm_min mm)) (ms_inbound_bandwidth (mm_max mm));
     outbound \<leftarrow> normalize_opt (ms_outbound_bandwidth m)
       (ms_outbound_bandwidth (mm_min mm)) (ms_outbound_bandwidth (mm_max mm));
     received \<leftarrow> normalize_opt (ms_bytes_received m)
       (ms_bytes_received (mm_min mm)) (ms_bytes_received (mm_max mm));
     sent \<leftarrow> normalize_opt (ms_bytes_sent m) (ms_bytes_sent (mm_min mm)) (ms_bytes_sent (mm_max mm));
     uptime \<leftarrow> (case nm_uptime m of None \<Rightarrow> Some None
       | Some u \<Rightarrow> map_option Some (sdivide u (sfrom 100)));
     Some \<lparr>ms_latency = latency, ms_interactions = interactions, ms_inbound_bandwidth = inbound,
       ms_outbound_bandwidth = outbound, ms_bytes_received = received, ms_bytes_sent = sent,
       nm_uptime = uptime\<rparr>
   }"

text \<open>The quantities that enter the score, the latency as \<open>1 - latency\<close>.\<close>

definition score_terms :: "NormalizedMeasurements \<Rightarrow> hp list" where
  "score_terms m = List.map_filter id
     [map_option (\<lambda>l. sfrom 1 - l) (ms_latency m), ms_interactions m, ms_inbound_bandwidth m,
      ms_outbound_bandwidth m, ms_bytes_received m, ms_bytes_sent m, nm_uptime m]"

text \<open>\<^verbatim>\<open>score.min(100) as u8\<close>.\<close>

definition percent_as_u8 :: "int \<Rightarrow> u8" where
  "percent_as_u8 x = word_of_int (min x 100)"

definition calculate_score :: "NormalizedMeasurements \<Rightarrow> u8 option option" where
  "calculate_score m =
     (let terms = score_terms m; count = length terms
      in if count < 3 then Some None
         else do {
           score \<leftarrow> sdivide (hp_sum terms) (sfrom (int count));
           Some (case stry_into 128 (smul score (sfrom 100)) of
             Inl _ \<Rightarrow> None | Inr x \<Rightarrow> Some (percent_as_u8 x))
         })"

definition get_uptime :: "NormalizedMeasurements \<Rightarrow> u8 option" where
  "get_uptime m =
     (case nm_uptime m of
        None \<Rightarrow> None
      | Some u \<Rightarrow> (case stry_into 128 (smul u (sfrom 100)) of
          Inl _ \<Rightarrow> None | Inr x \<Rightarrow> Some (percent_as_u8 x)))"

fun map_table :: "('v \<Rightarrow> 'w option) \<Rightarrow> ('k, 'v) table \<Rightarrow> ('k, 'w) table option" where
  "map_table f [] = Some []"
| "map_table f ((k, v) # t) = do {
     w \<leftarrow> f v;
     rest \<leftarrow> map_table f t;
     Some ((k, w) # rest)
   }"

definition calculate_normalized_measurements ::
    "(NodeIndex, WeightedReputationMeasurements list) table \<Rightarrow>
     (NodeIndex, NormalizedMeasurements) table option" where
  "calculate_normalized_measurements t =
     map_table (\<lambda>ms. Option.bind (collected_measurements ms) normalized_measurements) t"

definition calculate_reputation_scores ::
    "(NodeIndex, WeightedReputationMeasurements list) table \<Rightarrow>
     (NodeIndex, u8 option \<times> u8 option) table option" where
  "calculate_reputation_scores t = do {
     normalized \<leftarrow> calculate_normalized_measurements t;
     mm \<leftarrow> min_max_values normalized;
     normalized' \<leftarrow> map_table (normalize mm) normalized;
     map_table (\<lambda>m. map_option (\<lambda>score. (score, get_uptime m)) (calculate_score m)) normalized'
   }"

section \<open>No division by zero\<close>

lemma get_int_arith [simp]:
  "get_int (0 :: 'p HpFixed) = 0"
  "get_int (x + y) = get_int x + get_int (y :: 'p HpFixed)"
  "get_int (x - y) = get_int x - get_int (y :: 'p HpFixed)"
  by (simp_all add: HpFixed_arith_defs)

lemma get_int_sfrom [simp]: "get_int (sfrom n :: 'p::len0 HpFixed) = n * 10 ^ LENGTH('p)"
  by (simp add: sfrom_def)

lemma sdivide_Some: "get_int y \<noteq> 0 \<Longrightarrow> \<exists>z. sdivide x y = Some z"
  by (simp add: sdivide_def)

lemma split_on_absent: "c \<notin> set xs \<Longrightarrow> split_on c xs = [xs]"
  by (induction xs) (auto simp: Let_def)

lemma parse_digits_append:
  "parse_digits acc (xs @ ys) = Option.bind (parse_digits acc xs) (\<lambda>a. parse_digits a ys)"
  by (induction xs arbitrary: acc) (auto split: option.splits)

lemma parse_digits_zeros: "parse_digits acc (replicate n CHR ''0'') = Some (acc * 10 ^ n)"
  by (induction n arbitrary: acc) (auto simp: digit_of_def algebra_simps)

lemma float_parts_integer:
  assumes "CHR ''.'' \<notin> set xs" "parse_digits 0 xs = Some a"
  shows "get_float_parts_b P (xs @ replicate n CHR ''0'') = Some (a * 10 ^ n, 0)"
proof -
  have "split_on CHR ''.'' (xs @ replicate n CHR ''0'') = [xs @ replicate n CHR ''0'']"
    using assms(1) by (intro split_on_absent) auto
  then show ?thesis
    using assms(2) by (simp add: get_float_parts_b_def parse_digits_append parse_digits_zeros)
qed

lemma parse_max: "parse_digits 0 ''17976931348623157'' = Some 17976931348623157"
  by (simp add: digit_of_def)

lemma sfrom_f64_pos:
  assumes "get_float_parts_b LENGTH('p) s = Some (i, f)" "s \<noteq> []" "hd s \<noteq> CHR ''-''"
  shows "sfrom_f64 s = Some (HpFixed (int (i * 10 ^ LENGTH('p) + f)) :: 'p::len0 HpFixed)"
  using assms by (simp add: sfrom_f64_def Let_def)

lemma sfrom_f64_neg:
  assumes "get_float_parts_b LENGTH('p) s = Some (i, f)" "s \<noteq> []" "hd s \<noteq> CHR ''+''"
  shows "sfrom_f64 (CHR ''-'' # s) = Some (HpFixed (- int (i * 10 ^ LENGTH('p) + f)) :: 'p::len0 HpFixed)"
  using assms by (simp add: sfrom_f64_def Let_def)

lemma EPSILON_value: "EPSILON = Some (HpFixed (10 ^ 10))"
proof -
  have "split_on CHR ''.'' ''0.00000001'' = [''0'', ''00000001'']" by simp
  moreover have "pad_fraction 18 ''00000001'' = ''00000001'' @ replicate 10 CHR ''0''"
    by (simp add: pad_fraction_def)
  moreover have "parse_digits 0 (''00000001'' @ replicate 10 CHR ''0'') = Some (10 ^ 10)"
    unfolding parse_digits_append parse_digits_zeros by (simp add: digit_of_def parse_digits_zeros)
  ultimately have "get_float_parts_b LENGTH(18) ''0.00000001'' = Some (0, 10 ^ 10)"
    by (simp add: get_float_parts_b_def digit_of_def)
  from sfrom_f64_pos[OF this] show ?thesis by (simp add: EPSILON_def)
qed

lemma f64_limits: "\<exists>i. f64_max = Some (HpFixed i) \<and> f64_min = Some (HpFixed (- i))"
proof -
  define s where "s = ''17976931348623157'' @ replicate 292 CHR ''0''"
  have "get_float_parts_b LENGTH(18) s = Some (17976931348623157 * 10 ^ 292, 0)"
    unfolding s_def by (rule float_parts_integer[OF _ parse_max]) simp
  then obtain i f where p: "get_float_parts_b LENGTH(18) s = Some (i, f)" by blast
  have hd: "s \<noteq> []" "hd s \<noteq> CHR ''-''" "hd s \<noteq> CHR ''+''" by (simp_all add: s_def)
  have "f64_max = sfrom_f64 s" "f64_min = sfrom_f64 (CHR ''-'' # s)"
    by (simp_all only: f64_max_def f64_min_def s_def append_Cons)
  then show ?thesis using sfrom_f64_pos[OF p hd(1,2)] sfrom_f64_neg[OF p hd(1,3)]
    by (intro exI[of _ "int (i * 10 ^ LENGTH(18) + f)"]) simp
qed

lemma mean_total: "\<exists>m. calculate_mean vs = Some m \<and> (vs \<noteq> [] \<longrightarrow> m \<noteq> None)"
proof (cases "vs = []")
  case False
  then have "get_int (sfrom (int (length vs)) :: hp) \<noteq> 0" by simp
  from sdivide_Some[OF this, of "hp_sum vs"] False show ?thesis by (auto simp: calculate_mean_def)
qed (simp add: calculate_mean_def)

lemma variance_total: "\<exists>v. calculate_variance vs = Some v"
proof (cases "length vs = 1")
  case False
  obtain m where m: "calculate_mean vs = Some m" "vs \<noteq> [] \<longrightarrow> m \<noteq> None" using mean_total by blast
  show ?thesis
  proof (cases m)
    case None
    then show ?thesis using m False by (simp add: calculate_variance_def)
  next
    case (Some mean)
    with m have "vs \<noteq> []" by (auto simp: calculate_mean_def split: if_splits)
    with False have "1 < length vs" by (cases vs) auto
    then have "get_int (sfrom (int (length vs)) - sfrom 1 :: hp) \<noteq> 0" by simp
    from sdivide_Some[OF this] show ?thesis using m Some False by (auto simp: calculate_variance_def)
  qed
qed (simp add: calculate_variance_def)

lemma retain_filter:
  "(\<And>x. x \<in> set xs \<Longrightarrow> P x \<noteq> None) \<Longrightarrow> retain P xs = Some (filter (\<lambda>x. P x = Some True) xs)"
  by (induction xs) fastforce+

text \<open>The outlier filter keeps a sublist and never panics.\<close>

lemma z_filter_sublist: "\<exists>Q. z_score_normalize_filter ws = Some (filter Q ws)"
proof -
  obtain v where v: "calculate_variance (map wf_value ws) = Some v" using variance_total by blast
  obtain m where m: "calculate_mean (map wf_value ws) = Some m" using mean_total by blast
  have id: "\<exists>Q. ws = filter Q ws" by (rule exI[of _ "\<lambda>_. True"]) simp
  show ?thesis
  proof (cases "\<exists>variance mean. v = Some variance \<and> variance > sfrom 0 \<and> m = Some mean")
    case True
    then obtain variance mean where vm: "v = Some variance" "variance > sfrom 0" "m = Some mean" by blast
    then have nz: "get_int variance \<noteq> 0" by (simp add: HpFixed_less)
    let ?P = "\<lambda>x. map_option (\<lambda>z. z < sfrom 9) (calculate_z_score (wf_value x) mean variance)"
    have "z_score_normalize_filter ws = retain ?P ws"
      using v m vm by (simp add: z_score_normalize_filter_def)
    moreover have "\<And>x. ?P x \<noteq> None" using sdivide_Some[OF nz] by (auto simp: calculate_z_score_def)
    ultimately show ?thesis using retain_filter[of ws ?P] by auto
  next
    case False
    then have "z_score_normalize_filter ws = Some ws"
      using v m by (cases v; cases m) (simp_all add: z_score_normalize_filter_def)
    with id show ?thesis by simp
  qed
qed

lemma z_mean_total: "\<exists>x. calculate_z_normalized_weighted_mean ws = Some x"
  using z_filter_sublist[of ws] by (auto simp: calculate_z_normalized_weighted_mean_def)

section \<open>Weights\<close>

lemma sdiv_nonneg: "0 \<le> a \<Longrightarrow> 0 \<le> b \<Longrightarrow> a sdiv b = a div (b :: int)"
  by (cases "a = 0"; cases "b = 0") (auto simp: signed_divide_int_def)

lemma weight_sum_fold:
  "get_int (fold (\<lambda>m acc. if f (wrm_measurements m) \<noteq> None then acc + sfrom (int (unat (wrm_weight m)))
      else acc) ms (acc :: hp)) =
   get_int acc + (\<Sum>m\<leftarrow>filter (\<lambda>m. f (wrm_measurements m) \<noteq> None) ms. int (unat (wrm_weight m)) * 10 ^ 18)"
  by (induction ms arbitrary: acc) auto

lemma weight_sum_value:
  "get_int (weight_sum_of f ms) =
     (\<Sum>m\<leftarrow>filter (\<lambda>m. f (wrm_measurements m) \<noteq> None) ms. int (unat (wrm_weight m))) * 10 ^ 18"
  unfolding weight_sum_of_def weight_sum_fold by (simp add: sum_list_mult_const)

text \<open>The collected weights: non-negative, and together at most one.\<close>

definition weights_ok :: "WeightedFloat list \<Rightarrow> bool" where
  "weights_ok ws \<longleftrightarrow> (\<forall>w \<in> set ws. 0 \<le> get_int (wf_weight w)) \<and>
     (\<Sum>w\<leftarrow>ws. get_int (wf_weight w)) \<le> 10 ^ 18"

lemma weight_of_value:
  assumes "S = HpFixed (tot * 10 ^ 18)" "0 \<le> tot" "0 < count"
  shows "weight_of S count w = Some (HpFixed (if tot = 0 then 10 ^ 18 div int count
    else int (unat w) * 10 ^ 18 div tot))"
proof (cases "tot = 0")
  case True
  have "(10 :: int) ^ 18 * 10 ^ 18 sdiv (int count * 10 ^ 18) = 10 ^ 18 div int count"
    by (subst sdiv_nonneg) (simp_all del: power_numeral_even power_numeral_odd)
  then show ?thesis using assms True by (simp add: weight_of_def sdivide_def sfrom_def)
next
  case False
  then have "int (unat w) * 10 ^ 18 * 10 ^ 18 sdiv (tot * 10 ^ 18) = int (unat w) * 10 ^ 18 div tot"
    using assms(2) by (subst sdiv_nonneg) (simp_all add: mult.commute)
  then show ?thesis using assms False by (simp add: weight_of_def sdivide_def sfrom_def)
qed

abbreviation having :: "(ReputationMeasurements \<Rightarrow> hp option) \<Rightarrow> WeightedReputationMeasurements list \<Rightarrow>
    WeightedReputationMeasurements list" where
  "having f ms \<equiv> filter (\<lambda>m. f (wrm_measurements m) \<noteq> None) ms"

lemma collect_loop_result:
  assumes "S = HpFixed (tot * 10 ^ 18)" "0 \<le> tot" "0 < count"
  shows "\<exists>ws. collect_loop f S count ms = Some ws \<and>
    map wf_value ws = map (\<lambda>m. the (f (wrm_measurements m))) (having f ms) \<and>
    map (\<lambda>w. get_int (wf_weight w)) ws =
      map (\<lambda>m. if tot = 0 then 10 ^ 18 div int count else int (unat (wrm_weight m)) * 10 ^ 18 div tot)
        (having f ms)"
proof (induction ms)
  case (Cons m ms)
  then show ?case
    using weight_of_value[OF assms, of "wrm_weight m"] by (cases "f (wrm_measurements m)") auto
qed simp

lemma sum_div_le:
  "0 < d \<Longrightarrow> (\<Sum>x\<leftarrow>xs. g x div d) * d \<le> (\<Sum>x\<leftarrow>xs. g x :: int)"
proof (induction xs)
  case (Cons x xs)
  have "g x div d * d \<le> g x" 
    using div_mult_mod_eq[of "g x" d] pos_mod_sign[OF Cons.prems, of "g x"] by linarith
  with Cons show ?case by (simp add: distrib_right)
qed simp

lemma collect_ok:
  "\<exists>ws. collect f ms = Some ws \<and> weights_ok ws \<and> length ws = count_of f ms \<and>
    wf_value ` set ws \<subseteq> {v. \<exists>m \<in> set ms. f (wrm_measurements m) = Some v}"
proof (cases "having f ms = []")
  case True
  then have "collect_loop f S c ms = Some []" for S c
    by (induction ms) (auto split: if_splits)
  with True show ?thesis by (simp add: collect_def weights_ok_def count_of_def)
next
  case False
  let ?tot = "\<Sum>m\<leftarrow>having f ms. int (unat (wrm_weight m))"
  let ?c = "count_of f ms"
  have c: "0 < ?c" "?c = length (having f ms)" using False by (simp_all add: count_of_def)
  have tot: "0 \<le> ?tot" by (rule sum_list_nonneg) auto
  have S: "weight_sum_of f ms = HpFixed (?tot * 10 ^ 18)"
    by (rule HpFixed.expand) (simp only: weight_sum_value HpFixed.sel)
  obtain ws where ws: "collect_loop f (weight_sum_of f ms) ?c ms = Some ws"
      "map wf_value ws = map (\<lambda>m. the (f (wrm_measurements m))) (having f ms)"
      "map (\<lambda>w. get_int (wf_weight w)) ws = map (\<lambda>m. if ?tot = 0 then 10 ^ 18 div int ?c
        else int (unat (wrm_weight m)) * 10 ^ 18 div ?tot) (having f ms)"
    using collect_loop_result[OF S tot c(1), of f ms] by blast
  have len: "length ws = ?c" using ws(2) c(2) by (metis length_map)
  have sum: "(\<Sum>w\<leftarrow>ws. get_int (wf_weight w)) \<le> 10 ^ 18"
  proof (cases "?tot = 0")
    case True
    have "(10 ^ 18 div int ?c) * int ?c \<le> 10 ^ 18"
      using div_mult_mod_eq[of "10 ^ 18" "int ?c"] pos_mod_sign[of "int ?c" "10 ^ 18"] c(1) by linarith
    then show ?thesis unfolding ws(3) using True c(2) by (simp add: sum_list_triv mult.commute)
  next
    case False
    then have "(\<Sum>m\<leftarrow>having f ms. int (unat (wrm_weight m)) * 10 ^ 18 div ?tot) * ?tot \<le> ?tot * 10 ^ 18"
      using sum_div_le[of ?tot "\<lambda>m. int (unat (wrm_weight m)) * 10 ^ 18" "having f ms"] tot
      by (simp add: sum_list_mult_const)
    then have "(\<Sum>m\<leftarrow>having f ms. int (unat (wrm_weight m)) * 10 ^ 18 div ?tot) \<le> 10 ^ 18"
      using False tot by (simp add: mult.commute)
    then show ?thesis unfolding ws(3) using False by simp
  qed
  have "\<forall>x \<in> set (map (\<lambda>w. get_int (wf_weight w)) ws). 0 \<le> x"
    unfolding ws(3) using tot by (auto intro!: div_int_pos_iff[THEN iffD2])
  then have "weights_ok ws" using sum by (simp add: weights_ok_def)
  moreover have "wf_value ` set ws \<subseteq> {v. \<exists>m \<in> set ms. f (wrm_measurements m) = Some v}"
  proof -
    have "wf_value ` set ws = (\<lambda>m. the (f (wrm_measurements m))) ` set (having f ms)"
      using ws(2) by (metis image_set)
    then show ?thesis by force
  qed
  ultimately show ?thesis using ws(1) len by (auto simp: collect_def)
qed

lemma weights_le_one:
  assumes "weights_ok ws" "w \<in> set ws"
  shows "get_int (wf_weight w) \<le> 10 ^ 18"
proof -
  have "get_int (wf_weight w) \<le> (\<Sum>v\<leftarrow>ws. get_int (wf_weight v))"
    using assms by (intro member_le_sum_list) (auto simp: weights_ok_def)
  with assms(1) show ?thesis by (simp add: weights_ok_def)
qed

lemma invert_total:
  "get_int (fold (\<lambda>w acc. acc + (sfrom 1 - wf_weight w)) ws (acc :: hp)) =
   get_int acc + (\<Sum>w\<leftarrow>ws. 10 ^ 18 - get_int (wf_weight w))"
  by (induction ws arbitrary: acc) auto

lemma invert_loop_result:
  assumes "0 < get_int t" "\<forall>w \<in> set ws. get_int (wf_weight w) \<le> 10 ^ 18"
  shows "\<exists>ws'. invert_loop t ws = Some ws' \<and> map wf_value ws' = map wf_value ws \<and>
    map (\<lambda>w. get_int (wf_weight w)) ws' =
      map (\<lambda>w. (10 ^ 18 - get_int (wf_weight w)) * 10 ^ 18 div get_int t) ws"
  using assms(2)
proof (induction ws)
  case (Cons w ws)
  have "sdivide (sfrom 1 - wf_weight w) t =
      Some (HpFixed ((10 ^ 18 - get_int (wf_weight w)) * 10 ^ 18 div get_int t))"
    using assms(1) Cons.prems by (simp add: sdivide_def sdiv_nonneg)
  with Cons show ?case by auto
qed simp

lemma invert_weights_ok:
  assumes ok: "weights_ok ws"
  shows "\<exists>ws'. invert_weights S ws = Some ws' \<and> weights_ok ws' \<and> map wf_value ws' = map wf_value ws"
proof (cases "S \<noteq> sfrom 0 \<and> length ws > 1")
  case True
  define t where "t = fold (\<lambda>w acc. acc + (sfrom 1 - wf_weight w)) ws (sfrom 0 :: hp)"
  have le: "\<forall>w \<in> set ws. get_int (wf_weight w) \<le> 10 ^ 18" using weights_le_one[OF ok] by blast
  have t: "get_int t = (\<Sum>w\<leftarrow>ws. 10 ^ 18 - get_int (wf_weight w))"
    unfolding t_def invert_total by simp
  also have "\<dots> = int (length ws) * 10 ^ 18 - (\<Sum>w\<leftarrow>ws. get_int (wf_weight w))"
    by (simp add: sum_list_subtractf sum_list_triv)
  finally have "int (length ws) * 10 ^ 18 - 10 ^ 18 \<le> get_int t"
    using ok by (simp add: weights_ok_def)
  moreover have "0 < int (length ws) * 10 ^ 18 - (10 ^ 18 :: int)" using True by simp
  ultimately have pos: "0 < get_int t" by linarith
  obtain ws' where ws': "invert_loop t ws = Some ws'" "map wf_value ws' = map wf_value ws"
      "map (\<lambda>w. get_int (wf_weight w)) ws' =
        map (\<lambda>w. (10 ^ 18 - get_int (wf_weight w)) * 10 ^ 18 div get_int t) ws"
    using invert_loop_result[OF pos le] by blast
  have "(\<Sum>w\<leftarrow>ws. (10 ^ 18 - get_int (wf_weight w)) * 10 ^ 18 div get_int t) * get_int t
      \<le> get_int t * 10 ^ 18"
    using sum_div_le[OF pos, of "\<lambda>w. (10 ^ 18 - get_int (wf_weight w)) * 10 ^ 18" ws]
    unfolding t by (simp only: sum_list_mult_const)
  then have "(\<Sum>w\<leftarrow>ws'. get_int (wf_weight w)) \<le> 10 ^ 18"
    unfolding ws'(3) using pos by (simp add: mult.commute)
  moreover have "\<forall>x \<in> set (map (\<lambda>w. get_int (wf_weight w)) ws'). 0 \<le> x"
    unfolding ws'(3) using le pos by (simp add: pos_imp_zdiv_nonneg_iff)
  ultimately have "weights_ok ws'" by (simp add: weights_ok_def)
  with True ws' show ?thesis by (auto simp: invert_weights_def t_def)
next
  case False
  with ok show ?thesis by (auto simp: invert_weights_def)
qed

text \<open>Collecting and averaging the reports on one node never panics.\<close>

lemma collected_total:
  "\<exists>c. collected_measurements ms = Some c \<and> weights_ok (cm_uptime c) \<and>
    wf_value ` set (cm_uptime c) \<subseteq> {v. \<exists>m \<in> set ms. rm_uptime (wrm_measurements m) = Some v}"
proof -
  have any: "\<exists>ws. collect f ms = Some ws" for f using collect_ok[of f ms] by blast
  obtain l where l: "collect latency_value ms = Some l" "weights_ok l" using collect_ok by blast
  obtain l' where l': "invert_weights (weight_sum_of latency_value ms) l = Some l'"
    using invert_weights_ok[OF l(2)] by blast
  obtain u where u: "collect rm_uptime ms = Some u" "weights_ok u"
      "wf_value ` set u \<subseteq> {v. \<exists>m \<in> set ms. rm_uptime (wrm_measurements m) = Some v}"
    using collect_ok[of rm_uptime ms] by blast
  obtain i where i: "collect interactions_value ms = Some i" using any by blast
  obtain ib where ib: "collect (\<lambda>m. map_option u128_to_hp (rm_inbound_bandwidth m)) ms = Some ib"
    using any by blast
  obtain ob where ob: "collect (\<lambda>m. map_option u128_to_hp (rm_outbound_bandwidth m)) ms = Some ob"
    using any by blast
  obtain br where br: "collect (\<lambda>m. map_option u128_to_hp (rm_bytes_received m)) ms = Some br"
    using any by blast
  obtain bs where bs: "collect (\<lambda>m. map_option u128_to_hp (rm_bytes_sent m)) ms = Some bs"
    using any by blast
  show ?thesis using l l' u i ib ob br bs by (simp add: collected_measurements_def)
qed

lemma normalized_total:
  "\<exists>n. normalized_measurements c = Some n \<and>
    calculate_z_normalized_weighted_mean (cm_uptime c) = Some (nm_uptime n)"
proof -
  obtain l i ib ob br bs u where
    "calculate_z_normalized_weighted_mean (ms_latency c) = Some l"
    "calculate_z_normalized_weighted_mean (ms_interactions c) = Some i"
    "calculate_z_normalized_weighted_mean (ms_inbound_bandwidth c) = Some ib"
    "calculate_z_normalized_weighted_mean (ms_outbound_bandwidth c) = Some ob"
    "calculate_z_normalized_weighted_mean (ms_bytes_received c) = Some br"
    "calculate_z_normalized_weighted_mean (ms_bytes_sent c) = Some bs"
    "calculate_z_normalized_weighted_mean (cm_uptime c) = Some u"
    using z_mean_total by metis
  then show ?thesis by (simp add: normalized_measurements_def)
qed

section \<open>Normalising never panics\<close>

lemma try_min_max_total: "\<exists>x. try_min_max_normalize v lo hi = Some x"
proof (cases "abs_difference lo hi < HpFixed (10 ^ 10)")
  case False
  then have "get_int (hi - lo) \<noteq> 0"
    by (auto simp: abs_difference_def HpFixed_less split: if_splits)
  from sdivide_Some[OF this] False show ?thesis
    by (auto simp: try_min_max_normalize_def min_max_normalize_def EPSILON_value)
qed (simp add: try_min_max_normalize_def EPSILON_value)

lemma normalize_opt_total: "\<exists>x. normalize_opt v lo hi = Some x"
  using try_min_max_total by (cases v) (auto simp: normalize_opt_def)

lemma uptime_divide_total:
  "\<exists>x. (case u of None \<Rightarrow> Some None | Some v \<Rightarrow> map_option Some (sdivide v (sfrom 100 :: hp))) = Some x"
  using sdivide_Some[of "sfrom 100 :: hp"] by (cases u) auto

lemma map_table_total:
  "(\<And>v. v \<in> snd ` set t \<Longrightarrow> \<exists>w. f v = Some w) \<Longrightarrow>
   \<exists>t'. map_table f t = Some t' \<and> map fst t' = map fst t"
proof (induction t)
  case (Cons e t)
  obtain k v where e: "e = (k, v)" by fastforce
  from Cons obtain w t' where "f v = Some w" "map_table f t = Some t'" "map fst t' = map fst t"
    by (force simp: e)
  then show ?case by (simp add: e)
qed simp

lemma map_table_entry:
  "map_table f t = Some t' \<Longrightarrow> (k, w) \<in> set t' \<Longrightarrow> \<exists>v. (k, v) \<in> set t \<and> f v = Some w"
  by (induction t arbitrary: t') (fastforce simp: bind_eq_Some_conv)+

lemma normalize_total: "\<exists>n. normalize mm m = Some n"
proof -
  obtain l where l: "normalize_opt (ms_latency m) (ms_latency (mm_min mm)) (ms_latency (mm_max mm)) = Some l"
    using normalize_opt_total by blast
  obtain i where i: "normalize_opt (ms_interactions m) (ms_interactions (mm_min mm))
      (ms_interactions (mm_max mm)) = Some i" using normalize_opt_total by blast
  obtain ib where ib: "normalize_opt (ms_inbound_bandwidth m) (ms_inbound_bandwidth (mm_min mm))
      (ms_inbound_bandwidth (mm_max mm)) = Some ib" using normalize_opt_total by blast
  obtain ob where ob: "normalize_opt (ms_outbound_bandwidth m) (ms_outbound_bandwidth (mm_min mm))
      (ms_outbound_bandwidth (mm_max mm)) = Some ob" using normalize_opt_total by blast
  obtain br where br: "normalize_opt (ms_bytes_received m) (ms_bytes_received (mm_min mm))
      (ms_bytes_received (mm_max mm)) = Some br" using normalize_opt_total by blast
  obtain bs where bs: "normalize_opt (ms_bytes_sent m) (ms_bytes_sent (mm_min mm))
      (ms_bytes_sent (mm_max mm)) = Some bs" using normalize_opt_total by blast
  show ?thesis
    using uptime_divide_total[of "nm_uptime m"] unfolding normalize_def l i ib ob br bs by auto
qed

lemma score_total: "\<exists>x. calculate_score m = Some x"
proof (cases "length (score_terms m) < 3")
  case False
  then have "get_int (sfrom (int (length (score_terms m))) :: hp) \<noteq> 0" by auto
  from sdivide_Some[OF this] obtain z where
    "sdivide (hp_sum (score_terms m)) (sfrom (int (length (score_terms m)))) = Some z" by blast
  with False show ?thesis by (simp add: calculate_score_def Let_def)
qed (simp add: calculate_score_def)

lemma min_max_total: "\<exists>mm. min_max_values t = Some mm"
proof -
  obtain i where i: "f64_max = Some (HpFixed i)" "f64_min = Some (HpFixed (- i))"
    using f64_limits by blast
  show ?thesis unfolding min_max_values_def i by simp
qed

lemma reputation_scores_total:
  "\<exists>scores. calculate_reputation_scores t = Some scores \<and> map fst scores = map fst t"
proof -
  have "\<exists>w. Option.bind (collected_measurements ms) normalized_measurements = Some w" for ms
    using collected_total[of ms] normalized_total by (metis Option.bind.bind_lunit)
  then obtain n where n: "calculate_normalized_measurements t = Some n" "map fst n = map fst t"
    using map_table_total[of t] unfolding calculate_normalized_measurements_def by metis
  obtain mm where mm: "min_max_values n = Some mm" using min_max_total by blast
  obtain n' where n': "map_table (normalize mm) n = Some n'" "map fst n' = map fst n"
    using map_table_total[of n "normalize mm"] normalize_total by blast
  obtain s where s: "map_table (\<lambda>m. map_option (\<lambda>score. (score, get_uptime m)) (calculate_score m)) n' = Some s"
      "map fst s = map fst n'"
    using map_table_total[of n' "\<lambda>m. map_option (\<lambda>score. (score, get_uptime m)) (calculate_score m)"]
      score_total by force
  show ?thesis using n mm n' s by (simp add: calculate_reputation_scores_def)
qed

section \<open>Percentages\<close>

text \<open>A quantity between zero and one, as the normalised values are.\<close>

abbreviation unit_range :: "hp \<Rightarrow> bool" where
  "unit_range x \<equiv> 0 \<le> get_int x \<and> get_int x \<le> 10 ^ 18"

lemma sdivide_unit:
  assumes "0 \<le> get_int x" "get_int x \<le> get_int y" "sdivide x y = Some (z :: hp)"
  shows "unit_range z"
proof -
  have y: "0 < get_int y" using assms by (auto simp: sdivide_def split: if_splits)
  then have z: "get_int z = get_int x * 10 ^ 18 div get_int y"
    using assms by (auto simp: sdivide_def sdiv_nonneg)
  have "get_int x * 10 ^ 18 div get_int y \<le> get_int y * 10 ^ 18 div get_int y"
    using assms(2) y by (intro zdiv_mono1) simp_all
  with y assms(1) show ?thesis unfolding z by (simp add: pos_imp_zdiv_nonneg_iff)
qed

lemma normalize_opt_unit:
  assumes "\<And>v. x = Some v \<Longrightarrow> lo \<le> v \<and> v \<le> hi" and "normalize_opt x lo hi = Some (Some y)"
  shows "unit_range y"
proof -
  obtain v where v: "x = Some v" using assms(2) by (cases x) (auto simp: normalize_opt_def)
  then have "sdivide (v - lo) (hi - lo) = Some y"
    using assms(2) by (auto simp: normalize_opt_def try_min_max_normalize_def min_max_normalize_def
        EPSILON_value split: if_splits)
  then show ?thesis
    using sdivide_unit[of "v - lo" "hi - lo" y] assms(1)[OF v] by (simp add: HpFixed_less_eq)
qed

lemma percent_of_unit:
  assumes "unit_range x" "stry_into 128 (smul x (sfrom 100 :: hp)) = Inr p"
  shows "unat (percent_as_u8 p) \<le> 100"
proof -
  have "get_int (smul x (sfrom 100 :: hp)) = get_int x * 100"
    using assms(1) by (simp add: smul_def sdiv_nonneg)
  then have p: "p = get_int x * 100 div 10 ^ 18"
    using assms by (simp add: stry_into_def sdiv_nonneg Let_def split: if_splits)
  have "0 \<le> p" unfolding p using assms(1) by (simp add: pos_imp_zdiv_nonneg_iff)
  then have "unat (percent_as_u8 p) = nat (min p 100)"
    by (simp add: percent_as_u8_def unat_eq_nat_uint uint_word_of_int min_def)
  then show ?thesis by simp
qed

lemma weighted_mean_fold:
  "get_int (fold (\<lambda>v acc. acc + get_weighted_value v) ws acc) =
   get_int acc + (\<Sum>w\<leftarrow>ws. get_int (wf_value w) * get_int (wf_weight w) sdiv 10 ^ 18)"
  by (induction ws arbitrary: acc) (auto simp: get_weighted_value_def smul_def)

lemma weighted_term_bounds:
  fixes v w :: int
  assumes "0 \<le> v" "v \<le> 100 * 10 ^ 18" "0 \<le> w"
  shows "0 \<le> v * w sdiv 10 ^ 18 \<and> v * w sdiv 10 ^ 18 \<le> 100 * w"
proof -
  have "v * w div 10 ^ 18 \<le> 100 * 10 ^ 18 * w div 10 ^ 18"
    using assms by (intro zdiv_mono1 mult_right_mono) simp_all
  also have "\<dots> = 100 * w" by (simp add: mult.assoc mult.left_commute)
  finally show ?thesis using assms by (simp add: sdiv_nonneg pos_imp_zdiv_nonneg_iff)
qed

lemma sum_list_filter_le:
  "(\<And>x. x \<in> set xs \<Longrightarrow> 0 \<le> g x) \<Longrightarrow> (\<Sum>x\<leftarrow>filter Q xs. g x) \<le> (\<Sum>x\<leftarrow>xs. g x :: int)"
  by (induction xs) (auto intro: add_increasing)

lemma weighted_mean_percent:
  assumes ok: "weights_ok ws" and v: "\<forall>w \<in> set ws. 0 \<le> get_int (wf_value w) \<and> get_int (wf_value w) \<le> 100 * 10 ^ 18"
    and m: "calculate_z_normalized_weighted_mean ws = Some (Some x)"
  shows "0 \<le> get_int x \<and> get_int x \<le> 100 * 10 ^ 18"
proof -
  obtain Q where "z_score_normalize_filter ws = Some (filter Q ws)" using z_filter_sublist by blast
  with m have x: "x = fold (\<lambda>v acc. acc + get_weighted_value v) (filter Q ws) (sfrom 0)"
    by (auto simp: calculate_z_normalized_weighted_mean_def calculate_weighted_mean_def split: if_splits)
  let ?t = "\<lambda>w. get_int (wf_value w) * get_int (wf_weight w) sdiv 10 ^ 18"
  have bnd: "0 \<le> ?t w \<and> ?t w \<le> 100 * get_int (wf_weight w)" if "w \<in> set ws" for w
    using that v ok by (intro weighted_term_bounds) (auto simp: weights_ok_def)
  have eq: "get_int x = (\<Sum>w\<leftarrow>filter Q ws. ?t w)" unfolding x weighted_mean_fold by simp
  also have "\<dots> \<le> (\<Sum>w\<leftarrow>filter Q ws. 100 * get_int (wf_weight w))"
    using bnd by (intro sum_list_mono) auto
  also have "\<dots> \<le> (\<Sum>w\<leftarrow>ws. 100 * get_int (wf_weight w))"
    using ok by (intro sum_list_filter_le) (simp add: weights_ok_def)
  also have "\<dots> \<le> 100 * 10 ^ 18" using ok by (simp add: weights_ok_def sum_list_const_mult)
  finally show ?thesis using bnd unfolding eq by (auto intro!: sum_list_nonneg)
qed

text \<open>The least and greatest values bound every value that enters them.\<close>

lemma fold_min_le:
  assumes step: "\<And>e v. g (step e v) = with_opt min (g v) (h e)"
  shows "g (fold step t v) \<le> g v \<and> (\<forall>e \<in> set t. \<forall>x. h e = Some x \<longrightarrow> g (fold step t v) \<le> x)"
proof (induction t arbitrary: v)
  case (Cons e t)
  have "g (step e v) \<le> g v" "\<And>x. h e = Some x \<Longrightarrow> g (step e v) \<le> x"
    by (auto simp: step with_opt_def split: option.splits)
  with Cons[of "step e v"] show ?case by (auto intro: order.trans)
qed simp

lemma fold_max_ge:
  assumes step: "\<And>e v. g (step e v) = with_opt max (g v) (h e)"
  shows "g v \<le> g (fold step t v) \<and> (\<forall>e \<in> set t. \<forall>x. h e = Some x \<longrightarrow> x \<le> g (fold step t v))"
proof (induction t arbitrary: v)
  case (Cons e t)
  have "g v \<le> g (step e v)" "\<And>x. h e = Some x \<Longrightarrow> x \<le> g (step e v)"
    by (auto simp: step with_opt_def split: option.splits)
  with Cons[of "step e v"] show ?case by (auto intro: order.trans)
qed simp

definition within :: "MinMaxValues \<Rightarrow> NormalizedMeasurements \<Rightarrow> bool" where
  "within mm m \<longleftrightarrow>
     (\<forall>v. ms_latency m = Some v \<longrightarrow> ms_latency (mm_min mm) \<le> v \<and> v \<le> ms_latency (mm_max mm)) \<and>
     (\<forall>v. ms_interactions m = Some v \<longrightarrow>
        ms_interactions (mm_min mm) \<le> v \<and> v \<le> ms_interactions (mm_max mm)) \<and>
     (\<forall>v. ms_inbound_bandwidth m = Some v \<longrightarrow>
        ms_inbound_bandwidth (mm_min mm) \<le> v \<and> v \<le> ms_inbound_bandwidth (mm_max mm)) \<and>
     (\<forall>v. ms_outbound_bandwidth m = Some v \<longrightarrow>
        ms_outbound_bandwidth (mm_min mm) \<le> v \<and> v \<le> ms_outbound_bandwidth (mm_max mm)) \<and>
     (\<forall>v. ms_bytes_received m = Some v \<longrightarrow>
        ms_bytes_received (mm_min mm) \<le> v \<and> v \<le> ms_bytes_received (mm_max mm)) \<and>
     (\<forall>v. ms_bytes_sent m = Some v \<longrightarrow>
        ms_bytes_sent (mm_min mm) \<le> v \<and> v \<le> ms_bytes_sent (mm_max mm))"

lemma min_max_within:
  assumes "min_max_values t = Some mm" "(k, m) \<in> set t"
  shows "within mm m"
proof -
  let ?step = "\<lambda>(_ :: NodeIndex, m) v. \<lparr>mm_min = update_values min m (mm_min v),
      mm_max = update_values max m (mm_max v)\<rparr>"
  obtain v where mm: "mm = fold ?step t v"
    using assms(1) by (auto simp: min_max_values_def bind_eq_Some_conv)
  note lo = fold_min_le[where step = ?step and t = t and v = v, THEN conjunct2, rule_format, OF _ assms(2)]
  note hi = fold_max_ge[where step = ?step and t = t and v = v, THEN conjunct2, rule_format, OF _ assms(2)]
  show ?thesis
    unfolding within_def mm
    using lo[of "ms_latency \<circ> mm_min" "ms_latency \<circ> snd"] hi[of "ms_latency \<circ> mm_max" "ms_latency \<circ> snd"]
      lo[of "ms_interactions \<circ> mm_min" "ms_interactions \<circ> snd"]
      hi[of "ms_interactions \<circ> mm_max" "ms_interactions \<circ> snd"]
      lo[of "ms_inbound_bandwidth \<circ> mm_min" "ms_inbound_bandwidth \<circ> snd"]
      hi[of "ms_inbound_bandwidth \<circ> mm_max" "ms_inbound_bandwidth \<circ> snd"]
      lo[of "ms_outbound_bandwidth \<circ> mm_min" "ms_outbound_bandwidth \<circ> snd"]
      hi[of "ms_outbound_bandwidth \<circ> mm_max" "ms_outbound_bandwidth \<circ> snd"]
      lo[of "ms_bytes_received \<circ> mm_min" "ms_bytes_received \<circ> snd"]
      hi[of "ms_bytes_received \<circ> mm_max" "ms_bytes_received \<circ> snd"]
      lo[of "ms_bytes_sent \<circ> mm_min" "ms_bytes_sent \<circ> snd"]
      hi[of "ms_bytes_sent \<circ> mm_max" "ms_bytes_sent \<circ> snd"]
    by (simp add: update_values_def split_beta)
qed

lemma normalize_fields:
  assumes "normalize mm m = Some n"
  shows "normalize_opt (ms_latency m) (ms_latency (mm_min mm)) (ms_latency (mm_max mm)) = Some (ms_latency n)"
    "normalize_opt (ms_interactions m) (ms_interactions (mm_min mm)) (ms_interactions (mm_max mm)) = Some (ms_interactions n)"
    "normalize_opt (ms_inbound_bandwidth m) (ms_inbound_bandwidth (mm_min mm)) (ms_inbound_bandwidth (mm_max mm)) = Some (ms_inbound_bandwidth n)"
    "normalize_opt (ms_outbound_bandwidth m) (ms_outbound_bandwidth (mm_min mm)) (ms_outbound_bandwidth (mm_max mm)) = Some (ms_outbound_bandwidth n)"
    "normalize_opt (ms_bytes_received m) (ms_bytes_received (mm_min mm)) (ms_bytes_received (mm_max mm)) = Some (ms_bytes_received n)"
    "normalize_opt (ms_bytes_sent m) (ms_bytes_sent (mm_min mm)) (ms_bytes_sent (mm_max mm)) = Some (ms_bytes_sent n)"
    "(case nm_uptime m of None \<Rightarrow> Some None
       | Some u \<Rightarrow> map_option Some (sdivide u (sfrom 100))) = Some (nm_uptime n)"
  using assms by (auto simp: normalize_def bind_eq_Some_conv)

lemma normalize_units:
  assumes w: "within mm m" and u: "\<And>x. nm_uptime m = Some x \<Longrightarrow> 0 \<le> get_int x \<and> get_int x \<le> 100 * 10 ^ 18"
    and n: "normalize mm m = Some n"
  shows "(\<forall>x \<in> set (score_terms n). unit_range x) \<and> (\<forall>x. nm_uptime n = Some x \<longrightarrow> unit_range x)"
proof -
  note f = normalize_fields[OF n]
  have unit: "unit_range x" if "normalize_opt y lo hi = Some z" "z = Some x"
      "\<forall>v. y = Some v \<longrightarrow> lo \<le> v \<and> v \<le> hi" for x y z lo hi
    using that normalize_opt_unit[of y lo hi x] by simp
  have up: "unit_range x" if nx: "nm_uptime n = Some x" for x
  proof -
    obtain v where "nm_uptime m = Some v" "sdivide v (sfrom 100) = Some x"
      using f(7) nx by (cases "nm_uptime m") auto
    then show ?thesis using u[of v] sdivide_unit[of v "sfrom 100" x] by simp
  qed
  have "unit_range (sfrom 1 - x)" if "ms_latency n = Some x" for x
    using unit[OF f(1) that] w by (simp add: within_def)
  moreover have "unit_range x" if "ms_interactions n = Some x" for x
    using unit[OF f(2) that] w by (simp add: within_def)
  moreover have "unit_range x" if "ms_inbound_bandwidth n = Some x" for x
    using unit[OF f(3) that] w by (simp add: within_def)
  moreover have "unit_range x" if "ms_outbound_bandwidth n = Some x" for x
    using unit[OF f(4) that] w by (simp add: within_def)
  moreover have "unit_range x" if "ms_bytes_received n = Some x" for x
    using unit[OF f(5) that] w by (simp add: within_def)
  moreover have "unit_range x" if "ms_bytes_sent n = Some x" for x
    using unit[OF f(6) that] w by (simp add: within_def)
  ultimately show ?thesis
    using up by (auto simp: score_terms_def map_filter_simps split: option.splits)
qed

lemma hp_sum_fold: "get_int (fold (\<lambda>x acc. acc + x) vs (acc :: hp)) = get_int acc + (\<Sum>v\<leftarrow>vs. get_int v)"
  by (induction vs arbitrary: acc) auto

lemma hp_sum_units:
  "\<forall>x \<in> set vs. unit_range x \<Longrightarrow> 0 \<le> get_int (hp_sum vs) \<and> get_int (hp_sum vs) \<le> int (length vs) * 10 ^ 18"
  unfolding hp_sum_def hp_sum_fold by (induction vs) auto

lemma score_percent:
  assumes units: "\<forall>x \<in> set (score_terms n). unit_range x" and "calculate_score n = Some (Some p)"
  shows "unat p \<le> 100"
proof -
  obtain q where q1: "sdivide (hp_sum (score_terms n)) (sfrom (int (length (score_terms n)))) = Some q"
      "(case stry_into 128 (smul q (sfrom 100)) of Inl _ \<Rightarrow> None | Inr x \<Rightarrow> Some (percent_as_u8 x)) = Some p"
    using assms(2) by (auto simp: calculate_score_def Let_def bind_eq_Some_conv split: if_splits)
  then obtain v where q: "sdivide (hp_sum (score_terms n)) (sfrom (int (length (score_terms n)))) = Some q"
      "stry_into 128 (smul q (sfrom 100)) = Inr v" "p = percent_as_u8 v"
    by (cases "stry_into 128 (smul q (sfrom 100))") auto
  have "unit_range q" using sdivide_unit[OF _ _ q(1)] hp_sum_units[OF units] by simp
  then show ?thesis using percent_of_unit q(2,3) by blast
qed

lemma uptime_percent:
  assumes "\<And>x. nm_uptime n = Some x \<Longrightarrow> unit_range x" "get_uptime n = Some p"
  shows "unat p \<le> 100"
  using assms percent_of_unit by (auto simp: get_uptime_def split: option.splits sum.splits)

text \<open>Reported uptimes between 0 and 100 give scores and uptimes that are percentages.\<close>

definition uptimes_valid :: "WeightedReputationMeasurements list \<Rightarrow> bool" where
  "uptimes_valid ms \<longleftrightarrow> (\<forall>m \<in> set ms. \<forall>u. rm_uptime (wrm_measurements m) = Some u \<longrightarrow>
     sfrom 0 \<le> u \<and> u \<le> sfrom 100)"

lemma normalized_uptime:
  assumes "uptimes_valid ms" "Option.bind (collected_measurements ms) normalized_measurements = Some n"
    "nm_uptime n = Some x"
  shows "0 \<le> get_int x \<and> get_int x \<le> 100 * 10 ^ 18"
proof -
  obtain c where c: "collected_measurements ms = Some c" "weights_ok (cm_uptime c)"
      "wf_value ` set (cm_uptime c) \<subseteq> {v. \<exists>m \<in> set ms. rm_uptime (wrm_measurements m) = Some v}"
    using collected_total by blast
  then have "calculate_z_normalized_weighted_mean (cm_uptime c) = Some (Some x)"
    using normalized_total[of c] assms(2,3) by auto
  moreover have "\<forall>w \<in> set (cm_uptime c). 0 \<le> get_int (wf_value w) \<and> get_int (wf_value w) \<le> 100 * 10 ^ 18"
    using c(3) assms(1) by (fastforce simp: uptimes_valid_def HpFixed_less_eq)
  ultimately show ?thesis using weighted_mean_percent[OF c(2)] by blast
qed

lemma reputation_scores_percent:
  assumes valid: "\<forall>(k, ms) \<in> set t. uptimes_valid ms"
    and scores: "calculate_reputation_scores t = Some scores" and e: "(k, (score, uptime)) \<in> set scores"
  shows "(\<forall>p. score = Some p \<longrightarrow> unat p \<le> 100) \<and> (\<forall>p. uptime = Some p \<longrightarrow> unat p \<le> 100)"
proof -
  obtain n mm n' where n: "calculate_normalized_measurements t = Some n" "min_max_values n = Some mm"
      "map_table (normalize mm) n = Some n'"
      "map_table (\<lambda>m. map_option (\<lambda>score. (score, get_uptime m)) (calculate_score m)) n' = Some scores"
    using scores by (auto simp: calculate_reputation_scores_def bind_eq_Some_conv)
  obtain m' where m': "(k, m') \<in> set n'" "calculate_score m' = Some score" "uptime = get_uptime m'"
    using map_table_entry[OF n(4) e] by auto
  obtain m where m: "(k, m) \<in> set n" "normalize mm m = Some m'" using map_table_entry[OF n(3) m'(1)] by blast
  obtain ms where ms: "(k, ms) \<in> set t"
      "Option.bind (collected_measurements ms) normalized_measurements = Some m"
    using map_table_entry[OF n(1)[unfolded calculate_normalized_measurements_def] m(1)] by blast
  have "uptimes_valid ms" using valid ms(1) by auto
  note units = normalize_units[OF min_max_within[OF n(2) m(1)] normalized_uptime[OF this ms(2)] m(2)]
  show ?thesis using units score_percent[of m'] uptime_percent[of m'] m'(2,3) by auto
qed

section \<open>A negative uptime\<close>

lemma map_table_get: "map_table f t = Some t' \<Longrightarrow> tbl_get t' k = Option.bind (tbl_get t k) f"
  by (induction t arbitrary: t') (auto simp: bind_eq_Some_conv tbl_get_def)

lemma sdiv_exact: "b \<noteq> 0 \<Longrightarrow> (a * b) sdiv (b :: int) = a"
  by (cases b "0 :: int" rule: linorder_cases) (auto simp: signed_divide_int_def abs_mult sgn_mult mult_sgn_abs)

lemma sfrom_unit:
  "sdivide (sfrom n) (sfrom n) = (if n = 0 then None else Some (sfrom 1 :: hp))"
  "smul (sfrom u) (sfrom 1) = (sfrom u :: hp)"
  using sdiv_exact[of "n * 10 ^ 18" "10 ^ 18"] sdiv_exact[of "10 ^ 18" "u * 10 ^ 18"]
  by (auto simp: sdivide_def smul_def sfrom_def mult.commute)

text \<open>The reports without the quantity do not matter to its collection.\<close>

lemma collect_loop_filter:
  "collect_loop f ws c (filter (\<lambda>m. f (wrm_measurements m) \<noteq> None) ms) = collect_loop f ws c ms"
  by (induction ms) (auto split: option.splits)

lemma weight_sum_filter:
  "weight_sum_of f (filter (\<lambda>m. f (wrm_measurements m) \<noteq> None) ms) = weight_sum_of f ms"
proof -
  have "fold (\<lambda>m acc. if f (wrm_measurements m) \<noteq> None then acc + sfrom (int (unat (wrm_weight m))) else acc)
      (filter (\<lambda>m. f (wrm_measurements m) \<noteq> None) ms) a =
    fold (\<lambda>m acc. if f (wrm_measurements m) \<noteq> None then acc + sfrom (int (unat (wrm_weight m))) else acc)
      ms a" for a :: hp
    by (induction ms arbitrary: a) auto
  then show ?thesis unfolding weight_sum_of_def .
qed

lemma collect_single:
  assumes "filter (\<lambda>m. f (wrm_measurements m) \<noteq> None) ms = [m]" "f (wrm_measurements m) = Some v"
  shows "collect f ms = Some [\<lparr>wf_value = v, wf_weight = sfrom 1\<rparr>]"
proof -
  let ?w = "int (unat (wrm_weight m))"
  have ws: "weight_sum_of f ms = sfrom ?w"
    using assms weight_sum_filter[of f ms] by (simp add: weight_sum_of_def sfrom_def HpFixed_arith_defs)
  have c: "count_of f ms = 1" using assms(1) by (simp add: count_of_def)
  have "weight_of (sfrom ?w) 1 (wrm_weight m) = Some (sfrom 1)"
    using sfrom_unit(1)[of ?w] sfrom_unit(1)[of 1] by (auto simp: weight_of_def sfrom_def)
  then show ?thesis
    using assms collect_loop_filter[of f "weight_sum_of f ms" "count_of f ms" ms]
    by (simp add: collect_def ws c)
qed

lemma z_mean_single:
  "calculate_z_normalized_weighted_mean [\<lparr>wf_value = sfrom u, wf_weight = sfrom 1\<rparr>] = Some (Some (sfrom u))"
proof -
  have "calculate_mean [sfrom u] = Some (Some (sfrom u))"
    using sdiv_exact[of "10 ^ 18" "u * 10 ^ 18"]
    by (simp add: calculate_mean_def hp_sum_def sdivide_def sfrom_def HpFixed_arith_defs sdiv_exact)
  then have "z_score_normalize_filter [\<lparr>wf_value = sfrom u, wf_weight = sfrom 1\<rparr>] =
      Some [\<lparr>wf_value = sfrom u, wf_weight = sfrom 1\<rparr>]"
    by (simp add: z_score_normalize_filter_def calculate_variance_def calculate_z_score_def smul_def
        sdivide_def sfrom_def HpFixed_arith_defs signed_divide_int_def)
  then show ?thesis
    by (simp add: calculate_z_normalized_weighted_mean_def calculate_weighted_mean_def get_weighted_value_def
        sfrom_unit(2)) (simp add: sfrom_def HpFixed_arith_defs)
qed

lemma single_uptime:
  assumes "filter (\<lambda>m. rm_uptime (wrm_measurements m) \<noteq> None) ms = [m]"
    "rm_uptime (wrm_measurements m) = Some (sfrom u)"
    and n: "Option.bind (collected_measurements ms) normalized_measurements = Some n"
  shows "nm_uptime n = Some (sfrom u)"
proof -
  obtain c where c: "collected_measurements ms = Some c" "normalized_measurements c = Some n"
    using n by (auto simp: bind_eq_Some_conv)
  have "cm_uptime c = [\<lparr>wf_value = sfrom u, wf_weight = sfrom 1\<rparr>]"
    using c(1) collect_single[OF assms(1,2)] by (auto simp: collected_measurements_def bind_eq_Some_conv)
  then show ?thesis
    using c(2) z_mean_single[of u] by (auto simp: normalized_measurements_def bind_eq_Some_conv)
qed

lemma get_uptime_below:
  assumes "normalize mm n = Some n'" "nm_uptime n = Some (sfrom u)" "- (2 ^ 127) \<le> u" "u \<le> 100"
  shows "get_uptime n' = Some (word_of_int u)"
proof -
  have "u * 10 ^ 18 * 10 ^ 18 sdiv (100 * 10 ^ 18) = u * 10 ^ 16"
    using sdiv_exact[of "100 * 10 ^ 18" "u * 10 ^ 16"] by (simp add: algebra_simps)
  then have "sdivide (sfrom u) (sfrom 100) = Some (HpFixed (u * 10 ^ 16) :: hp)"
    by (simp add: sdivide_def sfrom_def)
  then have u: "nm_uptime n' = Some (HpFixed (u * 10 ^ 16))"
    using normalize_fields(7)[OF assms(1)] assms(2) by simp
  have "u * 10 ^ 16 * (100 * 10 ^ 18) sdiv 10 ^ 18 = u * 10 ^ 18"
    using sdiv_exact[of "10 ^ 18" "u * 10 ^ 18"] by (simp add: algebra_simps)
  moreover have "u * 10 ^ 18 sdiv 10 ^ 18 = u" by (rule sdiv_exact) simp
  ultimately show ?thesis
    using assms(3,4) by (simp add: get_uptime_def u smul_def sfrom_def stry_into_def Let_def percent_as_u8_def)
qed

lemma reported_uptime_kept:
  assumes "tbl_get t i = Some ms" "filter (\<lambda>m. rm_uptime (wrm_measurements m) \<noteq> None) ms = [m]"
    "rm_uptime (wrm_measurements m) = Some (sfrom u)" "- (2 ^ 127) \<le> u" "u \<le> 100"
  shows "\<exists>scores score. calculate_reputation_scores t = Some scores \<and>
    tbl_get scores i = Some (score, Some (word_of_int u))"
proof -
  obtain scores where s: "calculate_reputation_scores t = Some scores"
    using reputation_scores_total by blast
  then obtain n mm n' where n: "calculate_normalized_measurements t = Some n"
      "map_table (normalize mm) n = Some n'"
      "map_table (\<lambda>m. map_option (\<lambda>score. (score, get_uptime m)) (calculate_score m)) n' = Some scores"
    by (auto simp: calculate_reputation_scores_def bind_eq_Some_conv)
  obtain x where x: "Option.bind (collected_measurements ms) normalized_measurements = Some x"
    using collected_total[of ms] normalized_total by (metis Option.bind.bind_lunit)
  have ni: "tbl_get n i = Some x"
    using map_table_get[OF n(1)[unfolded calculate_normalized_measurements_def], of i] assms(1) x by simp
  obtain y where y: "normalize mm x = Some y" using normalize_total by blast
  obtain score where sc: "calculate_score y = Some score" using score_total by blast
  have "get_uptime y = Some (word_of_int u)"
    by (rule get_uptime_below[OF y single_uptime[OF assms(2,3) x] assms(4,5)])
  then have "tbl_get scores i = Some (score, Some (word_of_int u))"
    using map_table_get[OF n(3), of i] map_table_get[OF n(2), of i] ni y sc by simp
  then show ?thesis using s by blast
qed

lemma negative_byte: "- 155 \<le> u \<Longrightarrow> u < 0 \<Longrightarrow> 100 < unat (word_of_int u :: u8)"
proof -
  assume u: "- 155 \<le> u" "u < 0"
  then have "uint (word_of_int u :: u8) = u + 256"
    by (simp add: unsigned_of_int take_bit_eq_mod) (smt (verit) mod_add_self2 mod_pos_pos_trivial)
  then have "int (unat (word_of_int u :: u8)) = u + 256" by simp
  with u show ?thesis by linarith
qed

end
