(* ===== verification/Scores.thy ===== *)
theory Scores
  imports State Reputation
begin

text \<open>
  Reputation in the executor (\<^verbatim>\<open>executor.rs\<close>, \<^verbatim>\<open>executor/epoch_change.rs\<close>): the submission of
  measurements during an epoch, and at its end the new scores, uptimes and participation of every
  node and the latencies between nodes. The computation proper is the theory \<open>Reputation\<close>.
\<close>

section \<open>Submitting measurements\<close>

definition submit_one ::
    "NodeIndex \<Rightarrow> NodeIndex \<times> ReputationMeasurements \<Rightarrow> app_state \<Rightarrow> app_state option" where
  "submit_one reporting_node pm s =
     (if fst pm = reporting_node then Some s
      else do {
        ok \<leftarrow> has_sufficient_stake s (fst pm);
        Some (if ok \<and> measurements_verify (snd pm)
          then s\<lparr>st_rep_measurements := tbl_set (st_rep_measurements s) (fst pm)
            (unwrap_or (tbl_get (st_rep_measurements s) (fst pm)) []
              @ [\<lparr>rr_reporting_node = reporting_node, rr_measurements = snd pm\<rparr>])\<rparr>
          else s)
      })"

definition submit_reputation_measurements ::
    "TransactionSender \<Rightarrow> (NodeIndex, ReputationMeasurements) table \<Rightarrow> app_state \<Rightarrow>
     (TransactionResponse \<times> app_state) option" where
  "submit_reputation_measurements sender measurements s = do {
     r \<leftarrow> only_node_with_sufficient_stake_and_participating s sender;
     (case r of
        Inl e \<Rightarrow> Some (e, s)
      | Inr reporting_node \<Rightarrow>
          let num_submissions = unwrap_or (tbl_get (st_submitted_rep_measurements s) reporting_node) 0
          in if num_submissions \<ge> MAX_MEASUREMENTS_SUBMIT
             then Some (Revert SubmittedTooManyTransactions, s)
             else let s1 = s\<lparr>st_submitted_rep_measurements :=
                        tbl_set (st_submitted_rep_measurements s) reporting_node (num_submissions + 1)\<rparr>
             in if length measurements > MAX_MEASUREMENTS_PER_TX
                  \<or> length measurements > length (tbl_keys (st_node_info s1))
                then Some (Revert TooManyMeasurements, s1)
                else do {
                  s2 \<leftarrow> for_each (submit_one reporting_node) measurements s1;
                  Some (Success EDNone, s2)
                })
   }"

section \<open>Scores at the end of an epoch\<close>

text \<open>\<^verbatim>\<open>DEFAULT_REP_QUANTILE\<close>, \<^verbatim>\<open>REP_EWMA_WEIGHT\<close> and \<^verbatim>\<open>1.0\<close> as the decimal strings the conversion reads.\<close>

definition DEFAULT_REP_QUANTILE :: "18 HpUfixed option" where
  "DEFAULT_REP_QUANTILE = hp_from_f64 ''0.15''"

definition REP_EWMA_WEIGHT :: "18 HpUfixed option" where
  "REP_EWMA_WEIGHT = hp_from_f64 ''0.7''"

definition MINIMUM_UPTIME :: u8 where
  "MINIMUM_UPTIME = 40"

definition weighted_reports ::
    "nat \<Rightarrow> u8 \<Rightarrow> app_state \<Rightarrow> (NodeIndex, WeightedReputationMeasurements list) table" where
  "weighted_reports min_num_measurements default_score s =
     List.map_filter (\<lambda>i. case tbl_get (st_rep_measurements s) i of
         None \<Rightarrow> None
       | Some reported \<Rightarrow>
           if length reported \<ge> min_num_measurements
           then Some (i, map (\<lambda>m. \<lparr>wrm_measurements = rr_measurements m,
              wrm_weight = unwrap_or (tbl_get (st_rep_scores s) (rr_reporting_node m)) default_score\<rparr>)
              reported)
           else None)
       (tbl_keys (st_rep_measurements s))"

text \<open>The moving average of the old and the new score.\<close>

definition ewma_score :: "u8 \<Rightarrow> u8 \<Rightarrow> u8 \<Rightarrow> u8 option" where
  "ewma_score default_score old_score new_score = do {
     weight \<leftarrow> REP_EWMA_WEIGHT;
     one \<leftarrow> hp_from_f64 ''1'';
     let score = hp_mul (hp_from (unat old_score)) weight
           + hp_mul (one - weight) (hp_from (unat new_score) :: 18 HpUfixed);
     Some (case hp_try_into score :: _ + u128 of
        Inl _ \<Rightarrow> default_score
      | Inr v \<Rightarrow> ucast v)
   }"

definition end_of_epoch_participation :: "Participation \<Rightarrow> Participation" where
  "end_of_epoch_participation p =
     (if p = OptedIn then PTrue else if p = OptedOut then PFalse else p)"

definition score_node ::
    "(NodeIndex, u8) table \<Rightarrow> u8 \<Rightarrow> (NodeIndex, u8 option \<times> u8 option) table \<Rightarrow> NodeIndex \<Rightarrow>
     app_state \<Rightarrow> app_state option" where
  "score_node rep_scores default_score new_rep_scores i s =
     (let (new_score, uptime) = unwrap_or (tbl_get new_rep_scores i) (None, None);
          old_score = unwrap_or (tbl_get rep_scores i) default_score
      in do {
        score \<leftarrow> ewma_score default_score old_score (unwrap_or new_score 0);
        let s1 = s\<lparr>st_rep_scores := tbl_set (st_rep_scores s) i score\<rparr>;
        info \<leftarrow> node s1 i;
        let s2 = set_node_info i
              (info\<lparr>ni_participation := end_of_epoch_participation (ni_participation info)\<rparr>) s1;
        Some (case uptime of
           None \<Rightarrow> s2
         | Some u \<Rightarrow>
             let s3 = s2\<lparr>st_uptime := tbl_set (st_uptime s2) i u\<rparr>
             in if u < MINIMUM_UPTIME then
                  (case node s3 i of
                     Some info' \<Rightarrow> set_node_info i (info'\<lparr>ni_participation := PFalse\<rparr>) s3
                   | None \<Rightarrow> s3)
                else s3)
      })"

section \<open>Latencies\<close>

definition latency_key :: "NodeIndex \<Rightarrow> NodeIndex \<Rightarrow> NodeIndex \<times> NodeIndex" where
  "latency_key n r = (if n < r then (n, r) else (r, n))"

definition add_latency ::
    "NodeIndex \<Rightarrow> ReportedReputationMeasurements \<Rightarrow> (NodeIndex \<times> NodeIndex, Duration) table \<Rightarrow>
     (NodeIndex \<times> NodeIndex, Duration) table" where
  "add_latency n m latency_map =
     (case rm_latency (rr_measurements m) of
        None \<Rightarrow> latency_map
      | Some latency \<Rightarrow>
          let key = latency_key n (rr_reporting_node m)
          in tbl_set latency_map key
               (case tbl_get latency_map key of
                  Some opp \<Rightarrow> (latency + opp) div 2 | None \<Rightarrow> latency))"

definition update_latencies :: "app_state \<Rightarrow> app_state" where
  "update_latencies s =
     (let registry = get_node_registry s;
          s1 = s\<lparr>st_latencies := fold (\<lambda>(l, r) t.
                 if l \<notin> fst ` set registry \<or> r \<notin> fst ` set registry then tbl_remove t (l, r) else t)
               (tbl_keys (st_latencies s)) (st_latencies s)\<rparr>;
          latency_map = fold (\<lambda>n lm. fold (add_latency n)
               (unwrap_or (tbl_get (st_rep_measurements s1) n) []) lm)
             (tbl_keys (st_rep_measurements s1)) []
      in s1\<lparr>st_latencies := fold (\<lambda>((l, r), latency) t.
             if node s1 l \<noteq> None \<and> node s1 r \<noteq> None then tbl_set t (l, r) latency else t)
           latency_map (st_latencies s1)\<rparr>)"

section \<open>The whole computation\<close>

definition min_num_measurements_of :: "app_state \<Rightarrow> u64 option" where
  "min_num_measurements_of s =
     (case tbl_get (st_parameters s) ProtocolParamKey.MinNumMeasurements of
        Some (ProtocolParamValue.MinNumMeasurements v) \<Rightarrow> Some v | _ \<Rightarrow> None)"

definition clear_measurements :: "app_state \<Rightarrow> app_state" where
  "clear_measurements s =
     s\<lparr>st_rep_measurements := fold (\<lambda>i t. tbl_remove t i)
         (tbl_keys (st_rep_measurements s)) (st_rep_measurements s),
       st_submitted_rep_measurements := fold (\<lambda>i t. tbl_remove t i)
         (tbl_keys (st_submitted_rep_measurements s)) (st_submitted_rep_measurements s)\<rparr>"

definition executor_reputation_scores :: "app_state \<Rightarrow> app_state option" where
  "executor_reputation_scores s = do {
     quantile \<leftarrow> DEFAULT_REP_QUANTILE;
     q \<leftarrow> approx_quantile (map snd (tbl_as_map (st_rep_scores s))) quantile;
     let default_score = unwrap_or q 15;
     min_num \<leftarrow> min_num_measurements_of s;
     let reports = weighted_reports (unat min_num) default_score s;
     let s1 = s\<lparr>st_uptime := fold (\<lambda>i t. tbl_remove t i) (tbl_keys (st_uptime s)) (st_uptime s)\<rparr>;
     new_rep_scores \<leftarrow> calculate_reputation_scores reports;
     s2 \<leftarrow> for_each (score_node (st_rep_scores s) default_score new_rep_scores)
            (tbl_keys (st_node_info s1)) s1;
     Some (clear_measurements (update_latencies s2))
   }"

end
