(* ===== verification/Auction.thy ===== *)
theory Auction
  imports State "HOL-Library.Multiset"
begin

text \<open>
  The staking auction of \<^verbatim>\<open>executor.rs\<close>: \<^verbatim>\<open>settle_auction\<close> keeps the \<^verbatim>\<open>NodeCount\<close> nodes with the
  highest stake, ties broken by reputation, with an in-place quickselect (\<^verbatim>\<open>quick_sort_nodes\<close>,
  \<^verbatim>\<open>partition_nodes\<close>). The selection is written over an arbitrary comparison and proved correct
  once, in the locale \<open>selection\<close>, for every total preorder; \<^verbatim>\<open>compare_nodes_in_auction\<close> is one.
  An index out of bounds is a panic (\<^const>\<open>None\<close>), and so is a recursion that does not end.
\<close>

section \<open>The selection\<close>

definition swap_at :: "'a list \<Rightarrow> nat \<Rightarrow> nat \<Rightarrow> 'a list" where
  "swap_at xs i j = xs[i := xs ! j, j := xs ! i]"

definition partition_step ::
    "('a \<Rightarrow> 'a \<Rightarrow> bool) \<Rightarrow> 'a \<Rightarrow> nat \<Rightarrow> 'a list \<times> nat \<Rightarrow> 'a list \<times> nat" where
  "partition_step le pivot j st =
     (case st of (nodes, i) \<Rightarrow>
        if le (nodes ! j) pivot then (swap_at nodes j i, i + 1) else (nodes, i))"

definition partition_with ::
    "('a \<Rightarrow> 'a \<Rightarrow> bool) \<Rightarrow> 'a list \<Rightarrow> nat \<Rightarrow> nat \<Rightarrow> ('a list \<times> nat) option" where
  "partition_with le nodes l r =
     (if r \<ge> length nodes then None
      else let pivot = nodes ! r;
               (nodes', i) = fold (partition_step le pivot) [l..<r] (nodes, l)
           in if i \<ge> length nodes' then None else Some (swap_at nodes' i r, i))"

partial_function (option) quickselect ::
    "('a \<Rightarrow> 'a \<Rightarrow> bool) \<Rightarrow> 'a list \<Rightarrow> nat \<Rightarrow> nat \<Rightarrow> nat \<Rightarrow> 'a list option" where
  "quickselect le nodes l r k =
     Option.bind (partition_with le nodes l r) (\<lambda>(nodes', pivot).
       if pivot = k - 1 then Some (drop (pivot + 1) nodes')
       else if pivot > k - 1 then quickselect le nodes' l (pivot - 1) k
       else quickselect le nodes' (pivot + 1) r k)"

declare quickselect.simps [code]

lemma length_swap_at [simp]: "length (swap_at xs i j) = length xs"
  by (simp add: swap_at_def)

lemma nth_swap_at:
  "i < length xs \<Longrightarrow> j < length xs \<Longrightarrow>
   swap_at xs i j ! m = (if m = j then xs ! i else if m = i then xs ! j else xs ! m)"
  by (auto simp: swap_at_def nth_list_update)

lemma mset_swap_at: "i < length xs \<Longrightarrow> j < length xs \<Longrightarrow> mset (swap_at xs i j) = mset xs"
  by (simp add: swap_at_def mset_swap)

text \<open>The elements outside \<open>[l, r]\<close> stay, and those inside come from inside.\<close>

definition permutes_segment :: "nat \<Rightarrow> nat \<Rightarrow> 'a list \<Rightarrow> 'a list \<Rightarrow> bool" where
  "permutes_segment l r xs ys \<longleftrightarrow>
     mset ys = mset xs \<and> length ys = length xs \<and>
     (\<forall>m. m < l \<or> r < m \<longrightarrow> ys ! m = xs ! m) \<and>
     (\<forall>m. l \<le> m \<and> m \<le> r \<longrightarrow> (\<exists>m'. l \<le> m' \<and> m' \<le> r \<and> ys ! m = xs ! m'))"

lemma permutes_segment_refl [simp]: "permutes_segment l r xs xs"
  by (auto simp: permutes_segment_def)

lemma permutes_segment_swap:
  assumes "permutes_segment l r xs ys" and "l \<le> i" "i \<le> r" "l \<le> j" "j \<le> r" "r < length xs"
  shows "permutes_segment l r xs (swap_at ys i j)"
  using assms unfolding permutes_segment_def
  by (simp add: mset_swap_at nth_swap_at)

section \<open>Correctness for every total preorder\<close>

locale selection =
  fixes le :: "'a \<Rightarrow> 'a \<Rightarrow> bool"
  assumes total: "le a b \<or> le b a"
    and trans: "le a b \<Longrightarrow> le b c \<Longrightarrow> le a c"
begin

definition split_at_index :: "nat \<Rightarrow> 'a list \<Rightarrow> bool" where
  "split_at_index k xs \<longleftrightarrow> (\<forall>a b. a < k \<longrightarrow> k \<le> b \<longrightarrow> b < length xs \<longrightarrow> le (xs ! a) (xs ! b))"

lemma partition_loop:
  assumes "fold (partition_step le p) [l..<j] (xs, l) = (ys, i)" "l \<le> j" "j \<le> r" "r < length xs"
  shows "permutes_segment l r xs ys \<and> l \<le> i \<and> i \<le> j \<and>
    (\<forall>m. l \<le> m \<and> m < i \<longrightarrow> le (ys ! m) p) \<and> (\<forall>m. i \<le> m \<and> m < j \<longrightarrow> \<not> le (ys ! m) p) \<and>
    (\<forall>m\<ge>j. ys ! m = xs ! m)"
  using assms
proof (induction j arbitrary: ys i)
  case (Suc j)
  show ?case
  proof (cases "l = Suc j")
    case False
    with Suc.prems have lj: "l \<le> j" by simp
    obtain zs h where zs: "fold (partition_step le p) [l..<j] (xs, l) = (zs, h)" by fastforce
    note IH = Suc.IH[OF zs lj _ Suc.prems(4)]
    have step: "(ys, i) = partition_step le p j (zs, h)"
      using Suc.prems(1) zs lj by simp
    have len: "length zs = length xs" and hj: "h \<le> j" "l \<le> h" and jr: "j \<le> r"
      using IH Suc.prems(3) by (auto simp: permutes_segment_def)
    show ?thesis
    proof (cases "le (zs ! j) p")
      case True
      then have ys: "ys = swap_at zs j h" "i = h + 1" using step by (simp_all add: partition_step_def)
      have perm: "permutes_segment l r xs ys"
        unfolding ys using IH jr hj lj Suc.prems by (intro permutes_segment_swap) auto
      have nth: "ys ! m = (if m = h then zs ! j else if m = j then zs ! h else zs ! m)" for m
        unfolding ys using hj jr len Suc.prems by (intro nth_swap_at) auto
      show ?thesis
        using IH perm True hj jr by (auto simp: nth ys(2) less_Suc_eq)
    next
      case False
      then have "ys = zs" "i = h" using step by (simp_all add: partition_step_def)
      with IH False hj jr show ?thesis by (auto simp: less_Suc_eq)
    qed
  qed (use Suc.prems in auto)
qed auto

lemma partition_correct:
  assumes lr: "l \<le> r" and r: "r < length xs"
  obtains ys i where "partition_with le xs l r = Some (ys, i)" "permutes_segment l r xs ys"
    "l \<le> i" "i \<le> r" "\<And>m. l \<le> m \<Longrightarrow> m < i \<Longrightarrow> le (ys ! m) (ys ! i)"
    "\<And>m. i < m \<Longrightarrow> m \<le> r \<Longrightarrow> le (ys ! i) (ys ! m)"
proof -
  obtain zs i where zs: "fold (partition_step le (xs ! r)) [l..<r] (xs, l) = (zs, i)" by fastforce
  note inv = partition_loop[OF zs lr order_refl r]
  have len: "length zs = length xs" using inv by (simp add: permutes_segment_def)
  have nth: "swap_at zs i r ! m = (if m = r then zs ! i else if m = i then xs ! r else zs ! m)" for m
    using inv r len nth_swap_at[of i zs r] by auto
  show thesis
  proof
    show "partition_with le xs l r = Some (swap_at zs i r, i)"
      using zs r inv len by (auto simp: partition_with_def)
    show "permutes_segment l r xs (swap_at zs i r)"
      using inv lr r by (intro permutes_segment_swap) auto
    show "l \<le> i" "i \<le> r" using inv by auto
    show "le (swap_at zs i r ! m) (swap_at zs i r ! i)" if "l \<le> m" "m < i" for m
      using that inv by (auto simp: nth)
    show "le (swap_at zs i r ! i) (swap_at zs i r ! m)" if "i < m" "m \<le> r" for m
      using that inv total[of "xs ! r" "zs ! m"] total[of "xs ! r" "zs ! i"]
      by (auto simp: nth)
  qed
qed

lemma split_permutes:
  assumes "permutes_segment l r xs ys" "r < length xs" and k: "k \<le> l \<or> r < k"
    and "split_at_index k xs"
  shows "split_at_index k ys"
  unfolding split_at_index_def
proof (intro allI impI)
  fix a b assume ab: "a < k" "k \<le> b" "b < length ys"
  have src: "\<exists>m'. ys ! m = xs ! m' \<and> (l \<le> m \<and> m \<le> r \<longrightarrow> l \<le> m' \<and> m' \<le> r) \<and>
      (m < l \<or> r < m \<longrightarrow> m' = m)" for m
    using assms(1) unfolding permutes_segment_def by (metis not_le)
  obtain a' where a': "ys ! a = xs ! a'" "l \<le> a \<and> a \<le> r \<longrightarrow> l \<le> a' \<and> a' \<le> r"
      "a < l \<or> r < a \<longrightarrow> a' = a" using src by blast
  obtain b' where b': "ys ! b = xs ! b'" "l \<le> b \<and> b \<le> r \<longrightarrow> l \<le> b' \<and> b' \<le> r"
      "b < l \<or> r < b \<longrightarrow> b' = b" using src by blast
  have len: "length ys = length xs" using assms(1) by (simp add: permutes_segment_def)
  have "a' < k" using ab(1) a'(2,3) k by linarith
  moreover have "k \<le> b'" using ab(2) b'(2,3) k by linarith
  moreover have "b' < length xs" using ab(3) b'(2,3) assms(2) len by linarith
  ultimately show "le (ys ! a) (ys ! b)"
    using assms(4) a'(1) b'(1) unfolding split_at_index_def by simp
qed

lemma quickselect_correct:
  assumes "l \<le> k - 1" "k - 1 \<le> r" "r < length xs" "0 < k"
    and "split_at_index l xs" "split_at_index (Suc r) xs"
  shows "\<exists>ys. quickselect le xs l r k = Some (drop k ys) \<and> mset ys = mset xs \<and> split_at_index k ys"
  using assms
proof (induction "Suc r - l" arbitrary: xs l r rule: less_induct)
  case less
  obtain ys i where part: "partition_with le xs l r = Some (ys, i)"
      and perm: "permutes_segment l r xs ys" and i: "l \<le> i" "i \<le> r"
      and low: "\<And>m. l \<le> m \<Longrightarrow> m < i \<Longrightarrow> le (ys ! m) (ys ! i)"
      and high: "\<And>m. i < m \<Longrightarrow> m \<le> r \<Longrightarrow> le (ys ! i) (ys ! m)"
    using partition_correct[of l r xs] less.prems(1-3) by (metis order.trans)
  have len: "length ys = length xs" and ms: "mset ys = mset xs"
    using perm by (simp_all add: permutes_segment_def)
  have spl: "split_at_index l ys" "split_at_index (Suc r) ys"
    using split_permutes[OF perm] less.prems by auto
  have below: "le (ys ! a) (ys ! i)" if "a < i" for a
    using that low[of a] spl(1) i len less.prems unfolding split_at_index_def
    by (cases "l \<le> a") auto
  have above: "le (ys ! i) (ys ! b)" if "i < b" "b < length xs" for b
    using that high[of b] spl(2) i len less.prems unfolding split_at_index_def
    by (cases "b \<le> r") auto
  have cross: "le (ys ! a) (ys ! b)" if "a < i" "i < b" "b < length xs" for a b
    using trans below[OF that(1)] above[OF that(2,3)] by blast
  have at_i: "split_at_index i ys"
    unfolding split_at_index_def len using below cross by (metis le_neq_implies_less)
  have at_Suc: "split_at_index (Suc i) ys"
    unfolding split_at_index_def len using above cross by (metis less_antisym Suc_le_lessD)
  consider "i = k - 1" | "k - 1 < i" | "i < k - 1" by linarith
  then show ?case
  proof cases
    case 1
    then have "quickselect le xs l r k = Some (drop k ys)"
      using part less.prems by (subst quickselect.simps) simp
    then show ?thesis using ms at_Suc 1 less.prems by (intro exI[of _ ys]) simp
  next
    case 2
    have "quickselect le xs l r k = quickselect le ys l (i - 1) k"
      using part 2 by (subst quickselect.simps) simp
    moreover have "\<exists>zs. quickselect le ys l (i - 1) k = Some (drop k zs) \<and> mset zs = mset ys
        \<and> split_at_index k zs"
    proof (rule less.hyps)
      show "split_at_index (Suc (i - 1)) ys" using at_i 2 by simp
    qed (use 2 i len less.prems(1-4) spl(1) in simp_all)
    ultimately show ?thesis using ms by auto
  next
    case 3
    have "quickselect le xs l r k = quickselect le ys (i + 1) r k"
      using part 3 by (subst quickselect.simps) simp
    moreover have "\<exists>zs. quickselect le ys (i + 1) r k = Some (drop k zs) \<and> mset zs = mset ys
        \<and> split_at_index k zs"
    proof (rule less.hyps)
      show "split_at_index (i + 1) ys" using at_Suc by simp
    qed (use 3 i len less.prems(1-4) spl(2) in simp_all)
    ultimately show ?thesis using ms by auto
  qed
qed

text \<open>The selection of the \<open>n\<close> greatest elements: it returns, and nothing it drops beats what it keeps.\<close>

lemma select_greatest:
  assumes "n < length xs"
  shows "\<exists>kept dropped. quickselect le xs 0 (length xs - 1) (length xs - n) = Some kept \<and>
    length kept = n \<and> mset xs = mset dropped + mset kept \<and>
    (\<forall>a \<in> set dropped. \<forall>b \<in> set kept. le a b)"
proof -
  let ?k = "length xs - n"
  obtain ys where ys: "quickselect le xs 0 (length xs - 1) ?k = Some (drop ?k ys)"
      and ms: "mset ys = mset xs" and sp: "split_at_index ?k ys"
  proof -
    have "split_at_index 0 xs" "split_at_index (Suc (length xs - 1)) xs"
      using assms by (auto simp: split_at_index_def)
    then show thesis
      using quickselect_correct[of 0 ?k "length xs - 1" xs] assms that by force
  qed
  have len: "length ys = length xs" using ms by (metis size_mset)
  have "mset xs = mset (take ?k ys) + mset (drop ?k ys)"
    by (metis ms append_take_drop_id mset_append)
  moreover have "\<forall>a \<in> set (take ?k ys). \<forall>b \<in> set (drop ?k ys). le a b"
    using sp unfolding split_at_index_def
    by (auto simp: in_set_conv_nth)
  ultimately show ?thesis using ys len assms
    by (intro exI[of _ "drop ?k ys"] exI[of _ "take ?k ys"]) simp
qed

end

section \<open>The auction\<close>

definition rep_score :: "app_state \<Rightarrow> NodeIndex \<Rightarrow> u8" where
  "rep_score s i = unwrap_or (tbl_get (st_rep_scores s) i) 0"

definition compare_nodes_in_auction ::
    "app_state \<Rightarrow> NodeIndex \<times> NodeInfo \<Rightarrow> NodeIndex \<times> NodeInfo \<Rightarrow> bool" where
  "compare_nodes_in_auction s pos pivot =
     (let a = stk_staked (ni_stake (snd pos)); b = stk_staked (ni_stake (snd pivot))
      in if a < b then True else if a > b then False
         else rep_score s (fst pos) \<le> rep_score s (fst pivot))"

definition partition_nodes ::
    "app_state \<Rightarrow> (NodeIndex \<times> NodeInfo) list \<Rightarrow> nat \<Rightarrow> nat \<Rightarrow>
     ((NodeIndex \<times> NodeInfo) list \<times> nat) option" where
  "partition_nodes s = partition_with (compare_nodes_in_auction s)"

definition quick_sort_nodes ::
    "app_state \<Rightarrow> (NodeIndex \<times> NodeInfo) list \<Rightarrow> nat \<Rightarrow> nat \<Rightarrow> nat \<Rightarrow>
     (NodeIndex \<times> NodeInfo) list option" where
  "quick_sort_nodes s = quickselect (compare_nodes_in_auction s)"

definition settle_auction ::
    "app_state \<Rightarrow> (NodeIndex \<times> NodeInfo) list \<Rightarrow> (NodeIndex \<times> NodeInfo) list option" where
  "settle_auction s nodes =
     (case tbl_get (st_parameters s) ProtocolParamKey.NodeCount of
        Some (ProtocolParamValue.NodeCount v) \<Rightarrow>
          let node_count = unat v; total_nodes = length nodes
          in if total_nodes \<le> node_count then Some nodes
             else let k = total_nodes - node_count; r = total_nodes - 1
                  in quick_sort_nodes s nodes 0 r k
      | _ \<Rightarrow> None)"

interpretation auction: selection "compare_nodes_in_auction s" for s
  by unfold_locales (auto simp: compare_nodes_in_auction_def Let_def split: if_splits)

lemma settle_auction_keeps:
  assumes "tbl_get (st_parameters s) ProtocolParamKey.NodeCount = Some (ProtocolParamValue.NodeCount v)"
  shows "\<exists>kept dropped. settle_auction s nodes = Some kept \<and>
    length kept = min (unat v) (length nodes) \<and> mset nodes = mset dropped + mset kept \<and>
    (\<forall>a \<in> set dropped. \<forall>b \<in> set kept. compare_nodes_in_auction s a b)"
proof (cases "length nodes \<le> unat v")
  case True
  then show ?thesis
    using assms by (intro exI[of _ nodes] exI[of _ "[]"]) (simp add: settle_auction_def)
next
  case False
  then have "settle_auction s nodes = quickselect (compare_nodes_in_auction s) nodes 0
      (length nodes - 1) (length nodes - unat v)"
    using assms by (simp add: settle_auction_def quick_sort_nodes_def Let_def)
  with False auction.select_greatest[of "unat v" nodes s] show ?thesis
    by (simp add: min_def)
qed

end
