(* ===== verification/Rewards.thy ===== *)
theory Rewards
  imports State
begin

text \<open>
  Rewards (\<^verbatim>\<open>executor.rs\<close>, \<^verbatim>\<open>executor/epoch_change.rs\<close>): the minting of stables and FLK, the boost of
  locked stakes, the emissions of an epoch and their distribution to nodes, services and the
  protocol fund. The source keeps two local hash maps over the served nodes; their iteration order
  only changes the order of additions.
\<close>

section \<open>Operations\<close>

definition mint_and_transfer_stables :: "6 HpUfixed \<Rightarrow> EthAddress \<Rightarrow> app_state \<Rightarrow> app_state" where
  "mint_and_transfer_stables amount owner s =
     (let acc = account s owner
      in set_account_info owner (acc\<lparr>acc_stables_balance := acc_stables_balance acc + amount\<rparr>) s)"

definition get_epochs_per_year :: "app_state \<Rightarrow> u64 option" where
  "get_epochs_per_year s =
     (case tbl_get (st_parameters s) ProtocolParamKey.EpochsPerYear of
        Some (ProtocolParamValue.EpochsPerYear v) \<Rightarrow> Some v | _ \<Rightarrow> None)"

definition get_total_supply :: "app_state \<Rightarrow> 18 HpUfixed option" where
  "get_total_supply s =
     (case tbl_get (st_metadata s) Metadata.TotalSupply of Some (VHpUfixed v) \<Rightarrow> Some v | _ \<Rightarrow> None)"

definition mint_and_transfer_flk :: "18 HpUfixed \<Rightarrow> EthAddress \<Rightarrow> app_state \<Rightarrow> app_state option" where
  "mint_and_transfer_flk amount owner s =
     (let acc = account s owner;
          s1 = set_account_info owner (acc\<lparr>acc_flk_balance := acc_flk_balance acc + amount\<rparr>) s
      in do {
        supply \<leftarrow> get_total_supply s1;
        epoch_per_year \<leftarrow> get_epochs_per_year s1;
        let supply' = supply + amount;
        let s2 = set_metadata Metadata.TotalSupply (VHpUfixed supply') s1;
        if epoch_per_year = 0 then None
        else if (get_epoch s2 + 1) mod epoch_per_year = 0
        then Some (set_metadata Metadata.SupplyYearStart (VHpUfixed supply') s2)
        else Some s2
      })"

definition get_boost :: "app_state \<Rightarrow> u64 \<Rightarrow> Epoch \<Rightarrow> 3 HpUfixed option" where
  "get_boost s locked_until current_epoch =
     (let max_boost = (case tbl_get (st_parameters s) ProtocolParamKey.MaxBoost of
            Some (ProtocolParamValue.MaxBoost v) \<Rightarrow> hp_from (unat v) | _ \<Rightarrow> hp_from 1);
          max_lock_time = (case tbl_get (st_parameters s) ProtocolParamKey.MaxStakeLockTime of
            Some (ProtocolParamValue.MaxStakeLockTime v) \<Rightarrow> hp_from (unat v) | _ \<Rightarrow> hp_from 1);
          min_boost = hp_from 1;
          locking_period = hp_from (unat (saturating_sub locked_until current_epoch))
      in do {
        q \<leftarrow> hp_div locking_period max_lock_time;
        Some (hp_min max_boost (min_boost + hp_mul (max_boost - min_boost) q))
      })"

definition calculate_emissions :: "app_state \<Rightarrow> 18 HpUfixed option" where
  "calculate_emissions s =
     (let inflation_percent = (case tbl_get (st_parameters s) ProtocolParamKey.MaxInflation of
            Some (ProtocolParamValue.MaxInflation v) \<Rightarrow> hp_from (unat v) | _ \<Rightarrow> hp_from 0)
      in do {
        epoch_per_year \<leftarrow> get_epochs_per_year s;
        inflation \<leftarrow> map_option convert_precision
          (hp_div (inflation_percent :: 18 HpUfixed) (hp_from 100));
        supply \<leftarrow> (case tbl_get (st_metadata s) Metadata.SupplyYearStart of
            Some (VHpUfixed v) \<Rightarrow> Some v | _ \<Rightarrow> None);
        hp_div (hp_mul (inflation :: 18 HpUfixed) (convert_precision supply)) (hp_from (unat epoch_per_year))
      })"

text \<open>A share parameter in percent, as a fraction: \<^verbatim>\<open>HpUfixed::<18>::from(v) / BIG_HUNDRED\<close>.\<close>

definition node_share_of :: "app_state \<Rightarrow> 18 HpUfixed option" where
  "node_share_of s =
     (case tbl_get (st_parameters s) ProtocolParamKey.NodeShare of
        Some (ProtocolParamValue.NodeShare v) \<Rightarrow> hp_div (hp_from (unat v)) (hp_from 100) | _ \<Rightarrow> None)"

definition service_share_of :: "app_state \<Rightarrow> 18 HpUfixed option" where
  "service_share_of s =
     (case tbl_get (st_parameters s) ProtocolParamKey.ServiceBuilderShare of
        Some (ProtocolParamValue.ServiceBuilderShare v) \<Rightarrow> hp_div (hp_from (unat v)) (hp_from 100)
      | _ \<Rightarrow> None)"

definition protocol_share_of :: "app_state \<Rightarrow> 18 HpUfixed option" where
  "protocol_share_of s =
     (case tbl_get (st_parameters s) ProtocolParamKey.ProtocolShare of
        Some (ProtocolParamValue.ProtocolShare v) \<Rightarrow> hp_div (hp_from (unat v)) (hp_from 100) | _ \<Rightarrow> None)"

text \<open>The first loop: pay the stables of a node and compute its boosted share of the service.\<close>

definition reward_share ::
    "Epoch \<Rightarrow> 6 HpUfixed \<Rightarrow> 18 HpUfixed \<Rightarrow> NodeIndex \<Rightarrow>
     (app_state \<times> 18 HpUfixed \<times> (NodeIndex, NodeInfo \<times> 18 HpUfixed) table) \<Rightarrow>
     (app_state \<times> 18 HpUfixed \<times> (NodeIndex, NodeInfo \<times> 18 HpUfixed) table) option" where
  "reward_share epoch reward_pool node_share i st =
     (case st of (s, total_reward_share, shares) \<Rightarrow> do {
        info \<leftarrow> node s i;
        let stables_revenue = ns_stables_revenue (unwrap_or (tbl_get (st_current_epoch_served s) i)
              \<lparr>ns_served = [], ns_stables_revenue = 0\<rparr>);
        proportion \<leftarrow> hp_div (convert_precision stables_revenue :: 18 HpUfixed)
          (convert_precision reward_pool);
        let s' = mint_and_transfer_stables (hp_mul stables_revenue (convert_precision node_share))
              (ni_owner info) s;
        boost \<leftarrow> get_boost s' (stk_stake_locked_until (ni_stake info)) epoch;
        let local_share = hp_mul proportion (convert_precision boost);
        Some (s', total_reward_share + local_share, tbl_set shares i (info, local_share))
      })"

text \<open>The second loop: pay the FLK of a node and clear its record of the epoch.\<close>

definition pay_node ::
    "18 HpUfixed \<Rightarrow> NodeIndex \<times> NodeInfo \<times> 18 HpUfixed \<Rightarrow> app_state \<Rightarrow> app_state option" where
  "pay_node base_reward e s =
     (case e of (i, info, local_share) \<Rightarrow> do {
        s' \<leftarrow> mint_and_transfer_flk (hp_mul base_reward local_share) (ni_owner info) s;
        Some (s'\<lparr>st_current_epoch_served := tbl_remove (st_current_epoch_served s') i\<rparr>)
      })"

definition pay_service ::
    "6 HpUfixed \<Rightarrow> 6 HpUfixed \<Rightarrow> 18 HpUfixed \<Rightarrow> ServiceId \<Rightarrow> app_state \<Rightarrow> app_state option" where
  "pay_service reward_pool stable_pool flk_pool service_id s = do {
     service \<leftarrow> tbl_get (st_services s) service_id;
     let revenue = unwrap_or (tbl_get (st_service_revenue s) service_id) 0;
     proportion \<leftarrow> hp_div (convert_precision revenue :: 18 HpUfixed) (convert_precision reward_pool);
     let s1 = mint_and_transfer_stables (hp_mul stable_pool (convert_precision proportion))
           (svc_owner service) s;
     s2 \<leftarrow> mint_and_transfer_flk (hp_mul flk_pool (convert_precision proportion)) (svc_owner service) s1;
     Some (s2\<lparr>st_service_revenue := tbl_remove (st_service_revenue s2) service_id\<rparr>)
   }"

text \<open>The three parts of \<^verbatim>\<open>distribute_rewards\<close>: the nodes, the services, the protocol fund.\<close>

definition reward_nodes ::
    "6 HpUfixed \<Rightarrow> 18 HpUfixed \<Rightarrow> 18 HpUfixed \<Rightarrow> app_state \<Rightarrow> app_state option" where
  "reward_nodes reward_pool node_share emissions s = do {
     (s1, total_reward_share, shares) \<leftarrow> for_each (reward_share (get_epoch s) reward_pool node_share)
       (tbl_keys (st_current_epoch_served s)) (s, hp_from 0, []);
     base_reward \<leftarrow> hp_div (hp_mul emissions node_share) total_reward_share;
     for_each (pay_node base_reward) shares s1
   }"

definition reward_services :: "6 HpUfixed \<Rightarrow> 18 HpUfixed \<Rightarrow> app_state \<Rightarrow> app_state option" where
  "reward_services reward_pool emissions s = do {
     service_share \<leftarrow> service_share_of s;
     for_each (pay_service reward_pool (hp_mul reward_pool (convert_precision service_share))
         (hp_mul emissions service_share)) (tbl_keys (st_service_revenue s)) s
   }"

definition reward_protocol :: "6 HpUfixed \<Rightarrow> 18 HpUfixed \<Rightarrow> app_state \<Rightarrow> app_state option" where
  "reward_protocol reward_pool emissions s = do {
     protocol_share \<leftarrow> protocol_share_of s;
     protocol_owner \<leftarrow> (case tbl_get (st_metadata s) Metadata.ProtocolFundAddress of
        Some (AccountPublicKey a) \<Rightarrow> Some a | _ \<Rightarrow> None);
     mint_and_transfer_flk (hp_mul emissions protocol_share) protocol_owner
       (mint_and_transfer_stables (hp_mul reward_pool (convert_precision protocol_share)) protocol_owner s)
   }"

definition distribute_rewards :: "app_state \<Rightarrow> app_state option" where
  "distribute_rewards s =
     (let reward_pool = ts_reward_pool (unwrap_or (tbl_get (st_total_served s) (get_epoch s))
            \<lparr>ts_served = [], ts_reward_pool = 0\<rparr>)
      in if reward_pool = 0 then Some s
         else do {
           node_share \<leftarrow> node_share_of s;
           emissions \<leftarrow> calculate_emissions s;
           s1 \<leftarrow> reward_nodes reward_pool node_share emissions s;
           s2 \<leftarrow> reward_services reward_pool emissions s1;
           reward_protocol reward_pool emissions s2
         })"

section \<open>What the payments preserve\<close>

text \<open>
  A property that the two mints and the clearing of the epoch's records keep is kept by the whole
  distribution.
\<close>

locale payment_invariant =
  fixes P :: "app_state \<Rightarrow> bool"
  assumes stables: "P s \<Longrightarrow> P (mint_and_transfer_stables x owner s)"
    and flk: "P s \<Longrightarrow> mint_and_transfer_flk y owner s = Some s' \<Longrightarrow> P s'"
    and served: "P s \<Longrightarrow> P (s\<lparr>st_current_epoch_served := t\<rparr>)"
    and revenue: "P s \<Longrightarrow> P (s\<lparr>st_service_revenue := u\<rparr>)"
begin

lemma pay_node_keeps: "pay_node base e s = Some s' \<Longrightarrow> P s \<Longrightarrow> P s'"
  by (auto simp: pay_node_def bind_eq_Some_conv split: prod.splits intro: served dest: flk)

lemma reward_share_keeps: "reward_share e p n i st = Some st' \<Longrightarrow> P (fst st) \<Longrightarrow> P (fst st')"
  by (cases st) (auto simp: reward_share_def Let_def bind_eq_Some_conv stables)

lemma pay_service_keeps: "pay_service p sp fp i s = Some s' \<Longrightarrow> P s \<Longrightarrow> P s'"
  by (auto simp: pay_service_def Let_def bind_eq_Some_conv intro: revenue dest: flk[OF stables])

lemma reward_nodes_keeps:
  assumes "reward_nodes p n e s = Some s'" "P s"
  shows "P s'"
proof -
  obtain st base where st: "for_each (reward_share (get_epoch s) p n)
        (tbl_keys (st_current_epoch_served s)) (s, hp_from 0, []) = Some st"
      "for_each (pay_node base) (snd (snd st)) (fst st) = Some s'"
    using assms(1) by (auto simp: reward_nodes_def bind_eq_Some_conv split: prod.splits)
  have "P (fst st)"
    using for_each_invariant[OF st(1), of "\<lambda>st. P (fst st)"] assms(2) reward_share_keeps by fastforce
  then show ?thesis using for_each_invariant[OF st(2), of P] pay_node_keeps by blast
qed

lemma reward_services_keeps:
  assumes "reward_services p e s = Some s'" "P s"
  shows "P s'"
proof -
  obtain sp fp where "for_each (pay_service p sp fp) (tbl_keys (st_service_revenue s)) s = Some s'"
    using assms(1) by (auto simp: reward_services_def bind_eq_Some_conv)
  then show ?thesis using for_each_invariant[of _ _ s s' P] pay_service_keeps assms(2) by blast
qed

lemma reward_protocol_keeps: "reward_protocol p e s = Some s' \<Longrightarrow> P s \<Longrightarrow> P s'"
  by (auto simp: reward_protocol_def bind_eq_Some_conv dest: flk[OF stables])

lemma distribute_rewards_keeps:
  assumes "distribute_rewards s = Some s'" "P s"
  shows "P s'"
  using assms
  by (auto simp: distribute_rewards_def Let_def bind_eq_Some_conv split: if_splits
      dest: reward_nodes_keeps reward_services_keeps reward_protocol_keeps)

end

section \<open>The supply follows the balances\<close>

text \<open>
  All FLK held by accounts and by nodes (staked and locked). The amounts are 256-bit words, so the
  sums are taken in the group of words; they are the real sums as long as those stay below \<open>2^256\<close>.
\<close>

definition flk_total :: "app_state \<Rightarrow> 18 HpUfixed" where
  "flk_total s = tbl_total acc_flk_balance (st_account_info s)
     + tbl_total (\<lambda>n. stk_staked (ni_stake n) + stk_locked (ni_stake n)) (st_node_info s)"

definition balance_tables_wf :: "app_state \<Rightarrow> bool" where
  "balance_tables_wf s \<longleftrightarrow> tbl_wf (st_account_info s) \<and> tbl_wf (st_node_info s)"

lemma acc_default [simp]: "acc_flk_balance AccountInfo_default = 0"
  by (simp add: AccountInfo_default_def)

lemma account_flk: "(case tbl_get t a of None \<Rightarrow> 0 | Some w \<Rightarrow> acc_flk_balance w) =
    acc_flk_balance (unwrap_or (tbl_get t a) AccountInfo_default)"
  by (cases "tbl_get t a") simp_all

lemma flk_total_account:
  assumes "balance_tables_wf s"
  shows "flk_total (set_account_info a acc s) =
    flk_total s + (acc_flk_balance acc - acc_flk_balance (account s a))"
  using assms by (simp add: flk_total_def set_account_info_def balance_tables_wf_def tbl_total_set
      account_flk)

lemma flk_total_node:
  assumes "balance_tables_wf s" "node s i = Some n"
  shows "flk_total (set_node_info i n' s) = flk_total s
    + (stk_staked (ni_stake n') + stk_locked (ni_stake n') - (stk_staked (ni_stake n) + stk_locked (ni_stake n)))"
  using assms by (simp add: flk_total_def set_node_info_def balance_tables_wf_def tbl_total_set)

lemma balance_tables_wf_set [simp]:
  "balance_tables_wf s \<Longrightarrow> balance_tables_wf (set_account_info a acc s)"
  "balance_tables_wf s \<Longrightarrow> balance_tables_wf (set_node_info i n s)"
  "balance_tables_wf (set_metadata k v s) = balance_tables_wf s"
  by (simp_all add: balance_tables_wf_def set_defs)

lemma flk_total_metadata [simp]: "flk_total (set_metadata k v s) = flk_total s"
  by (simp add: flk_total_def set_metadata_def)

text \<open>The FLK in circulation exceeds the recorded total supply by \<open>c\<close>.\<close>

definition supply_gap :: "18 HpUfixed \<Rightarrow> app_state \<Rightarrow> bool" where
  "supply_gap c s \<longleftrightarrow> balance_tables_wf s \<and>
     (\<exists>x. get_total_supply s = Some x \<and> flk_total s = x + c)"

lemma supply_gap_other [simp]:
  "supply_gap c (s\<lparr>st_current_epoch_served := x\<rparr>) = supply_gap c s"
  "supply_gap c (s\<lparr>st_service_revenue := y\<rparr>) = supply_gap c s"
  by (simp_all add: supply_gap_def balance_tables_wf_def flk_total_def get_total_supply_def)

lemma get_total_supply_set [simp]:
  "get_total_supply (set_account_info a acc s) = get_total_supply s"
  "get_total_supply (set_node_info i n s) = get_total_supply s"
  "get_total_supply (set_metadata Metadata.TotalSupply (VHpUfixed v) s) = Some v"
  "get_total_supply (set_metadata Metadata.SupplyYearStart w s) = get_total_supply s"
  by (simp_all add: get_total_supply_def set_defs)

lemma mint_stables_gap:
  assumes "supply_gap c s"
  shows "supply_gap c (mint_and_transfer_stables amount owner s)"
  using assms flk_total_account[of s owner]
  by (simp add: supply_gap_def mint_and_transfer_stables_def Let_def)

lemma mint_flk_gap:
  assumes gap: "supply_gap c s" and "mint_and_transfer_flk amount owner s = Some s'"
  shows "supply_gap c s'"
proof -
  let ?s1 = "set_account_info owner ((account s owner)\<lparr>acc_flk_balance :=
      acc_flk_balance (account s owner) + amount\<rparr>) s"
  obtain x where x: "get_total_supply s = Some x" "flk_total s = x + c" and wf: "balance_tables_wf s"
    using gap by (auto simp: supply_gap_def)
  have total: "flk_total ?s1 = (x + amount) + c"
    using flk_total_account[OF wf] x(2) by (simp add: add_ac)
  have "s' = set_metadata Metadata.TotalSupply (VHpUfixed (x + amount)) ?s1 \<or>
      s' = set_metadata Metadata.SupplyYearStart (VHpUfixed (x + amount))
        (set_metadata Metadata.TotalSupply (VHpUfixed (x + amount)) ?s1)"
    using assms(2) x(1)
    by (auto simp: mint_and_transfer_flk_def Let_def bind_eq_Some_conv split: if_splits)
  then show ?thesis using total wf by (auto simp: supply_gap_def)
qed

interpretation supply_inv: payment_invariant "supply_gap c" for c
  by unfold_locales (simp_all add: mint_stables_gap mint_flk_gap)

lemma distribute_rewards_gap:
  "distribute_rewards s = Some s' \<Longrightarrow> supply_gap c s \<Longrightarrow> supply_gap c s'"
  by (rule supply_inv.distribute_rewards_keeps)

section \<open>The boost\<close>

text \<open>On the naturals: the boost in thousandths, and the reward it gives lies between 1 and the maximum.\<close>

lemma hp_div_unat:
  fixes x y :: "'p::len0 HpUfixed"
  assumes "10 ^ LENGTH('p) < (2::nat) ^ 256" "unat (get_value x) * 10 ^ LENGTH('p) < 2 ^ 256"
    and "get_value y \<noteq> 0"
  shows "\<exists>z. hp_div x y = Some z \<and>
    unat (get_value z) = unat (get_value x) * 10 ^ LENGTH('p) div unat (get_value y)"
  using assms by (simp add: hp_div_def unat_div unat_scale unat_mult_lem[THEN iffD1])

lemma get_boost_value:
  assumes M: "tbl_get (st_parameters s) ProtocolParamKey.MaxBoost = Some (ProtocolParamValue.MaxBoost m)"
    and L: "tbl_get (st_parameters s) ProtocolParamKey.MaxStakeLockTime =
      Some (ProtocolParamValue.MaxStakeLockTime l)"
    and m: "0 < unat m" and l: "0 < unat l"
  shows "\<exists>b. get_boost s locked_until epoch = Some b \<and>
    unat (get_value b) = min (unat m * 1000)
      (1000 + (unat m - 1) * ((unat locked_until - unat epoch) * 1000 div unat l))"
proof -
  define t where "t = unat (saturating_sub locked_until epoch)"
  have bnd: "unat m < 2 ^ 16" "unat l < 2 ^ 64" "t < 2 ^ 64"
    unfolding t_def using unsigned_less[of m] unsigned_less[of l]
      unsigned_less[of "saturating_sub locked_until epoch"] by simp_all
  have v: "unat (get_value (hp_from n :: 3 HpUfixed)) = n * 1000" if "n < 2 ^ 64" for n
    using unat_hp_from[where 'p = 3, of n] that by simp
  have lv: "get_value (hp_from (unat l) :: 3 HpUfixed) \<noteq> 0"
    using v[OF bnd(2)] l by (metis mult_is_0 neq0_conv unat_0 zero_neq_numeral)
  obtain q where q: "hp_div (hp_from t :: 3 HpUfixed) (hp_from (unat l)) = Some q"
      "unat (get_value q) = t * 1000 * 1000 div (unat l * 1000)"
    using hp_div_unat[OF _ _ lv, of "hp_from t"] v[OF bnd(2)] v[OF bnd(3)] bnd by auto
  then have qv: "unat (get_value q) = t * 1000 div unat l" by (simp add: mult.commute)
  let ?d = "hp_from (unat m) - hp_from 1 :: 3 HpUfixed"
  have dv: "unat (get_value ?d) = (unat m - 1) * 1000"
    using v[of "unat m"] v[of 1] bnd m by (simp add: unat_sub word_le_nat_alt diff_mult_distrib)
  have qb: "unat (get_value q) \<le> 2 ^ 64 * 1000" unfolding qv using bnd(3) by (simp add: le_trans[OF div_le_dividend])
  have prod: "unat (get_value ?d) * unat (get_value q) < 2 ^ 256"
  proof -
    have "unat (get_value ?d) * unat (get_value q) \<le> (2 ^ 16 * 1000) * (2 ^ 64 * 1000)"
      unfolding dv by (rule mult_mono) (use bnd qb in simp_all)
    then show ?thesis by simp
  qed
  have mv: "unat (get_value (hp_mul ?d q)) = (unat m - 1) * (t * 1000 div unat l)"
  proof -
    have "unat (get_value (hp_mul ?d q)) = (unat m - 1) * 1000 * (t * 1000 div unat l) div 1000"
      using unat_hp_mul[OF _ prod] unfolding dv qv by simp
    also have "\<dots> = (unat m - 1) * (t * 1000 div unat l) * 1000 div 1000"
      by (simp only: ac_simps)
    finally show ?thesis by simp
  qed
  have sum: "unat (get_value (hp_from 1 + hp_mul ?d q)) = 1000 + (unat m - 1) * (t * 1000 div unat l)"
  proof -
    have "(unat m - 1) * (t * 1000 div unat l) \<le> 2 ^ 16 * (2 ^ 64 * 1000)"
      by (rule mult_mono) (use bnd qb qv in simp_all)
    then show ?thesis using v[of 1] mv by (simp add: unat_add_lem[THEN iffD1])
  qed
  show ?thesis
    using q(1) M L v[of "unat m"] bnd sum
    by (simp add: get_boost_def t_def[symmetric] hp_min_def word_le_nat_alt min_def)
      (simp add: t_def unat_saturating_sub Let_def)
qed

end
