(* ===== verification/Beacon.thy ===== *)
theory Beacon
  imports State Externals
begin

text \<open>
  The start of an epoch change and the commit-reveal beacon that seeds the choice of the next
  committee, \<^verbatim>\<open>core/application/src/state/executor/epoch_change.rs\<close>: the signal \<^verbatim>\<open>ChangeEpoch\<close>, the
  commit and reveal transactions, the timeout of the commit phase, and the slashing of nodes that
  committed and did not reveal. The timeout of the reveal phase, which executes the epoch change,
  is in the theory \<open>Epoch_Change\<close>.
\<close>

section \<open>The phase\<close>

definition set_committee_selection_beacon_commit_phase ::
    "Epoch \<Rightarrow> Round \<Rightarrow> app_state \<Rightarrow> app_state" where
  "set_committee_selection_beacon_commit_phase epoch round =
     set_metadata Metadata.CommitteeSelectionBeaconPhase
       (Value.CommitteeSelectionBeaconPhase (Commit (epoch, round)))"

definition set_committee_selection_beacon_reveal_phase ::
    "Epoch \<Rightarrow> Round \<Rightarrow> app_state \<Rightarrow> app_state" where
  "set_committee_selection_beacon_reveal_phase epoch round =
     set_metadata Metadata.CommitteeSelectionBeaconPhase
       (Value.CommitteeSelectionBeaconPhase (Reveal (epoch, round)))"

definition clear_committee_selection_beacon_phase :: "app_state \<Rightarrow> app_state" where
  "clear_committee_selection_beacon_phase s =
     s\<lparr>st_metadata := tbl_remove (st_metadata s) Metadata.CommitteeSelectionBeaconPhase\<rparr>"

definition clear_committee_selection_beacons :: "app_state \<Rightarrow> app_state" where
  "clear_committee_selection_beacons s =
     s\<lparr>st_committee_selection_beacon := tbl_clear (st_committee_selection_beacon s)\<rparr>"

definition clear_committee_selection_beacon_non_revealing_node :: "app_state \<Rightarrow> app_state" where
  "clear_committee_selection_beacon_non_revealing_node s =
     s\<lparr>st_non_revealing_node := tbl_clear (st_non_revealing_node s)\<rparr>"

definition clear_committee_selection_beacon_timeouts :: "Epoch \<Rightarrow> app_state \<Rightarrow> app_state" where
  "clear_committee_selection_beacon_timeouts epoch s =
     set_committee_info epoch ((committee s epoch)\<lparr>com_signalled_commit_phase_timeout := [],
       com_signalled_reveal_phase_timeout := []\<rparr>) s"

text \<open>The phase the metadata records, as the handlers match on it.\<close>

definition beacon_phase :: "app_state \<Rightarrow> CommitteeSelectionBeaconPhase option" where
  "beacon_phase s =
     (case tbl_get (st_metadata s) Metadata.CommitteeSelectionBeaconPhase of
        Some (Value.CommitteeSelectionBeaconPhase p) \<Rightarrow> Some p | _ \<Rightarrow> None)"

text \<open>More than two thirds: the number of signals at which the committee has agreed.\<close>

definition quorum :: "NodeIndex list \<Rightarrow> nat" where
  "quorum members = 2 * length members div 3 + 1"

section \<open>Starting the epoch change\<close>

definition change_epoch ::
    "TransactionSender \<Rightarrow> Epoch \<Rightarrow> app_state \<Rightarrow> (TransactionResponse \<times> app_state) option" where
  "change_epoch sender epoch s = do {
     r \<leftarrow> only_node_with_sufficient_stake_and_participating s sender;
     (case r of
        Inl e \<Rightarrow> Some (e, s)
      | Inr index \<Rightarrow>
          let current_epoch = get_epoch s
          in if epoch < current_epoch then Some (Revert EpochAlreadyChanged, s)
             else if epoch > current_epoch then Some (Revert EpochHasNotStarted, s)
             else let com = committee s current_epoch
             in if index \<notin> set (com_members com) then Some (Revert NotCommitteeMember, s)
                else if index \<in> set (com_ready_to_change com) then Some (Revert AlreadySignaled, s)
                else let com' = com\<lparr>com_ready_to_change := com_ready_to_change com @ [index]\<rparr>;
                         s1 = set_committee_info current_epoch com' s
                in if length (com_ready_to_change com') = quorum (com_members com')
                   then do {
                     _ \<leftarrow> get_block_number s1;
                     Some (Success EDNone, set_committee_selection_beacon_commit_phase epoch 0 s1)
                   }
                   else Some (Success EDNone, s1))
   }"

section \<open>Commit and reveal\<close>

text \<open>\<^verbatim>\<open>CommitteeSelectionBeaconCommit::build\<close>: the hash of the epoch, the round and the reveal.\<close>

definition commit_build :: "externals \<Rightarrow> Epoch \<Rightarrow> Round \<Rightarrow> BeaconReveal \<Rightarrow> BeaconCommit" where
  "commit_build ext epoch round reveal =
     ext_sha3_256 ext (be_bytes 8 epoch @ be_bytes 8 round @ be_bytes 32 reveal)"

definition committee_selection_beacon_commit ::
    "TransactionSender \<Rightarrow> BeaconCommit \<Rightarrow> app_state \<Rightarrow> (TransactionResponse \<times> app_state) option" where
  "committee_selection_beacon_commit sender commit s = do {
     r \<leftarrow> only_node_with_sufficient_stake_and_participating s sender;
     Some (case r of
        Inl e \<Rightarrow> (e, s)
      | Inr node_index \<Rightarrow>
          let epoch = get_epoch s
          in if node_index \<notin> set (com_members (committee s epoch)) then (Revert NotCommitteeMember, s)
             else if node_index \<notin> set (com_active_node_set (committee s epoch))
               then (Revert CommitteeSelectionBeaconNodeNotActive, s)
             else if tbl_get (st_non_revealing_node s) node_index \<noteq> None
               then (Revert CommitteeSelectionBeaconNonRevealingNode, s)
             else (case beacon_phase s of
                Some (Commit _) \<Rightarrow>
                  if tbl_get (st_committee_selection_beacon s) node_index \<noteq> None
                  then (Revert CommitteeSelectionBeaconAlreadyCommitted, s)
                  else (Success EDNone, s\<lparr>st_committee_selection_beacon :=
                      tbl_set (st_committee_selection_beacon s) node_index (commit, None)\<rparr>)
              | _ \<Rightarrow> (Revert CommitteeSelectionBeaconCommitPhaseNotActive, s)))
   }"

definition committee_selection_beacon_reveal ::
    "externals \<Rightarrow> TransactionSender \<Rightarrow> BeaconReveal \<Rightarrow> app_state \<Rightarrow>
     (TransactionResponse \<times> app_state) option" where
  "committee_selection_beacon_reveal ext sender reveal s = do {
     r \<leftarrow> only_node_with_sufficient_stake_and_participating s sender;
     Some (case r of
        Inl e \<Rightarrow> (e, s)
      | Inr node_index \<Rightarrow>
          (case beacon_phase s of
             Some (Reveal (_, round)) \<Rightarrow>
               let epoch = get_epoch s
               in if node_index \<notin> set (com_members (committee s epoch))
                  then (Revert NotCommitteeMember, s)
                  else (case tbl_get (st_committee_selection_beacon s) node_index of
                     None \<Rightarrow> (Revert CommitteeSelectionBeaconNotCommitted, s)
                   | Some (existing_commit, existing_reveal) \<Rightarrow>
                       if existing_reveal \<noteq> None
                       then (Revert CommitteeSelectionBeaconAlreadyRevealed, s)
                       else if existing_commit \<noteq> commit_build ext epoch round reveal
                       then (Revert CommitteeSelectionBeaconInvalidReveal, s)
                       else (Success EDNone, s\<lparr>st_committee_selection_beacon :=
                         tbl_set (st_committee_selection_beacon s) node_index
                           (existing_commit, Some reveal)\<rparr>))
           | _ \<Rightarrow> (Revert CommitteeSelectionBeaconRevealPhaseNotActive, s)))
   }"

section \<open>The end of the commit phase\<close>

text \<open>The members that may commit in this round, and the commits of those members.\<close>

definition participating_committee_members :: "app_state \<Rightarrow> NodeIndex list" where
  "participating_committee_members s =
     filter (\<lambda>i. tbl_get (st_non_revealing_node s) i = None)
       (com_members (committee s (get_epoch s)))"

definition committee_beacons :: "app_state \<Rightarrow> (NodeIndex, BeaconCommit \<times> BeaconReveal option) table" where
  "committee_beacons s =
     filter (\<lambda>(i, _). i \<in> set (participating_committee_members s))
       (tbl_as_map (st_committee_selection_beacon s))"

definition finish_commit_phase :: "Round \<Rightarrow> app_state \<Rightarrow> app_state" where
  "finish_commit_phase round s =
     (let epoch = get_epoch s
      in if length (committee_beacons s) > 2 * length (participating_committee_members s) div 3
         then set_committee_selection_beacon_reveal_phase epoch round s
         else let s1 = set_committee_selection_beacon_commit_phase epoch (round + 1) s;
                  s2 = clear_committee_selection_beacons s1;
                  s3 = clear_committee_selection_beacon_non_revealing_node s2
              in clear_committee_selection_beacon_timeouts epoch s3)"

definition committee_selection_beacon_commit_phase_timeout ::
    "TransactionSender \<Rightarrow> Epoch \<Rightarrow> Round \<Rightarrow> app_state \<Rightarrow>
     (TransactionResponse \<times> app_state) option" where
  "committee_selection_beacon_commit_phase_timeout sender epoch round s = do {
     r \<leftarrow> only_node_with_sufficient_stake s sender;
     Some (case r of
        Inl e \<Rightarrow> (e, s)
      | Inr node_index \<Rightarrow>
          let current_epoch = get_epoch s
          in (case beacon_phase s of
             Some (Commit (commit_phase_epoch, commit_phase_round)) \<Rightarrow>
               if commit_phase_epoch \<noteq> epoch \<or> commit_phase_round \<noteq> round
               then (Revert CommitteeSelectionBeaconInvalidCommitPhaseTimeout, s)
               else let com = committee s current_epoch
               in if node_index \<notin> set (com_members com) then (Revert NotCommitteeMember, s)
                  else if node_index \<in> set (com_signalled_commit_phase_timeout com)
                  then (Revert AlreadySignaled, s)
                  else let com' = com\<lparr>com_signalled_commit_phase_timeout :=
                             com_signalled_commit_phase_timeout com @ [node_index]\<rparr>;
                           s1 = set_committee_info current_epoch com' s
                  in (Success EDNone,
                      if length (com_signalled_commit_phase_timeout com') = quorum (com_members com')
                      then finish_commit_phase commit_phase_round s1 else s1)
           | _ \<Rightarrow> (Revert CommitteeSelectionBeaconCommitPhaseNotActive, s)))
   }"

section \<open>Slashing\<close>

definition slash_stake :: "18 HpUfixed \<Rightarrow> Staking \<Rightarrow> Staking" where
  "slash_stake amount stake =
     (let (staked, remaining) =
            (if stk_staked stake \<ge> amount then (stk_staked stake - amount, 0)
             else (0, amount - stk_staked stake))
      in stake\<lparr>stk_staked := staked,
           stk_locked := (if stk_locked stake \<ge> remaining then stk_locked stake - remaining else 0)\<rparr>)"

definition kick_from_committee :: "NodeIndex \<Rightarrow> app_state \<Rightarrow> app_state" where
  "kick_from_committee node_index s =
     (let epoch = get_epoch s; com = get_committee s epoch
      in set_committee_info epoch
           (com\<lparr>com_members := filter (\<lambda>m. m \<noteq> node_index) (com_members com),
              com_active_node_set := filter (\<lambda>m. m \<noteq> node_index) (com_active_node_set com)\<rparr>) s)"

definition slash_node_after_non_reveal_and_maybe_kick ::
    "18 HpUfixed \<Rightarrow> NodeIndex \<Rightarrow> app_state \<Rightarrow> app_state option" where
  "slash_node_after_non_reveal_and_maybe_kick amount node_index s = do {
     info \<leftarrow> node s node_index;
     let info' = info\<lparr>ni_stake := slash_stake amount (ni_stake info)\<rparr>;
     s2 \<leftarrow> record_node_registry_change (ni_public_key info')
            (Slashed amount (ni_stake info') CommitteeBeaconNonReveal)
            (set_node_info node_index info' s);
     ok \<leftarrow> has_sufficient_stake s2 node_index;
     Some (if ok then s2 else kick_from_committee node_index s2)
   }"

definition get_committee_selection_beacon_non_reveal_slash_amount :: "app_state \<Rightarrow> 18 HpUfixed option" where
  "get_committee_selection_beacon_non_reveal_slash_amount s =
     (case tbl_get (st_parameters s) ProtocolParamKey.CommitteeSelectionBeaconNonRevealSlashAmount of
        Some (ProtocolParamValue.CommitteeSelectionBeaconNonRevealSlashAmount amount) \<Rightarrow>
          Some (hp_from (unat amount))
      | None \<Rightarrow> Some 0
      | Some _ \<Rightarrow> None)"

end
