(* ===== verification/Epoch_Change.thy ===== *)
theory Epoch_Change
  imports Auction Content_Registry Jobs Rewards Scores Beacon
begin

text \<open>
  The end of the reveal phase and the epoch change itself,
  \<^verbatim>\<open>core/application/src/state/executor/epoch_change.rs\<close>: scores, rewards, content clean-up, the
  next committee, jobs, and the new epoch number.
\<close>

section \<open>Parameters\<close>

definition get_commit_phase_duration :: "app_state \<Rightarrow> u64 option" where
  "get_commit_phase_duration s =
     (case tbl_get (st_parameters s) ProtocolParamKey.CommitteeSelectionBeaconCommitPhaseDuration of
        Some (ProtocolParamValue.CommitteeSelectionBeaconCommitPhaseDuration v) \<Rightarrow> Some v | _ \<Rightarrow> None)"

definition get_reveal_phase_duration :: "app_state \<Rightarrow> u64 option" where
  "get_reveal_phase_duration s =
     (case tbl_get (st_parameters s) ProtocolParamKey.CommitteeSelectionBeaconRevealPhaseDuration of
        Some (ProtocolParamValue.CommitteeSelectionBeaconRevealPhaseDuration v) \<Rightarrow> Some v | _ \<Rightarrow> None)"

definition get_epoch_time :: "app_state \<Rightarrow> u64 option" where
  "get_epoch_time s =
     (case tbl_get (st_parameters s) ProtocolParamKey.EpochTime of
        Some (ProtocolParamValue.EpochTime v) \<Rightarrow> Some v | _ \<Rightarrow> None)"

definition get_total_intervals :: "app_state \<Rightarrow> u64 option" where
  "get_total_intervals s =
     (case tbl_get (st_parameters s) ProtocolParamKey.TotalTimeIntervals of
        Some (ProtocolParamValue.TotalTimeIntervals v) \<Rightarrow> Some v | _ \<Rightarrow> None)"

definition get_committee_size :: "app_state \<Rightarrow> u64 option" where
  "get_committee_size s =
     (case tbl_get (st_parameters s) ProtocolParamKey.CommitteeSize of
        Some (ProtocolParamValue.CommitteeSize v) \<Rightarrow> Some v | _ \<Rightarrow> None)"

section \<open>The next committee\<close>

type_synonym beacons = "(NodeIndex, BeaconCommit \<times> BeaconReveal option) table"

text \<open>The reveals, concatenated in ascending order of node index, and their hash.\<close>

definition combined_reveals :: "beacons \<Rightarrow> bytes" where
  "combined_reveals b =
     concat (map (\<lambda>(_, r). be_bytes 32 r)
       (sort_key fst (List.map_filter (\<lambda>(i, _, reveal). map_option (Pair i) reveal) b)))"

text \<open>The members and, reordered by the shuffle when it runs, the active nodes.\<close>

definition select_committee ::
    "externals \<Rightarrow> u64 \<Rightarrow> NodeIndex list \<Rightarrow> beacons \<Rightarrow> NodeIndex list \<times> NodeIndex list" where
  "select_committee ext committee_size active_nodes b =
     (if unat committee_size \<ge> length active_nodes then (active_nodes, active_nodes)
      else let active = ext_shuffle ext (ext_sha3_256 ext (combined_reveals b)) active_nodes
           in (take (unat committee_size) active, active))"

definition choose_new_committee ::
    "externals \<Rightarrow> beacons \<Rightarrow> app_state \<Rightarrow> (Committee \<times> app_state) option" where
  "choose_new_committee ext b s = do {
     committee_size \<leftarrow> get_committee_size s;
     nodes \<leftarrow> settle_auction s
       (filter (\<lambda>(_, info). ni_participation info = PTrue) (get_node_registry s));
     let (members, active_nodes) = select_committee ext committee_size (map fst nodes) b;
     epoch_time \<leftarrow> get_epoch_time s;
     current \<leftarrow> tbl_get (st_committee_info s) (get_epoch s);
     let epoch_end_timestamp = com_epoch_end_timestamp current + epoch_time;
     commit_phase_duration \<leftarrow> get_commit_phase_duration s;
     reveal_phase_duration \<leftarrow> get_reveal_phase_duration s;
     total_intervals \<leftarrow> get_total_intervals s;
     if total_intervals = 0 then None
     else Some (\<lparr>com_members = members, com_ready_to_change = [],
         com_signalled_commit_phase_timeout = [], com_signalled_reveal_phase_timeout = [],
         com_epoch_end_timestamp = epoch_end_timestamp,
         com_epoch_transition_timestamp =
           epoch_end_timestamp - commit_phase_duration - reveal_phase_duration,
         com_active_node_set = active_nodes, com_node_registry_changes = []\<rparr>,
       set_metadata Metadata.TimeInterval (Value.TimeInterval (epoch_time div total_intervals)) s)
   }"

section \<open>Executing the epoch change\<close>

definition execute_epoch_change ::
    "externals \<Rightarrow> Epoch \<Rightarrow> Committee \<Rightarrow> beacons \<Rightarrow> app_state \<Rightarrow> app_state option" where
  "execute_epoch_change ext epoch current_committee b s = do {
     s1 \<leftarrow> executor_reputation_scores s;
     s2 \<leftarrow> distribute_rewards s1;
     let s3 = clean_up_content_registry s2;
     let s4 = s3\<lparr>st_executed_digests := tbl_clear (st_executed_digests s3)\<rparr>;
     let s5 = set_committee_info epoch current_committee s4;
     (new_committee, s6) \<leftarrow> choose_new_committee ext b s5;
     let s7 = set_committee_info (epoch + 1) new_committee s6;
     s8 \<leftarrow> reassign_jobs ext s7;
     let s9 = set_metadata Metadata.Epoch (Value.Epoch (epoch + 1)) s8;
     Some (set_metadata Metadata.EpochEra (Value.EpochEra 0) s9)
   }"

section \<open>The end of the reveal phase\<close>

definition finish_reveal_phase ::
    "externals \<Rightarrow> app_state \<Rightarrow> (TransactionResponse \<times> app_state) option" where
  "finish_reveal_phase ext s =
     (let epoch = get_epoch s;
          com = committee s epoch;
          b = tbl_as_map (st_committee_selection_beacon s);
          s1 = clear_committee_selection_beacon_phase s;
          s2 = clear_committee_selection_beacons s1;
          s3 = clear_committee_selection_beacon_non_revealing_node s2
      in do {
        s4 \<leftarrow> execute_epoch_change ext epoch com b s3;
        Some (Success EpochChange, s4)
      })"

text \<open>Some node did not reveal: it is barred from the next round and slashed, and a new round starts.\<close>

definition restart_commit_phase :: "Round \<Rightarrow> app_state \<Rightarrow> (TransactionResponse \<times> app_state) option" where
  "restart_commit_phase round s =
     (let epoch = get_epoch s;
          s1 = set_committee_selection_beacon_commit_phase epoch (round + 1) s;
          non_revealing_nodes = map fst (filter (\<lambda>(_, _, reveal). reveal = None)
            (tbl_as_map (st_committee_selection_beacon s1)));
          s2 = s1\<lparr>st_non_revealing_node :=
            fold (\<lambda>i t. tbl_set t i ()) non_revealing_nodes (st_non_revealing_node s1)\<rparr>
      in do {
        slash_amount \<leftarrow> get_committee_selection_beacon_non_reveal_slash_amount s2;
        s3 \<leftarrow> for_each (slash_node_after_non_reveal_and_maybe_kick slash_amount) non_revealing_nodes s2;
        let s4 = s3\<lparr>st_committee_selection_beacon :=
          fold (\<lambda>i t. tbl_remove t i) (tbl_keys (st_committee_selection_beacon s3))
            (st_committee_selection_beacon s3)\<rparr>;
        Some (Success EDNone, clear_committee_selection_beacon_timeouts epoch s4)
      })"

definition committee_selection_beacon_reveal_phase_timeout ::
    "externals \<Rightarrow> TransactionSender \<Rightarrow> Epoch \<Rightarrow> Round \<Rightarrow> app_state \<Rightarrow>
     (TransactionResponse \<times> app_state) option" where
  "committee_selection_beacon_reveal_phase_timeout ext sender epoch round s = do {
     r \<leftarrow> only_node_with_sufficient_stake s sender;
     (case r of
        Inl e \<Rightarrow> Some (e, s)
      | Inr node_index \<Rightarrow>
          let current_epoch = get_epoch s
          in (case beacon_phase s of
             Some (Reveal (reveal_phase_epoch, reveal_phase_round)) \<Rightarrow>
               if reveal_phase_epoch \<noteq> epoch \<or> reveal_phase_round \<noteq> round
               then Some (Revert CommitteeSelectionBeaconInvalidRevealPhaseTimeout, s)
               else let com = committee s current_epoch
               in if node_index \<notin> set (com_members com) then Some (Revert NotCommitteeMember, s)
                  else if node_index \<in> set (com_signalled_reveal_phase_timeout com)
                  then Some (Revert AlreadySignaled, s)
                  else let com' = com\<lparr>com_signalled_reveal_phase_timeout :=
                             com_signalled_reveal_phase_timeout com @ [node_index]\<rparr>;
                           s1 = set_committee_info current_epoch com' s
                  in if length (com_signalled_reveal_phase_timeout com') = quorum (com_members com')
                     then if list_all (\<lambda>(_, _, reveal). reveal \<noteq> None)
                              (tbl_as_map (st_committee_selection_beacon s1))
                          then finish_reveal_phase ext s1
                          else restart_commit_phase reveal_phase_round s1
                     else Some (Success EDNone, s1)
           | _ \<Rightarrow> Some (Revert CommitteeSelectionBeaconRevealPhaseNotActive, s)))
   }"

section \<open>The next committee, characterised\<close>

lemma choose_new_committee_result:
  assumes "choose_new_committee ext b s = Some (c, s')"
  obtains csize nodes interval where "get_committee_size s = Some csize"
    "settle_auction s (filter (\<lambda>(_, info). ni_participation info = PTrue) (get_node_registry s)) =
       Some nodes"
    "(com_members c, com_active_node_set c) = select_committee ext csize (map fst nodes) b"
    "com_ready_to_change c = []" "com_signalled_commit_phase_timeout c = []"
    "com_signalled_reveal_phase_timeout c = []" "com_node_registry_changes c = []"
    "s' = set_metadata Metadata.TimeInterval interval s"
  using assms
  by (auto simp: choose_new_committee_def Let_def bind_eq_Some_conv split_beta split: if_split_asm)

lemma registry_distinct:
  assumes "tbl_wf (st_node_info s)"
  shows "distinct (map fst (get_node_registry s))"
proof -
  have *: "map fst (List.map_filter (\<lambda>i. map_option (Pair i) (node s i)) ks) =
      filter (\<lambda>i. node s i \<noteq> None) ks" for ks
    by (induction ks) (auto simp: List.map_filter_simps split: option.splits)
  have "distinct (map fst (List.map_filter (\<lambda>i. map_option (Pair i) (node s i))
      (sort (tbl_keys (st_node_info s)))))"
    unfolding * using tbl.keys_distinct[OF assms] by (simp add: distinct_filter)
  then show ?thesis unfolding get_node_registry_def by (rule distinct_map_filter)
qed

lemma distinct_submset:
  assumes "mset xs \<subseteq># mset ys" "distinct ys"
  shows "distinct xs"
proof -
  obtain zs where "mset zs = mset ys - mset xs" using ex_mset by blast
  then have "mset (xs @ zs) = mset ys" using assms(1) by simp
  then have "distinct (xs @ zs)" using assms(2) mset_eq_imp_distinct_iff by blast
  then show ?thesis by simp
qed

lemma settle_auction_result:
  assumes "settle_auction s nodes = Some kept"
  shows "\<exists>n. tbl_get (st_parameters s) ProtocolParamKey.NodeCount = Some (ProtocolParamValue.NodeCount n) \<and>
    length kept = min (unat n) (length nodes) \<and> mset kept \<subseteq># mset nodes"
proof -
  obtain n where n: "tbl_get (st_parameters s) ProtocolParamKey.NodeCount =
      Some (ProtocolParamValue.NodeCount n)"
    using assms by (auto simp: settle_auction_def split: option.splits ProtocolParamValue.splits)
  from settle_auction_keeps[OF this, of nodes] assms n show ?thesis by auto
qed

text \<open>The members and the active nodes: distinct participating nodes, as many as the parameters allow.\<close>

lemma select_committee_props:
  assumes "(members, active) = select_committee ext csize nodes b" "shuffle_permutes ext"
  shows "mset active = mset nodes" "set members \<subseteq> set active"
    "distinct nodes \<Longrightarrow> distinct members"
    "length members = min (unat csize) (length nodes)"
proof -
  have perm: "mset (ext_shuffle ext seed xs) = mset xs" for seed xs
    using assms(2) by (simp add: shuffle_permutes_def)
  show "mset active = mset nodes"
    using assms(1) perm by (auto simp: select_committee_def Let_def split: if_splits)
  show "set members \<subseteq> set active"
    using assms(1) by (auto simp: select_committee_def Let_def dest: in_set_takeD split: if_splits)
  show "distinct members" if "distinct nodes"
    using assms(1) that mset_eq_imp_distinct_iff[OF perm]
    by (auto simp: select_committee_def Let_def intro!: distinct_take split: if_splits)
  show "length members = min (unat csize) (length nodes)"
    using assms(1) mset_eq_length[OF perm]
    by (auto simp: select_committee_def Let_def min_def split: if_splits)
qed

lemma new_committee:
  assumes c: "choose_new_committee ext b s = Some (c, s')" and ext: "shuffle_permutes ext"
    and wf: "tbl_wf (st_node_info s)"
  shows "\<exists>csize count. get_committee_size s = Some csize \<and>
    tbl_get (st_parameters s) ProtocolParamKey.NodeCount = Some (ProtocolParamValue.NodeCount count) \<and>
    set (com_members c) \<subseteq> set (com_active_node_set c) \<and>
    set (com_active_node_set c) \<subseteq> participating_nodes s \<and>
    distinct (com_members c) \<and> distinct (com_active_node_set c) \<and>
    length (com_active_node_set c) = min (unat count) (card (participating_nodes s)) \<and>
    length (com_members c) = min (unat csize) (length (com_active_node_set c))"
proof -
  let ?P = "filter (\<lambda>(_, info). ni_participation info = PTrue) (get_node_registry s)"
  have dP: "distinct (map fst ?P)" using registry_distinct[OF wf] by (rule distinct_map_filter)
  have setP: "fst ` set ?P = participating_nodes s" by (auto simp: participating_nodes_def)
  have card: "card (participating_nodes s) = length ?P"
    using distinct_card[OF dP] unfolding setP[symmetric] by simp
  obtain csize nodes interval where r: "get_committee_size s = Some csize"
      "settle_auction s ?P = Some nodes"
      "(com_members c, com_active_node_set c) = select_committee ext csize (map fst nodes) b"
    by (rule choose_new_committee_result[OF c])
  obtain count where n: "tbl_get (st_parameters s) ProtocolParamKey.NodeCount =
        Some (ProtocolParamValue.NodeCount count)" "length nodes = min (unat count) (length ?P)"
      "mset nodes \<subseteq># mset ?P"
    using settle_auction_result[OF r(2)] by blast
  have ms: "mset (map fst nodes) \<subseteq># mset (map fst ?P)"
    using image_mset_subseteq_mono[OF n(3), of fst] by simp
  have dn: "distinct (map fst nodes)" by (rule distinct_submset[OF ms dP])
  note sel = select_committee_props[OF r(3) ext]
  have "set (com_active_node_set c) \<subseteq> participating_nodes s"
    using mset_eq_setD[OF sel(1)] set_mset_mono[OF ms] setP by simp
  moreover have "distinct (com_active_node_set c)"
    using mset_eq_imp_distinct_iff[OF sel(1)] dn by simp
  moreover have "length (com_active_node_set c) = length nodes"
    using mset_eq_length[OF sel(1)] by simp
  ultimately show ?thesis
    using r(1) n(1,2) sel(2-4) dn card by auto
qed

end
