(* ===== verification/Transcript.thy ===== *)
theory Transcript
  imports Externals
begin

text \<open>
  The message that a transaction's signature covers. First the transcript builder,
  \<^verbatim>\<open>lib/ink-quill/src/lib.rs\<close>: labelled inputs kept sorted by label, a duplicate label being a
  panic. Then the transcript of a payload, \<^verbatim>\<open>core/types/src/transaction.rs\<close>
  (\<^verbatim>\<open>ToDigest for UpdatePayload\<close>). Strings are byte strings.
\<close>

section \<open>The transcript builder\<close>

record TranscriptBuilder =
  tb_domain :: string
  tb_data :: "(bytes \<times> bytes) list"
  tb_prefix :: "string option"

definition str_bytes :: "string \<Rightarrow> bytes" where
  "str_bytes s = map of_char s"

definition tb_empty :: "string \<Rightarrow> TranscriptBuilder" where
  "tb_empty domain = \<lparr>tb_domain = domain, tb_data = [], tb_prefix = None\<rparr>"

definition with_prefix :: "string \<Rightarrow> TranscriptBuilder \<Rightarrow> TranscriptBuilder" where
  "with_prefix prefix b = b\<lparr>tb_prefix := Some prefix\<rparr>"

text \<open>The order of byte vectors.\<close>

fun bytes_less :: "bytes \<Rightarrow> bytes \<Rightarrow> bool" where
  "bytes_less [] ys = (ys \<noteq> [])"
| "bytes_less (x # xs) [] = False"
| "bytes_less (x # xs) (y # ys) = (x < y \<or> (x = y \<and> bytes_less xs ys))"

text \<open>
  \<^verbatim>\<open>append_data\<close>: the position that the binary search of a sorted vector finds, found from the front.
  The vector is sorted because only \<^verbatim>\<open>append_data\<close> writes it.
\<close>

fun append_data :: "bytes \<times> bytes \<Rightarrow> (bytes \<times> bytes) list \<Rightarrow> (bytes \<times> bytes) list option" where
  "append_data d [] = Some [d]"
| "append_data d (e # es) =
     (if fst d = fst e then None
      else if bytes_less (fst d) (fst e) then Some (d # e # es)
      else map_option ((#) e) (append_data d es))"

text \<open>An input: the type name of \<^verbatim>\<open>TranscriptBuilderInput\<close> and the serialized bytes.\<close>

type_synonym input = "string \<times> bytes"

definition with_key :: "string option \<Rightarrow> string \<Rightarrow> bytes" where
  "with_key prefix label =
     (let key = (case prefix of Some p \<Rightarrow> str_bytes (p @ ''/'' @ label) | None \<Rightarrow> str_bytes label)
      in key @ be_bytes 8 (of_nat (length key) :: u64))"

definition with_value :: "input \<Rightarrow> bytes" where
  "with_value i =
     snd i @ be_bytes 8 (of_nat (length (snd i)) :: u64) @ str_bytes (''/'' @ fst i @ ''0'')"

definition tb_with :: "string \<times> input \<Rightarrow> TranscriptBuilder \<Rightarrow> TranscriptBuilder option" where
  "tb_with li b =
     map_option (\<lambda>d. b\<lparr>tb_data := d\<rparr>)
       (append_data (with_key (tb_prefix b) (fst li), with_value (snd li)) (tb_data b))"

definition tb_merge :: "TranscriptBuilder \<Rightarrow> TranscriptBuilder \<Rightarrow> TranscriptBuilder option" where
  "tb_merge b other =
     map_option (\<lambda>d. b\<lparr>tb_data := d\<rparr>) (for_each append_data (tb_data other) (tb_data b))"

definition tb_compile :: "TranscriptBuilder \<Rightarrow> bytes" where
  "tb_compile b = concat (map (\<lambda>(key, v). key @ v) (tb_data b))"

definition tb_hash :: "externals \<Rightarrow> TranscriptBuilder \<Rightarrow> u256" where
  "tb_hash ext b = ext_derive_key ext (tb_domain b) (tb_compile b)"

section \<open>Inputs\<close>

definition opt_bytes :: "('a \<Rightarrow> bytes) \<Rightarrow> 'a option \<Rightarrow> bytes" where
  "opt_bytes f x = (case x of Some v \<Rightarrow> f v | None \<Rightarrow> [])"

definition in_u8 :: "u8 \<Rightarrow> input" where "in_u8 w = (''u8'', be_bytes 1 w)"
definition in_opt_u8 :: "u8 option \<Rightarrow> input" where "in_opt_u8 w = (''u8'', opt_bytes (be_bytes 1) w)"
definition in_opt_u16 :: "u16 option \<Rightarrow> input" where "in_opt_u16 w = (''u16'', opt_bytes (be_bytes 2) w)"
definition in_u32 :: "u32 \<Rightarrow> input" where "in_u32 w = (''u32'', be_bytes 4 w)"
definition in_opt_u32 :: "u32 option \<Rightarrow> input" where "in_opt_u32 w = (''u32'', opt_bytes (be_bytes 4) w)"
definition in_u64 :: "u64 \<Rightarrow> input" where "in_u64 w = (''u64'', be_bytes 8 w)"
definition in_opt_i64 :: "64 word option \<Rightarrow> input" where "in_opt_i64 w = (''i64'', opt_bytes (be_bytes 8) w)"
definition in_u128 :: "u128 \<Rightarrow> input" where "in_u128 w = (''u128'', be_bytes 16 w)"
definition in_opt_u128 :: "u128 option \<Rightarrow> input" where "in_opt_u128 w = (''u128'', opt_bytes (be_bytes 16) w)"
definition in_str :: "string \<Rightarrow> input" where "in_str s = (''str'', str_bytes s)"
definition in_String :: "string \<Rightarrow> input" where "in_String s = (''String'', str_bytes s)"
definition in_opt_String :: "string option \<Rightarrow> input" where "in_opt_String s = (''String'', opt_bytes str_bytes s)"
definition in_buffer :: "bytes \<Rightarrow> input" where "in_buffer b = (''buffer'', b)"
definition in_opt_buffer :: "bytes option \<Rightarrow> input" where "in_opt_buffer b = (''buffer'', opt_bytes id b)"

definition in_tokens :: "Tokens \<Rightarrow> input" where
  "in_tokens t = (''Tokens'', str_bytes (case t of USDC \<Rightarrow> ''USDC'' | FLK \<Rightarrow> ''FLK''))"

definition commodity_bytes :: "CommodityTypes \<Rightarrow> bytes" where
  "commodity_bytes c =
     str_bytes (case c of Bandwidth \<Rightarrow> ''Bandwidth'' | Compute \<Rightarrow> ''Compute'' | Gpu \<Rightarrow> ''Gpu'')"

definition in_service :: "Service \<Rightarrow> input" where
  "in_service v = (''service'', commodity_bytes (svc_commodity_type v))"

definition in_hp :: "'p::len0 HpUfixed \<Rightarrow> input" where
  "in_hp x = (''HpUfixed'', of_nat LENGTH('p) # le_bytes 32 (get_value x))"

definition param_index :: "ProtocolParamKey \<Rightarrow> u8" where
  "param_index k = (case k of
     ProtocolParamKey.EpochTime \<Rightarrow> 0 | ProtocolParamKey.CommitteeSize \<Rightarrow> 1
   | ProtocolParamKey.NodeCount \<Rightarrow> 2 | ProtocolParamKey.MinimumNodeStake \<Rightarrow> 3
   | ProtocolParamKey.EligibilityTime \<Rightarrow> 4 | ProtocolParamKey.LockTime \<Rightarrow> 5
   | ProtocolParamKey.ProtocolShare \<Rightarrow> 6 | ProtocolParamKey.NodeShare \<Rightarrow> 7
   | ProtocolParamKey.ServiceBuilderShare \<Rightarrow> 8 | ProtocolParamKey.MaxInflation \<Rightarrow> 9
   | ProtocolParamKey.MaxBoost \<Rightarrow> 10 | ProtocolParamKey.MaxStakeLockTime \<Rightarrow> 11
   | ProtocolParamKey.MinNumMeasurements \<Rightarrow> 12 | ProtocolParamKey.SGXSharedPubKey \<Rightarrow> 13
   | ProtocolParamKey.EpochsPerYear \<Rightarrow> 14 | ProtocolParamKey.ReputationPingTimeout \<Rightarrow> 15
   | ProtocolParamKey.TopologyTargetK \<Rightarrow> 16 | ProtocolParamKey.TopologyMinNodes \<Rightarrow> 17
   | ProtocolParamKey.CommitteeSelectionBeaconCommitPhaseDuration \<Rightarrow> 18
   | ProtocolParamKey.CommitteeSelectionBeaconRevealPhaseDuration \<Rightarrow> 19
   | ProtocolParamKey.CommitteeSelectionBeaconNonRevealSlashAmount \<Rightarrow> 20
   | ProtocolParamKey.TotalTimeIntervals \<Rightarrow> 21)"

definition param_get_bytes :: "ProtocolParamValue \<Rightarrow> bytes" where
  "param_get_bytes v = (case v of
     ProtocolParamValue.EpochTime i \<Rightarrow> le_bytes 8 i
   | ProtocolParamValue.EpochsPerYear i \<Rightarrow> le_bytes 8 i
   | ProtocolParamValue.CommitteeSize i \<Rightarrow> le_bytes 8 i
   | ProtocolParamValue.NodeCount i \<Rightarrow> le_bytes 8 i
   | ProtocolParamValue.MinimumNodeStake i \<Rightarrow> le_bytes 8 i
   | ProtocolParamValue.EligibilityTime i \<Rightarrow> le_bytes 8 i
   | ProtocolParamValue.LockTime i \<Rightarrow> le_bytes 8 i
   | ProtocolParamValue.ProtocolShare i \<Rightarrow> le_bytes 2 i
   | ProtocolParamValue.NodeShare i \<Rightarrow> le_bytes 2 i
   | ProtocolParamValue.ServiceBuilderShare i \<Rightarrow> le_bytes 2 i
   | ProtocolParamValue.MaxInflation i \<Rightarrow> le_bytes 2 i
   | ProtocolParamValue.MaxBoost i \<Rightarrow> le_bytes 2 i
   | ProtocolParamValue.MaxStakeLockTime i \<Rightarrow> le_bytes 8 i
   | ProtocolParamValue.MinNumMeasurements i \<Rightarrow> le_bytes 8 i
   | ProtocolParamValue.SGXSharedPubKey s \<Rightarrow> str_bytes s
   | ProtocolParamValue.ReputationPingTimeout d \<Rightarrow> le_bytes 16 (of_nat (d div 10 ^ 6) :: u128)
   | ProtocolParamValue.TopologyTargetK i \<Rightarrow> le_bytes 8 i
   | ProtocolParamValue.TopologyMinNodes i \<Rightarrow> le_bytes 8 i
   | ProtocolParamValue.CommitteeSelectionBeaconCommitPhaseDuration i \<Rightarrow> le_bytes 8 i
   | ProtocolParamValue.CommitteeSelectionBeaconRevealPhaseDuration i \<Rightarrow> le_bytes 8 i
   | ProtocolParamValue.CommitteeSelectionBeaconNonRevealSlashAmount i \<Rightarrow> le_bytes 8 i
   | ProtocolParamValue.TotalTimeIntervals i \<Rightarrow> le_bytes 8 i)"

section \<open>The transcript of a payload\<close>

definition with_all :: "(string \<times> input) list \<Rightarrow> TranscriptBuilder \<Rightarrow> TranscriptBuilder option" where
  "with_all fs b = for_each tb_with fs b"

text \<open>The common shape of a method: its name, then its fields under the prefix \<^verbatim>\<open>input\<close>.\<close>

definition named_method :: "string \<Rightarrow> (string \<times> input) list \<Rightarrow> TranscriptBuilder \<Rightarrow> TranscriptBuilder option" where
  "named_method name fs b = do {
     b1 \<leftarrow> tb_with (''transaction_name'', in_str name) b;
     with_all fs (with_prefix ''input'' b1)
   }"

text \<open>A list of items, each under a prefix of its own.\<close>

definition listed_method ::
    "string \<Rightarrow> (string \<times> (string \<times> input) list) list \<Rightarrow> TranscriptBuilder \<Rightarrow> TranscriptBuilder option" where
  "listed_method name items b = do {
     b1 \<leftarrow> tb_with (''transaction_name'', in_str name) b;
     for_each (\<lambda>(prefix, fs) b. with_all fs (with_prefix prefix b)) items b1
   }"

definition measurement_fields :: "ReputationMeasurements \<Rightarrow> (string \<times> input) list" where
  "measurement_fields m =
     [(''latency'', in_u128 (case rm_latency m of Some l \<Rightarrow> of_nat l | None \<Rightarrow> 0)),
      (''interactions'', in_opt_i64 (rm_interactions m)),
      (''inbound_bandwidth'', in_opt_u128 (rm_inbound_bandwidth m)),
      (''outbound_bandwidth'', in_opt_u128 (rm_outbound_bandwidth m)),
      (''bytes_received'', in_opt_u128 (rm_bytes_received m)),
      (''bytes_sent'', in_opt_u128 (rm_bytes_sent m)),
      (''hops'', in_opt_u8 (rm_hops m))]"

definition stake_fields ::
    "externals \<Rightarrow> 18 HpUfixed \<Rightarrow> NodePublicKey \<Rightarrow> ConsensusPublicKey option \<Rightarrow> IpAddr option \<Rightarrow>
     NodePublicKey option \<Rightarrow> IpAddr option \<Rightarrow> NodePorts option \<Rightarrow> (string \<times> input) list" where
  "stake_fields ext amount node_public_key consensus_key node_domain worker_public_key worker_domain ports =
     [(''amount'', in_hp amount),
      (''node_public_key'', in_buffer (be_bytes 32 node_public_key)),
      (''node_network_key'', in_buffer (be_bytes 96 (unwrap_or consensus_key 0))),
      (''node_domain'', in_opt_String (map_option (ext_show_ip ext) node_domain)),
      (''worker_public_key'', in_buffer (be_bytes 32 (unwrap_or worker_public_key 0))),
      (''worker_domain'', in_opt_String (map_option (ext_show_ip ext) worker_domain)),
      (''primary_port'', in_opt_u16 (map_option po_primary ports)),
      (''worker_port'', in_opt_u16 (map_option po_worker ports)),
      (''mempool_port'', in_opt_u16 (map_option po_mempool ports)),
      (''rpc_port'', in_opt_u16 (map_option po_rpc ports)),
      (''pool_port'', in_opt_u16 (map_option po_pool ports)),
      (''pinger_port'', in_opt_u16 (map_option po_pinger ports)),
      (''handshake_http_port'', in_opt_u16 (map_option (hs_http \<circ> po_handshake) ports)),
      (''handshake_webrtc_port'', in_opt_u16 (map_option (hs_webrtc \<circ> po_handshake) ports)),
      (''handshake_webtransport_port'', in_opt_u16 (map_option (hs_webtransport \<circ> po_handshake) ports))]"

definition bool_u8 :: "bool \<Rightarrow> u8" where
  "bool_u8 b = (if b then 1 else 0)"

definition job_fields :: "Job \<Rightarrow> (string \<times> input) list" where
  "job_fields job =
     [(''service'', in_u32 (jf_service (job_info job))),
      (''frequency'', in_u32 (jf_frequency (job_info job))),
      (''arguments'', in_buffer (jf_arguments (job_info job))),
      (''amount'', in_u32 (jf_amount (job_info job))),
      (''assignee'', in_opt_u32 (job_assignee job))]"

definition job_update_fields :: "JobStatus \<Rightarrow> (string \<times> input) list" where
  "job_update_fields v =
     [(''last_run'', in_u64 (js_last_run v)), (''success'', in_u8 (bool_u8 (js_success v)))]
     @ (case js_message v of Some message \<Rightarrow> [(''message'', in_String message)] | None \<Rightarrow> [])"

definition method_transcript ::
    "externals \<Rightarrow> UpdateMethod \<Rightarrow> TranscriptBuilder \<Rightarrow> TranscriptBuilder option" where
  "method_transcript ext m = (case m of
     Deposit token amount \<Rightarrow> named_method ''deposit''
       [(''token'', in_tokens token), (''amount'', in_hp amount)]
   | SubmitDeliveryAcknowledgmentAggregation commodity service_id _ metadata \<Rightarrow>
       named_method ''submit_delivery_acknowledgment_aggregation''
       [(''commodity'', in_u128 commodity), (''service_id'', in_u32 service_id),
        (''metadata'', in_opt_buffer metadata)]
   | Withdraw amount token receiving_address \<Rightarrow> named_method ''withdraw''
       [(''amount'', in_hp amount), (''token'', in_tokens token),
        (''receiving_address'', in_buffer (be_bytes 20 receiving_address))]
   | ClearWithdraws withdraw_id \<Rightarrow> named_method ''clear_withdraws''
       [(''withdraw_id'', in_u64 withdraw_id)]
   | Mint amount token receiving_address eth_tx_hash block_number \<Rightarrow> named_method ''mint''
       [(''amount'', in_hp amount), (''token'', in_tokens token),
        (''receiving_address'', in_buffer (be_bytes 20 receiving_address)),
        (''eth_tx_hash'', in_buffer (be_bytes 32 eth_tx_hash)), (''block_number'', in_u64 block_number)]
   | ClearMints block_number \<Rightarrow> named_method ''clear_mints'' [(''block_number'', in_u64 block_number)]
   | Transfer amount token to \<Rightarrow> named_method ''transfer''
       [(''token'', in_tokens token), (''amount'', in_hp amount), (''to'', in_buffer (be_bytes 20 to))]
   | Stake amount node_public_key consensus_key node_domain worker_public_key worker_domain ports \<Rightarrow>
       named_method ''stake''
         (stake_fields ext amount node_public_key consensus_key node_domain worker_public_key
           worker_domain ports)
   | StakeLock node_key locked_for \<Rightarrow> named_method ''stake_lock''
       [(''node'', in_buffer (be_bytes 32 node_key)), (''locked_for'', in_u64 locked_for)]
   | Unstake amount node_key \<Rightarrow> named_method ''unstake''
       [(''node'', in_buffer (be_bytes 32 node_key)), (''amount'', in_hp amount)]
   | WithdrawUnstaked node_key recipient \<Rightarrow> named_method ''withdraw_unstaked''
       [(''node'', in_buffer (be_bytes 32 node_key)),
        (''recipient'', in_buffer (be_bytes 20 (unwrap_or recipient 0)))]
   | ChangeEpoch epoch \<Rightarrow> named_method ''change_epoch'' [(''epoch'', in_u64 epoch)]
   | CommitteeSelectionBeaconCommit commit \<Rightarrow> (\<lambda>b. do {
       b1 \<leftarrow> tb_with (''transaction_name'', in_str ''committee_selection_beacon_commit'') b;
       b2 \<leftarrow> tb_with (''commit'', in_buffer (be_bytes 32 commit)) b1;
       Some (with_prefix ''input'' b2)
     })
   | CommitteeSelectionBeaconReveal reveal \<Rightarrow> named_method ''committee_selection_beacon_reveal''
       [(''reveal'', in_buffer (be_bytes 32 reveal))]
   | CommitteeSelectionBeaconCommitPhaseTimeout epoch round \<Rightarrow>
       named_method ''committee_selection_beacon_commit_phase_timeout''
       [(''epoch'', in_u64 epoch), (''round'', in_u64 round)]
   | CommitteeSelectionBeaconRevealPhaseTimeout epoch round \<Rightarrow>
       named_method ''committee_selection_beacon_reveal_phase_timeout''
       [(''epoch'', in_u64 epoch), (''round'', in_u64 round)]
   | AddService service service_id \<Rightarrow> named_method ''add_service''
       [(''service_id'', in_u32 service_id), (''service'', in_service service)]
   | RemoveService service_id \<Rightarrow> named_method ''remove_service'' [(''service_id'', in_u32 service_id)]
   | Slash service_id node_key \<Rightarrow> named_method ''slash''
       [(''service_id'', in_u32 service_id), (''node'', in_buffer (be_bytes 32 node_key))]
   | SubmitReputationMeasurements measurements \<Rightarrow>
       listed_method ''submit_reputation_measurements''
         (map (\<lambda>(k, m). (show_digits (unat k), measurement_fields m)) measurements)
   | ChangeProtocolParam param v \<Rightarrow> named_method ''change_protocol_param''
       [(''param'', in_u8 (param_index param)), (''value'', in_buffer (param_get_bytes v))]
   | OptIn \<Rightarrow> tb_with (''transaction_name'', in_str ''opt_in'')
   | OptOut \<Rightarrow> tb_with (''transaction_name'', in_str ''opt_out'')
   | UpdateContentRegistry updates \<Rightarrow> listed_method ''update_content_registry''
       (map (\<lambda>(idx, u). (show_digits idx, [(''uri'', in_buffer (be_bytes 32 (cu_uri u))),
           (''remove'', in_u8 (bool_u8 (cu_remove u)))])) (enumerate 0 updates))
   | IncrementNonce \<Rightarrow> tb_with (''transaction_name'', in_str ''inc_nonce'')
   | AddJobs jobs \<Rightarrow> listed_method ''add_jobs''
       (map (\<lambda>job. (ext_encode_hex ext (job_hash job), job_fields job)) jobs)
   | RemoveJobs jobs \<Rightarrow> listed_method ''remove_jobs''
       (map (\<lambda>job. (''input'', [(''job'', in_buffer (be_bytes 32 job))])) jobs)
   | JobUpdates updates \<Rightarrow> listed_method ''job_updates''
       (map (\<lambda>(k, v). (ext_encode_hex ext k, job_update_fields v)) updates))"

definition FN_TXN_PAYLOAD_DOMAIN :: string where
  "FN_TXN_PAYLOAD_DOMAIN = ''fleek_network_txn_payload''"

definition sender_field :: "TransactionSender \<Rightarrow> string \<times> input" where
  "sender_field sender = (case sender of
     NodeMain pk \<Rightarrow> (''sender_node'', in_buffer (be_bytes 32 pk))
   | AccountOwner a \<Rightarrow> (''sender_account'', in_buffer (be_bytes 20 a))
   | NodeConsensus pk \<Rightarrow> (''sender_consensus'', in_buffer (be_bytes 96 pk)))"

definition transcript :: "externals \<Rightarrow> UpdatePayload \<Rightarrow> TranscriptBuilder option" where
  "transcript ext p = do {
     b \<leftarrow> with_all [(''nonce'', in_u64 (up_nonce p)), (''chain_id'', in_u32 (up_chain_id p)),
            sender_field (up_sender p)] (tb_empty FN_TXN_PAYLOAD_DOMAIN);
     method_transcript ext (up_method p) b
   }"

definition to_digest :: "externals \<Rightarrow> UpdatePayload \<Rightarrow> TxHash option" where
  "to_digest ext p = map_option (tb_hash ext) (transcript ext p)"

end
