(* ===== verification/Execution.thy ===== *)
theory Execution
  imports Ledger Staking Content_Registry Jobs Scores Epoch_Change Transcript
begin

text \<open>
  Verification and execution of transactions (\<^verbatim>\<open>core/application/src/state/executor.rs\<close>,
  \<^verbatim>\<open>core/types/src/transaction.rs\<close>, \<^verbatim>\<open>lib/fleek-crypto/src/transaction.rs\<close>,
  \<^verbatim>\<open>core/utils/src/eth.rs\<close>) and of blocks (\<^verbatim>\<open>core/application/src/env.rs\<close>).
\<close>

section \<open>Requests\<close>

text \<open>\<^verbatim>\<open>as_u32\<close> and \<^verbatim>\<open>as_u64\<close> of a 256-bit integer panic on overflow.\<close>

definition u256_as :: "u256 \<Rightarrow> 'a::len word option" where
  "u256_as w = (if unat w < 2 ^ LENGTH('a) then Some (ucast w) else None)"

definition txn_hash :: "externals \<Rightarrow> TransactionRequest \<Rightarrow> TxHash option" where
  "txn_hash ext txn = (case txn of
     UpdateReq r \<Rightarrow> to_digest ext (ur_payload r) | EthereumReq t \<Rightarrow> Some (ext_eth_hash ext t))"

definition txn_chain_id :: "TransactionRequest \<Rightarrow> ChainId option" where
  "txn_chain_id txn = (case txn of
     UpdateReq r \<Rightarrow> Some (up_chain_id (ur_payload r))
   | EthereumReq t \<Rightarrow> (case et_chain_id t of None \<Rightarrow> None | Some c \<Rightarrow> u256_as c))"

datatype TransactionDestination = Fleek UpdateMethod | Ethereum EthAddress

definition txn_to :: "TransactionRequest \<Rightarrow> TransactionDestination" where
  "txn_to txn = (case txn of
     UpdateReq r \<Rightarrow> Fleek (up_method (ur_payload r))
   | EthereumReq t \<Rightarrow> Ethereum (unwrap_or (et_to t) 0))"

datatype Event =
  TransferEvent EthAddress EthAddress EthAddress "18 HpUfixed" | ServiceEvent u32 bytes

definition txn_event :: "TransactionRequest \<Rightarrow> Event option" where
  "txn_event txn = (case txn_sender txn of
     AccountOwner sender \<Rightarrow> (case txn of
        UpdateReq r \<Rightarrow> (case up_method (ur_payload r) of
           Transfer amount token to \<Rightarrow> Some (TransferEvent (token_address token) sender to amount)
         | SubmitDeliveryAcknowledgmentAggregation _ service_id _ metadata \<Rightarrow>
             map_option (ServiceEvent service_id) metadata
         | _ \<Rightarrow> None)
      | EthereumReq _ \<Rightarrow> None)
   | _ \<Rightarrow> None)"

definition txn_nonce :: "TransactionRequest \<Rightarrow> Nonce option" where
  "txn_nonce txn = (case txn of
     UpdateReq r \<Rightarrow> Some (up_nonce (ur_payload r)) | EthereumReq t \<Rightarrow> u256_as (et_nonce t))"

section \<open>Signatures\<close>

definition sender_verify :: "externals \<Rightarrow> TransactionSender \<Rightarrow> TransactionSignature \<Rightarrow> TxHash \<Rightarrow> bool" where
  "sender_verify ext sender signature digest = (case (sender, signature) of
     (NodeConsensus pk, SigNodeConsensus sig) \<Rightarrow> ext_verify_consensus ext pk sig (be_bytes 32 digest)
   | (AccountOwner a, SigAccountOwner sig) \<Rightarrow> ext_verify_account ext a sig (be_bytes 32 digest)
   | (NodeMain pk, SigNodeMain sig) \<Rightarrow> ext_verify_node ext pk sig (be_bytes 32 digest)
   | _ \<Rightarrow> False)"

definition normalize_recovery_id :: "u64 \<Rightarrow> u8" where
  "normalize_recovery_id v =
     (if v = 0 then 0 else if v = 1 then 1 else if v = 27 then 0 else if v = 28 then 1
      else if v \<ge> 35 then ucast ((v - 1) mod 2) else 4)"

definition verify_signature :: "externals \<Rightarrow> EthersTransaction \<Rightarrow> EthAddress \<Rightarrow> bool" where
  "verify_signature ext txn sender =
     ext_verify_account ext sender
       (be_word (be_bytes 32 (et_r txn) @ be_bytes 32 (et_s txn) @ [normalize_recovery_id (et_v txn)]))
       (ext_typed_rlp ext txn)"

section \<open>Verification\<close>

definition verify_chain_id :: "app_state \<Rightarrow> TransactionRequest \<Rightarrow> (ExecutionError + unit) option" where
  "verify_chain_id s txn =
     (case tbl_get (st_metadata s) Metadata.ChainId of
        Some (Value.ChainId chain_id) \<Rightarrow> do {
          c \<leftarrow> txn_chain_id txn;
          Some (if chain_id = c then Inr () else Inl InvalidChainId)
        }
      | _ \<Rightarrow> Some (Inr ()))"

text \<open>The nonce check, per kind of sender.\<close>

definition check_nonce :: "app_state \<Rightarrow> UpdatePayload \<Rightarrow> ExecutionError + unit" where
  "check_nonce s p = (case up_sender p of
     NodeMain pk \<Rightarrow> (case tbl_get (st_pub_key_to_index s) pk of
        Some i \<Rightarrow> (case node s i of
           Some info \<Rightarrow> if up_nonce p \<noteq> ni_nonce info + 1 then Inl InvalidNonce else Inr ()
         | None \<Rightarrow> Inl NodeDoesNotExist)
      | None \<Rightarrow> Inl NodeDoesNotExist)
   | NodeConsensus pk \<Rightarrow> (case tbl_get (st_consensus_key_to_index s) pk of
        Some i \<Rightarrow> (case node s i of
           Some info \<Rightarrow> if up_nonce p \<noteq> ni_nonce info + 1 then Inl InvalidNonce else Inr ()
         | None \<Rightarrow> Inr ())
      | None \<Rightarrow> Inl NodeDoesNotExist)
   | AccountOwner a \<Rightarrow> if up_nonce p \<noteq> acc_nonce (account s a) + 1 then Inl InvalidNonce else Inr ())"

definition verify_fleek_transaction ::
    "externals \<Rightarrow> app_state \<Rightarrow> UpdateRequest \<Rightarrow> (ExecutionError + unit) option" where
  "verify_fleek_transaction ext s txn = do {
     digest \<leftarrow> to_digest ext (ur_payload txn);
     Some (if tbl_get (st_executed_digests s) digest \<noteq> None then Inl AlreadyExecutedDigest
       else (case check_nonce s (ur_payload txn) of
          Inl e \<Rightarrow> Inl e
        | Inr _ \<Rightarrow> if sender_verify ext (up_sender (ur_payload txn)) (ur_signature txn) digest
            then Inr () else Inl InvalidSignature))
   }"

text \<open>\<^verbatim>\<open>recover_from_mut\<close> stores the recovered address in the transaction.\<close>

definition verify_ethereum_transaction ::
    "externals \<Rightarrow> app_state \<Rightarrow> EthersTransaction \<Rightarrow>
     ((ExecutionError + unit) \<times> EthersTransaction) option" where
  "verify_ethereum_transaction ext s txn =
     (case ext_recover_from ext txn of
        None \<Rightarrow> Some (Inl InvalidSignature, txn)
      | Some sender \<Rightarrow>
          let txn' = txn\<lparr>et_from := sender\<rparr>
          in do {
            nonce \<leftarrow> u256_as (et_nonce txn');
            Some (if nonce \<noteq> acc_nonce (account s sender) + 1 then Inl InvalidNonce
              else if verify_signature ext txn' sender then Inr () else Inl InvalidSignature, txn')
          })"

definition verify_transaction ::
    "externals \<Rightarrow> app_state \<Rightarrow> TransactionRequest \<Rightarrow>
     ((ExecutionError + unit) \<times> TransactionRequest) option" where
  "verify_transaction ext s txn = do {
     c \<leftarrow> verify_chain_id s txn;
     (case c of
        Inl e \<Rightarrow> Some (Inl e, txn)
      | Inr _ \<Rightarrow> (case txn of
           UpdateReq r \<Rightarrow> map_option (\<lambda>v. (v, txn)) (verify_fleek_transaction ext s r)
         | EthereumReq t \<Rightarrow>
             map_option (\<lambda>(v, t'). (v, EthereumReq t')) (verify_ethereum_transaction ext s t)))
   }"

section \<open>Execution\<close>

definition execute_method ::
    "externals \<Rightarrow> TransactionSender \<Rightarrow> UpdateMethod \<Rightarrow> app_state \<Rightarrow>
     (TransactionResponse \<times> app_state) option" where
  "execute_method ext sender m s = (case m of
     SubmitDeliveryAcknowledgmentAggregation commodity service_id _ _ \<Rightarrow>
       submit_pod sender commodity service_id s
   | Withdraw amount token receiving_address \<Rightarrow> Some (withdraw sender receiving_address amount token s)
   | ClearWithdraws withdraw_id \<Rightarrow> clear_withdraws sender withdraw_id s
   | Mint amount token receiving_address eth_tx_hash block_number \<Rightarrow>
       mint sender receiving_address amount token eth_tx_hash block_number s
   | ClearMints block_number \<Rightarrow> clear_mints sender block_number s
   | Deposit token amount \<Rightarrow> deposit sender amount token s
   | Transfer amount token to \<Rightarrow> Some (transfer sender amount token to s)
   | Stake amount node_public_key consensus_key node_domain worker_public_key worker_domain ports \<Rightarrow>
       stake sender amount node_public_key consensus_key node_domain worker_public_key worker_domain
         ports s
   | StakeLock node_key locked_for \<Rightarrow> Some (stake_lock sender node_key locked_for s)
   | Unstake amount node_key \<Rightarrow> unstake sender amount node_key s
   | WithdrawUnstaked node_key recipient \<Rightarrow> Some (withdraw_unstaked sender node_key recipient s)
   | ChangeEpoch epoch \<Rightarrow> change_epoch sender epoch s
   | CommitteeSelectionBeaconCommit commit \<Rightarrow> committee_selection_beacon_commit sender commit s
   | CommitteeSelectionBeaconReveal reveal \<Rightarrow> committee_selection_beacon_reveal ext sender reveal s
   | CommitteeSelectionBeaconCommitPhaseTimeout epoch round \<Rightarrow>
       committee_selection_beacon_commit_phase_timeout sender epoch round s
   | CommitteeSelectionBeaconRevealPhaseTimeout epoch round \<Rightarrow>
       committee_selection_beacon_reveal_phase_timeout ext sender epoch round s
   | AddService service service_id \<Rightarrow> Some (add_service sender service service_id, s)
   | RemoveService service_id \<Rightarrow> Some (remove_service sender service_id, s)
   | Slash service_id node_key \<Rightarrow> Some (slash sender service_id node_key, s)
   | SubmitReputationMeasurements measurements \<Rightarrow> submit_reputation_measurements sender measurements s
   | ChangeProtocolParam param v \<Rightarrow> change_protocol_param sender param v s
   | OptIn \<Rightarrow> opt_in sender s
   | OptOut \<Rightarrow> opt_out sender s
   | UpdateContentRegistry updates \<Rightarrow> update_content_registry sender updates s
   | IncrementNonce \<Rightarrow> Some (Success EDNone, s)
   | AddJobs jobs \<Rightarrow> add_jobs ext jobs s
   | RemoveJobs jobs \<Rightarrow> Some (remove_jobs jobs s)
   | JobUpdates updates \<Rightarrow> Some (update_jobs updates s))"

definition execute_fleek_transaction ::
    "externals \<Rightarrow> UpdateRequest \<Rightarrow> app_state \<Rightarrow> (TransactionResponse \<times> app_state) option" where
  "execute_fleek_transaction ext txn s =
     execute_method ext (up_sender (ur_payload txn)) (up_method (ur_payload txn)) s"

definition FLEEK_CONTRACT :: EthAddress where
  "FLEEK_CONTRACT = 0x0606060606060606060606060606060606060606"

definition token_of_string :: "string \<Rightarrow> Tokens option" where
  "token_of_string v =
     (if v = ''flk'' \<or> v = ''FLK'' then Some FLK
      else if v = ''usdc'' \<or> v = ''USDC'' then Some USDC else None)"

definition execute_ethereum_transaction ::
    "externals \<Rightarrow> EthersTransaction \<Rightarrow> app_state \<Rightarrow> (TransactionResponse \<times> app_state) option" where
  "execute_ethereum_transaction ext txn s =
     (case et_to txn of
        None \<Rightarrow> Some (Revert InvalidStateFunction, s)
      | Some to_address \<Rightarrow>
          let sender = et_from txn
          in if to_address = FLEEK_CONTRACT then
               (case ext_decode_call ext (et_input txn) of
                  Some (DepositCall token amount) \<Rightarrow> (case token_of_string token of
                     None \<Rightarrow> Some (Revert InvalidToken, s)
                   | Some t \<Rightarrow> deposit (AccountOwner sender) (HpUfixed amount) t s)
                | Some (WithdrawCall amount token recipient) \<Rightarrow> (case token_of_string token of
                     None \<Rightarrow> Some (Revert InvalidToken, s)
                   | Some t \<Rightarrow> Some (withdraw (AccountOwner sender) recipient (HpUfixed amount) t s))
                | Some (UnstakeCall amount node_public_key) \<Rightarrow>
                    unstake (AccountOwner sender) (HpUfixed amount) node_public_key s
                | Some (WithdrawUnstakedCall node_public_key _) \<Rightarrow>
                    Some (withdraw_unstaked (AccountOwner sender) node_public_key None s)
                | Some (StakeCall amount node_public_key consensus_key domain _ _) \<Rightarrow>
                    (case ext_parse_ip ext domain of
                       None \<Rightarrow> Some (Revert InvalidInternetAddress, s)
                     | Some node_domain \<Rightarrow>
                         if length consensus_key \<noteq> 96 then Some (Revert InvalidConsensusKey, s)
                         else stake (AccountOwner sender) (HpUfixed amount) node_public_key
                           (Some (be_word consensus_key)) (Some node_domain) (Some node_public_key)
                           (Some node_domain) (Some NodePorts_default) s)
                | Some (ApproveClientKeyCall client_key) \<Rightarrow> Some (approve_client_key sender client_key s)
                | Some RevokeClientKeyCall \<Rightarrow> Some (revoke_client_key sender s)
                | None \<Rightarrow> Some (Revert InvalidStateFunction, s))
             else Some (transfer (AccountOwner sender) (HpUfixed (et_value txn)) FLK to_address s))"

definition execute_transaction ::
    "externals \<Rightarrow> TransactionRequest \<Rightarrow> app_state \<Rightarrow> (TransactionResponse \<times> app_state) option" where
  "execute_transaction ext txn s = do {
     hash \<leftarrow> txn_hash ext txn;
     (response, s1) \<leftarrow> (case txn of
        UpdateReq r \<Rightarrow> execute_fleek_transaction ext r s
      | EthereumReq t \<Rightarrow> execute_ethereum_transaction ext t s);
     s2 \<leftarrow> increment_nonce (txn_sender txn)
            (s1\<lparr>st_executed_digests := tbl_set (st_executed_digests s1) hash ()\<rparr>);
     Some (response, s2)
   }"

section \<open>Blocks\<close>

record Block =
  bl_digest :: u256
  bl_sub_dag_index :: u64
  bl_sub_dag_round :: u64
  bl_transactions :: "TransactionRequest list"

record TransactionReceipt =
  tr_block_hash :: u256
  tr_block_number :: u64
  tr_transaction_index :: u64
  tr_transaction_hash :: TxHash
  tr_from :: TransactionSender
  tr_to :: TransactionDestination
  tr_response :: TransactionResponse
  tr_event :: "Event option"

record BlockExecutionResponse =
  br_block_number :: u64
  br_block_hash :: u256
  br_parent_hash :: u256
  br_change_epoch :: bool
  br_node_registry_changes :: BlockNodeRegistryChanges
  br_txn_receipts :: "TransactionReceipt list"

record BlockReceipt =
  rc_block_number :: u64
  rc_block_hash :: u256
  rc_parent_hash :: u256
  rc_change_epoch :: bool
  rc_node_registry_changes :: BlockNodeRegistryChanges
  rc_txn_hashes :: "TxHash list"

definition to_receipts :: "BlockExecutionResponse \<Rightarrow> BlockReceipt \<times> TransactionReceipt list" where
  "to_receipts r =
     (\<lparr>rc_block_number = br_block_number r, rc_block_hash = br_block_hash r,
        rc_parent_hash = br_parent_hash r, rc_change_epoch = br_change_epoch r,
        rc_node_registry_changes = br_node_registry_changes r,
        rc_txn_hashes = map tr_transaction_hash (br_txn_receipts r)\<rparr>, br_txn_receipts r)"

text \<open>One iteration of the loop: verify, execute, and the receipt.\<close>

definition run_transaction ::
    "externals \<Rightarrow> u256 \<Rightarrow> u64 \<Rightarrow> nat \<Rightarrow> TransactionRequest \<Rightarrow> app_state \<Rightarrow>
     (TransactionReceipt \<times> app_state) option" where
  "run_transaction ext digest block_number index txn s = do {
     (v, txn') \<leftarrow> verify_transaction ext s txn;
     (results, s') \<leftarrow> (case v of
        Inr _ \<Rightarrow> execute_transaction ext txn' s
      | Inl err \<Rightarrow> Some (Revert err, s));
     hash \<leftarrow> txn_hash ext txn';
     Some (\<lparr>tr_block_hash = digest, tr_block_number = block_number,
         tr_transaction_index = of_nat index, tr_transaction_hash = hash,
         tr_from = txn_sender txn', tr_to = txn_to txn', tr_response = results,
         tr_event = (if is_success results then txn_event txn' else None)\<rparr>, s')
   }"

fun run_transactions ::
    "externals \<Rightarrow> u256 \<Rightarrow> u64 \<Rightarrow> nat \<Rightarrow> TransactionRequest list \<Rightarrow> app_state \<Rightarrow>
     (TransactionReceipt list \<times> app_state) option" where
  "run_transactions ext digest n i [] s = Some ([], s)"
| "run_transactions ext digest n i (t # ts) s = do {
     (r, s1) \<leftarrow> run_transaction ext digest n i t s;
     (rs, s2) \<leftarrow> run_transactions ext digest n (i + 1) ts s1;
     Some (r # rs, s2)
   }"

definition run_block ::
    "externals \<Rightarrow> Block \<Rightarrow> app_state \<Rightarrow> (BlockExecutionResponse \<times> app_state) option" where
  "run_block ext block s = do {
     last_block_number \<leftarrow> get_block_number s;
     let block_number = last_block_number + 1;
     let committee_before_execution = get_current_committee s;
     (receipts, s1) \<leftarrow>
       run_transactions ext (bl_digest block) block_number 0 (bl_transactions block) s;
     let change_epoch = list_ex (\<lambda>r. tr_response r = Success EpochChange) receipts;
     let com = get_current_committee s1;
     let changes = (case com of
            Some c \<Rightarrow> unwrap_or (tbl_get (com_node_registry_changes c) block_number) [] | None \<Rightarrow> []);
     let has_committee_members_changes =
           (map_option com_members committee_before_execution \<noteq> map_option com_members com);
     let s2 = (if has_committee_members_changes then set_epoch_era (get_epoch_era s1 + 1) s1 else s1);
     let (sub_dag_index, sub_dag_round) =
           (if change_epoch \<or> has_committee_members_changes then (0, 0)
            else (bl_sub_dag_index block, bl_sub_dag_round block));
     s3 \<leftarrow> set_last_block (bl_digest block) sub_dag_index sub_dag_round s2;
     Some (\<lparr>br_block_number = block_number, br_block_hash = bl_digest block,
         br_parent_hash = get_block_hash s, br_change_epoch = change_epoch,
         br_node_registry_changes = changes, br_txn_receipts = receipts\<rparr>, s3)
   }"

text \<open>After an epoch change the checkpoint's hash is recorded.\<close>

definition update_last_epoch_hash :: "u256 \<Rightarrow> app_state \<Rightarrow> app_state" where
  "update_last_epoch_hash state_hash s = set_last_epoch_hash state_hash s"

text \<open>Verification of a Fleek transaction does not touch the transaction.\<close>

lemma verify_update_same:
  assumes "verify_transaction ext s (UpdateReq r) = Some (v, txn')"
  shows "txn' = UpdateReq r"
proof -
  obtain c where c: "verify_chain_id s (UpdateReq r) = Some c"
    using assms by (auto simp: verify_transaction_def bind_eq_Some_conv)
  then show ?thesis using assms by (cases c) (auto simp: verify_transaction_def)
qed

end
