(* ===== verification/Frames.thy ===== *)
theory Frames
  imports Execution
begin

text \<open>
  What the handlers leave alone. A handler reaches a few tables of the state; the lemmas here say
  which parts of the state each handler cannot change: the content registry and the jobs
  (\<open>aux_view\<close>), and the epoch, the beacon and the current committee (\<open>beacon_view\<close>). The invariants
  that span the transactions rest on them.
\<close>

section \<open>Views\<close>

definition aux_view where
  "aux_view s = (st_uri_to_node s, st_node_to_uri s, st_jobs s, st_assigned_jobs s)"

text \<open>The committee without its record of registry changes.\<close>

definition committee_core where
  "committee_core c = (com_members c, com_ready_to_change c, com_signalled_commit_phase_timeout c,
     com_signalled_reveal_phase_timeout c, com_active_node_set c)"

definition beacon_view where
  "beacon_view s = (get_epoch s, beacon_phase s, committee_core (committee s (get_epoch s)),
     st_committee_selection_beacon s, st_non_revealing_node s)"

definition frame :: "app_state \<Rightarrow> app_state \<Rightarrow> bool" where
  "frame s s' \<longleftrightarrow> aux_view s' = aux_view s \<and> beacon_view s' = beacon_view s"

lemma frame_refl [simp]: "frame s s"
  by (simp add: frame_def)

lemma frame_trans: "frame s s' \<Longrightarrow> frame s' s'' \<Longrightarrow> frame s s''"
  by (simp add: frame_def)

lemma aux_view_simps [simp]:
  "aux_view (set_account_info a x s) = aux_view s"
  "aux_view (set_node_info i n s) = aux_view s"
  "aux_view (set_metadata k v s) = aux_view s"
  "aux_view (set_committee_info e c s) = aux_view s"
  by (simp_all add: aux_view_def set_defs)

lemma beacon_view_simps [simp]:
  "beacon_view (set_account_info a x s) = beacon_view s"
  "beacon_view (set_node_info i n s) = beacon_view s"
  "k \<noteq> Metadata.Epoch \<Longrightarrow> k \<noteq> Metadata.CommitteeSelectionBeaconPhase \<Longrightarrow>
     beacon_view (set_metadata k v s) = beacon_view s"
  by (simp_all add: beacon_view_def set_defs get_epoch_def beacon_phase_def)

text \<open>Tables outside both views.\<close>

lemma frame_other [simp]:
  "frame s (s'\<lparr>st_withdraws := a\<rparr>) = frame s s'"
  "frame s (s'\<lparr>st_mints := b\<rparr>) = frame s s'"
  "frame s (s'\<lparr>st_parameters := c\<rparr>) = frame s s'"
  "frame s (s'\<lparr>st_rep_measurements := d\<rparr>) = frame s s'"
  "frame s (s'\<lparr>st_submitted_rep_measurements := f\<rparr>) = frame s s'"
  "frame s (s'\<lparr>st_current_epoch_served := g\<rparr>) = frame s s'"
  "frame s (s'\<lparr>st_total_served := h\<rparr>) = frame s s'"
  "frame s (s'\<lparr>st_service_revenue := i\<rparr>) = frame s s'"
  "frame s (s'\<lparr>st_executed_digests := j\<rparr>) = frame s s'"
  "frame s (s'\<lparr>st_pub_key_to_index := k\<rparr>) = frame s s'"
  "frame s (s'\<lparr>st_consensus_key_to_index := l\<rparr>) = frame s s'"
  "frame s (s'\<lparr>st_rep_scores := m\<rparr>) = frame s s'"
  "frame s (s'\<lparr>st_uptime := n\<rparr>) = frame s s'"
  "frame s (s'\<lparr>st_latencies := o'\<rparr>) = frame s s'"
  by (simp_all add: frame_def aux_view_def beacon_view_def get_epoch_def beacon_phase_def)

lemma frame_set [simp]:
  "frame s (set_account_info x y s') = frame s s'"
  "frame s (set_node_info i n s') = frame s s'"
  "k \<noteq> Metadata.Epoch \<Longrightarrow> k \<noteq> Metadata.CommitteeSelectionBeaconPhase \<Longrightarrow>
     frame s (set_metadata k v s') = frame s s'"
  by (simp_all add: frame_def)

section \<open>The handlers\<close>

lemma record_change_frame:
  assumes "record_node_registry_change pk change s = Some s'"
  shows "frame s s'"
  using assms
  by (auto simp: record_node_registry_change_def frame_def beacon_view_def get_epoch_def
      beacon_phase_def set_committee_info_def committee_core_def aux_view_def bind_eq_Some_conv Let_def)

lemma create_node_frame: "frame s (snd (create_node info s))"
  by (simp add: create_node_def Let_def)

lemma new_node_frame:
  "record_node_registry_change pk change (snd (create_node info s)) = Some s' \<Longrightarrow> frame s s'"
  using frame_trans[OF create_node_frame record_change_frame] .

lemma submit_pod_frame: "submit_pod sender c i s = Some (r, s') \<Longrightarrow> frame s s'"
  by (auto simp: submit_pod_def bind_eq_Some_conv Let_def)
    (auto simp: Let_def bind_eq_Some_conv split: sum.split_asm option.split_asm if_split_asm)

lemma withdraw_frame: "withdraw sender a x t s = (r, s') \<Longrightarrow> frame s s'"
  by (auto simp: withdraw_def Let_def split: sum.split_asm option.split_asm if_split_asm Tokens.split_asm)

lemma governance_frame:
  "clear_withdraws sender w s = Some (r, s') \<Longrightarrow> frame s s'"
  "clear_mints sender b s = Some (r, s') \<Longrightarrow> frame s s'"
  "mint sender a x t h b s = Some (r, s') \<Longrightarrow> frame s s'"
  "change_protocol_param sender p v s = Some (r, s') \<Longrightarrow> frame s s'"
  by (auto simp: clear_withdraws_def clear_mints_def mint_def change_protocol_param_def Let_def
      bind_eq_Some_conv)
    (auto simp: Let_def bind_eq_Some_conv split: sum.split_asm if_split_asm)

lemma account_frame:
  "deposit sender x t s = Some (r, s') \<Longrightarrow> frame s s'"
  "transfer sender x t a s = (r, s') \<Longrightarrow> frame s s'"
  "approve_client_key b k s = (r, s') \<Longrightarrow> frame s s'"
  "revoke_client_key b s = (r, s') \<Longrightarrow> frame s s'"
  by (auto simp: deposit_def transfer_def approve_client_key_def revoke_client_key_def Let_def
      split: sum.split_asm if_split_asm Tokens.split_asm)

lemma stake_frame:
  assumes "stake sender amount pk ck nd wk wd po s = Some (r, s')"
  shows "frame s s'"
  using assms
  by (auto simp: stake_def Let_def bind_eq_Some_conv dest!: new_node_frame
      split: sum.split_asm if_split_asm option.split_asm)

lemma staking_frame:
  "stake_lock sender pk l s = (r, s') \<Longrightarrow> frame s s'"
  "unstake sender x pk s = Some (r, s') \<Longrightarrow> frame s s'"
  "withdraw_unstaked sender pk rc s = (r, s') \<Longrightarrow> frame s s'"
  by (auto simp: stake_lock_def unstake_def withdraw_unstaked_def Let_def
      bind_eq_Some_conv)
    (auto simp: Let_def bind_eq_Some_conv split: sum.split_asm if_split_asm option.split_asm prod.split_asm)

lemma opt_frame:
  "opt_in sender s = Some (r, s') \<Longrightarrow> frame s s'"
  "opt_out sender s = Some (r, s') \<Longrightarrow> frame s s'"
  by (auto simp: opt_in_def opt_out_def bind_eq_Some_conv)
    (auto simp: Let_def bind_eq_Some_conv split: sum.split_asm option.split_asm)

lemma submit_reputation_frame:
  assumes "submit_reputation_measurements sender ms s = Some (r, s')"
  shows "frame s s'"
proof -
  have loop: "frame t t'" if "for_each (submit_one i) ms t = Some t'" for i t t'
    by (rule for_each_invariant[OF that]) (auto simp: submit_one_def bind_eq_Some_conv split: if_splits)
  obtain g where g: "only_node_with_sufficient_stake_and_participating s sender = Some g"
    using assms by (auto simp: submit_reputation_measurements_def bind_eq_Some_conv)
  show ?thesis
  proof (cases g)
    case (Inr i)
    have loop': "frame s s'" if "for_each (submit_one i) ms
        (s\<lparr>st_submitted_rep_measurements := x\<rparr>) = Some s'" for x
      using loop[OF that] by (rule frame_trans[rotated]) simp
    show ?thesis
      using assms g Inr
      by (auto simp: submit_reputation_measurements_def Let_def bind_eq_Some_conv
          dest!: loop' split: if_split_asm)
  qed (use assms g in \<open>auto simp: submit_reputation_measurements_def\<close>)
qed

lemma increment_nonce_frame: "increment_nonce sender s = Some s' \<Longrightarrow> frame s s'"
  by (auto simp: increment_nonce_def Let_def bind_eq_Some_conv split: TransactionSender.splits)

section \<open>The content registry and the jobs\<close>

lemma beacon_view_other [simp]:
  "beacon_view (s\<lparr>st_uri_to_node := a\<rparr>) = beacon_view s"
  "beacon_view (s\<lparr>st_node_to_uri := b\<rparr>) = beacon_view s"
  "beacon_view (s\<lparr>st_jobs := c\<rparr>) = beacon_view s"
  "beacon_view (s\<lparr>st_assigned_jobs := d\<rparr>) = beacon_view s"
  "beacon_view (s\<lparr>st_executed_digests := f\<rparr>) = beacon_view s"
  by (simp_all add: beacon_view_def get_epoch_def beacon_phase_def)

lemma update_content_registry_view:
  assumes "update_content_registry sender us s = Some (r, s')"
  shows "beacon_view s' = beacon_view s"
  by (cases rule: update_content_registry_cases[OF assms]) (simp_all add: commit_staged_def)

lemma clean_up_content_registry_view: "beacon_view (clean_up_content_registry s) = beacon_view s"
  unfolding clean_up_content_registry_def
  by (rule fold_field)
    (auto simp: clear_content_registry_def Let_def split: option.splits sum.splits if_splits)

lemma jobs_view:
  "add_jobs ext js s = Some (r, s') \<Longrightarrow> beacon_view s' = beacon_view s"
  "reassign_jobs ext s = Some s' \<Longrightarrow> beacon_view s' = beacon_view s"
  "beacon_view (snd (remove_jobs hs s)) = beacon_view s"
  "beacon_view (snd (update_jobs us s)) = beacon_view s"
proof -
  show add: "beacon_view s' = beacon_view s" if "add_jobs ext js s = Some (r, s')" for js s r s'
    using that by (auto simp: add_jobs_def Let_def bind_eq_Some_conv)
  show "beacon_view s' = beacon_view s" if "reassign_jobs ext s = Some s'" for s'
    using that by (auto simp: reassign_jobs_def Let_def dest!: add)
  show "beacon_view (snd (remove_jobs hs s)) = beacon_view s"
    unfolding remove_jobs_def snd_conv
    by (rule fold_field) (auto simp: remove_job_def Let_def split: option.splits)
  show "beacon_view (snd (update_jobs us s)) = beacon_view s"
    unfolding update_jobs_def snd_conv
    by (rule fold_field) (auto simp: update_job_def split: option.splits)
qed

section \<open>The parts of the epoch change\<close>

interpretation rewards_frame: payment_invariant "frame s" for s
proof (unfold_locales, goal_cases)
  case (1 t x owner)
  then show ?case by (simp add: mint_and_transfer_stables_def Let_def)
next
  case (2 t y owner t')
  then show ?case
    by (auto simp: mint_and_transfer_flk_def Let_def bind_eq_Some_conv split: if_splits)
qed simp_all

lemma scores_frame:
  assumes "executor_reputation_scores s = Some s'"
  shows "frame s s'"
proof -
  have node_step: "frame s t'" if "score_node rs d new i t = Some t'" "frame s t" for rs d new i t t'
    using that
    by (cases "unwrap_or (tbl_get new i) (None, None)")
      (auto simp: score_node_def Let_def bind_eq_Some_conv, auto simp: Let_def split: option.splits)
  obtain rs d new t u where t: "for_each (score_node rs d new) (tbl_keys (st_node_info s))
      (s\<lparr>st_uptime := u\<rparr>) = Some t" and s': "s' = clear_measurements (update_latencies t)"
    using assms by (auto simp: executor_reputation_scores_def Let_def bind_eq_Some_conv)
  have "frame s t" by (rule for_each_invariant[OF t]) (auto intro: node_step)
  then show ?thesis unfolding s' by (simp add: clear_measurements_def update_latencies_def Let_def)
qed

lemma choose_new_committee_frame: "choose_new_committee ext b s = Some (c, s') \<Longrightarrow> frame s s'"
  by (erule choose_new_committee_result) simp

section \<open>The beacon leaves the content registry and the jobs alone\<close>

lemma aux_view_other [simp]:
  "aux_view (s\<lparr>st_committee_selection_beacon := a\<rparr>) = aux_view s"
  "aux_view (s\<lparr>st_non_revealing_node := b\<rparr>) = aux_view s"
  "aux_view (s\<lparr>st_metadata := c\<rparr>) = aux_view s"
  by (simp_all add: aux_view_def)

end
