(* ===== verification/Chain.thy ===== *)
theory Chain
  imports Execution
begin

text \<open>
  Histories: the states that blocks lead to, and the rule by which a property of all transactions
  becomes a property of all reachable states.
\<close>

section \<open>Reachable states\<close>

text \<open>The states that blocks lead to, and how many transactions those blocks hold.\<close>

inductive reachable :: "externals \<Rightarrow> app_state \<Rightarrow> nat \<Rightarrow> app_state \<Rightarrow> bool" for ext s0 where
  start: "reachable ext s0 0 s0"
| block: "reachable ext s0 n s \<Longrightarrow> run_block ext b s = Some (resp, s') \<Longrightarrow>
    reachable ext s0 (length (bl_transactions b) + n) s'"
| checkpoint: "reachable ext s0 n s \<Longrightarrow> reachable ext s0 n (update_last_epoch_hash h s)"

text \<open>The same for blocks all of whose Fleek transactions call methods that satisfy \<open>A\<close>.\<close>

definition allows :: "(UpdateMethod \<Rightarrow> bool) \<Rightarrow> TransactionRequest \<Rightarrow> bool" where
  "allows A txn = (case txn of UpdateReq u \<Rightarrow> A (up_method (ur_payload u)) | EthereumReq _ \<Rightarrow> True)"

inductive reachable_by ::
    "externals \<Rightarrow> (UpdateMethod \<Rightarrow> bool) \<Rightarrow> app_state \<Rightarrow> nat \<Rightarrow> app_state \<Rightarrow> bool" for ext A s0 where
  start: "reachable_by ext A s0 0 s0"
| block: "reachable_by ext A s0 n s \<Longrightarrow> run_block ext b s = Some (resp, s') \<Longrightarrow>
    list_all (allows A) (bl_transactions b) \<Longrightarrow> reachable_by ext A s0 (length (bl_transactions b) + n) s'"
| checkpoint: "reachable_by ext A s0 n s \<Longrightarrow> reachable_by ext A s0 n (update_last_epoch_hash h s)"

lemma allows_any [simp]: "allows (\<lambda>_. True) txn"
  by (simp add: allows_def split: TransactionRequest.split)

lemma reachable_by_any: "reachable ext s0 n s \<Longrightarrow> reachable_by ext (\<lambda>_. True) s0 n s"
  by (induction rule: reachable.induct) (auto intro: reachable_by.intros simp: list_all_iff)

section \<open>What a transaction does to a state\<close>

lemma execute_transaction_cases:
  assumes "execute_transaction ext txn s = Some (r, s')"
  obtains h s1 where "txn_hash ext txn = Some h"
    "(case txn of UpdateReq u \<Rightarrow> execute_method ext (up_sender (ur_payload u)) (up_method (ur_payload u)) s
       | EthereumReq t \<Rightarrow> execute_ethereum_transaction ext t s) = Some (r, s1)"
    "increment_nonce (txn_sender txn)
       (s1\<lparr>st_executed_digests := tbl_set (st_executed_digests s1) h ()\<rparr>) = Some s'"
  using assms unfolding execute_transaction_def execute_fleek_transaction_def
  by (auto simp: bind_eq_Some_conv)

lemma run_transaction_cases:
  assumes "run_transaction ext d n i txn s = Some (rc, s')"
  obtains (rejected) e txn' where "verify_transaction ext s txn = Some (Inl e, txn')"
      "tr_response rc = Revert e" "s' = s"
  | (executed) txn' where "verify_transaction ext s txn = Some (Inr (), txn')"
      "execute_transaction ext txn' s = Some (tr_response rc, s')"
proof -
  obtain v txn' where v: "verify_transaction ext s txn = Some (v, txn')"
    using assms by (auto simp: run_transaction_def bind_eq_Some_conv)
  show thesis
  proof (cases v)
    case (Inl e)
    then show thesis using assms v rejected by (auto simp: run_transaction_def bind_eq_Some_conv)
  next
    case (Inr u)
    then show thesis using assms v executed
      by (auto simp: run_transaction_def bind_eq_Some_conv split: prod.split_asm)
  qed
qed

text \<open>Verification recovers the sender of an Ethereum transaction and changes nothing else.\<close>

lemma verify_allows:
  assumes "verify_transaction ext s txn = Some (v, txn')"
  shows "allows A txn' = allows A txn"
proof (cases txn)
  case (UpdateReq r)
  then show ?thesis using verify_update_same assms by blast
next
  case (EthereumReq t)
  then obtain c where c: "verify_chain_id s (EthereumReq t) = Some c"
    using assms by (auto simp: verify_transaction_def bind_eq_Some_conv)
  then have "\<exists>t'. txn' = EthereumReq t'"
    using assms EthereumReq by (cases c) (auto simp: verify_transaction_def)
  then show ?thesis by (auto simp: allows_def EthereumReq)
qed

section \<open>Invariants of transactions\<close>

text \<open>The metadata that block execution itself writes.\<close>

definition block_metadata :: "Metadata set" where
  "block_metadata = {Metadata.EpochEra, Metadata.LastBlockHash, Metadata.SubDagIndex,
     Metadata.SubDagRound, Metadata.BlockNumber, Metadata.LastEpochHash}"

text \<open>
  A property that each transaction may use up one unit of: \<open>Q (k + n)\<close> before \<open>n\<close> transactions gives
  \<open>Q k\<close> after them. A transaction is its handler, after which \<open>R k\<close> holds, and the increment of the
  sender's nonce, after which \<open>Q k\<close> holds. Only the methods that satisfy \<open>A\<close> are considered.
\<close>

locale restricted_budget =
  fixes ext :: externals and A :: "UpdateMethod \<Rightarrow> bool" and Q R :: "nat \<Rightarrow> app_state \<Rightarrow> bool"
  assumes allowed_uses: "Q (Suc k) s \<Longrightarrow> A m \<Longrightarrow> execute_method ext sender m s = Some (r, s') \<Longrightarrow> R k s'"
    and eth_uses: "Q (Suc k) s \<Longrightarrow> execute_ethereum_transaction ext t s = Some (r, s') \<Longrightarrow> R k s'"
    and mark_keeps: "R k s \<Longrightarrow> R k (s\<lparr>st_executed_digests := d\<rparr>)"
    and bump_uses: "R k s \<Longrightarrow> increment_nonce sender s = Some s' \<Longrightarrow> Q k s'"
    and one_less: "Q (Suc k) s \<Longrightarrow> Q k s"
begin

lemma allowed_transaction:
  assumes "execute_transaction ext txn s = Some (r, s')" "allows A txn" "Q (Suc k) s"
  shows "Q k s'"
proof (rule execute_transaction_cases[OF assms(1)])
  fix h s1
  assume x: "(case txn of UpdateReq u \<Rightarrow>
        execute_method ext (up_sender (ur_payload u)) (up_method (ur_payload u)) s
      | EthereumReq t \<Rightarrow> execute_ethereum_transaction ext t s) = Some (r, s1)"
    and n: "increment_nonce (txn_sender txn)
       (s1\<lparr>st_executed_digests := tbl_set (st_executed_digests s1) h ()\<rparr>) = Some s'"
  have "R k s1"
  proof (cases txn)
    case (UpdateReq u)
    with x assms(2) show ?thesis by (intro allowed_uses[OF assms(3)]) (simp_all add: allows_def)
  next
    case (EthereumReq t)
    with x show ?thesis by (intro eth_uses[OF assms(3)]) simp
  qed
  then show "Q k s'" by (rule bump_uses[OF mark_keeps n])
qed

lemma allowed_transactions:
  "run_transactions ext d n i txns s = Some (receipts, s') \<Longrightarrow> list_all (allows A) txns \<Longrightarrow>
   Q (k + length txns) s \<Longrightarrow> Q k s'"
proof (induction txns arbitrary: i s receipts)
  case (Cons t ts)
  then obtain rc s1 rs where s1: "run_transaction ext d n i t s = Some (rc, s1)"
      "run_transactions ext d n (i + 1) ts s1 = Some (rs, s')"
    by (auto simp: bind_eq_Some_conv split: prod.splits)
  have q: "Q (Suc (k + length ts)) s" using Cons.prems(3) by simp
  have "Q (k + length ts) s1"
  proof (cases rule: run_transaction_cases[OF s1(1)])
    case rejected: (1 e txn')
    then show ?thesis using one_less[OF q] by simp
  next
    case executed: (2 txn')
    then have "allows A txn'" using verify_allows Cons.prems(2) by simp
    then show ?thesis by (rule allowed_transaction[OF executed(2) _ q])
  qed
  with Cons.IH s1(2) Cons.prems(2) show ?case by simp
qed simp

end

text \<open>With what block execution itself writes, the same for blocks and histories.\<close>

locale restricted_history = restricted_budget +
  assumes block_writes: "Q k s \<Longrightarrow> x \<in> block_metadata \<Longrightarrow> Q k (set_metadata x v s)"
begin

lemma set_last_block_keeps: "set_last_block h i rd s = Some s' \<Longrightarrow> Q k s \<Longrightarrow> Q k s'"
  by (auto simp: set_last_block_def Let_def bind_eq_Some_conv block_metadata_def intro!: block_writes)

lemma allowed_block:
  assumes "run_block ext b s = Some (resp, s')" "list_all (allows A) (bl_transactions b)"
    "Q (k + length (bl_transactions b)) s"
  shows "Q k s'"
proof -
  obtain n rs s1 s2 h i rd where s1: "run_transactions ext (bl_digest b) n 0 (bl_transactions b) s =
        Some (rs, s1)" and s2: "s2 = s1 \<or> (\<exists>e. s2 = set_epoch_era e s1)"
      and s': "set_last_block h i rd s2 = Some s'"
    using assms(1)
    by (auto simp: run_block_def Let_def bind_eq_Some_conv split: prod.splits if_splits) blast+
  have "Q k s2" using s2 allowed_transactions[OF s1 assms(2,3)]
    by (auto simp: set_epoch_era_def block_metadata_def intro!: block_writes)
  with set_last_block_keeps[OF s'] show ?thesis .
qed

lemma reachable_by_uses: "reachable_by ext A s0 n s \<Longrightarrow> Q (k + n) s0 \<Longrightarrow> Q k s"
proof (induction arbitrary: k rule: reachable_by.induct)
  case (block n s b resp s')
  from block.IH[of "k + length (bl_transactions b)"] block.prems
  have "Q (k + length (bl_transactions b)) s" by (simp add: add.assoc)
  then show ?case by (rule allowed_block[OF block.hyps(2,3)])
next
  case (checkpoint n s h)
  then show ?case
    by (auto simp: update_last_epoch_hash_def set_last_epoch_hash_def block_metadata_def
        intro: block_writes)
qed simp

end

text \<open>All methods; an invariant is the case in which nothing is used up.\<close>

locale transaction_budget =
  fixes ext :: externals and Q R :: "nat \<Rightarrow> app_state \<Rightarrow> bool"
  assumes method_uses: "Q (Suc k) s \<Longrightarrow> execute_method ext sender m s = Some (r, s') \<Longrightarrow> R k s'"
    and ethereum_uses: "Q (Suc k) s \<Longrightarrow> execute_ethereum_transaction ext t s = Some (r, s') \<Longrightarrow> R k s'"
    and digest_keeps: "R k s \<Longrightarrow> R k (s\<lparr>st_executed_digests := d\<rparr>)"
    and nonce_uses: "R k s \<Longrightarrow> increment_nonce sender s = Some s' \<Longrightarrow> Q k s'"
    and fewer: "Q (Suc k) s \<Longrightarrow> Q k s"

sublocale transaction_budget \<subseteq> any: restricted_budget ext "\<lambda>_. True" Q R
  by unfold_locales (rule method_uses ethereum_uses digest_keeps nonce_uses fewer; assumption)+

context transaction_budget
begin

lemma execute_transaction_uses:
  "execute_transaction ext txn s = Some (r, s') \<Longrightarrow> Q (Suc k) s \<Longrightarrow> Q k s'"
  by (rule any.allowed_transaction) simp_all

lemma run_transactions_uses:
  "run_transactions ext d n i txns s = Some (receipts, s') \<Longrightarrow> Q (k + length txns) s \<Longrightarrow> Q k s'"
  by (rule any.allowed_transactions) (simp_all add: list_all_iff)

end

locale block_budget = transaction_budget +
  assumes metadata_keeps: "Q k s \<Longrightarrow> x \<in> block_metadata \<Longrightarrow> Q k (set_metadata x v s)"

sublocale block_budget \<subseteq> all: restricted_history ext "\<lambda>_. True" Q R
  by unfold_locales (rule metadata_keeps)

context block_budget
begin

lemma reachable_uses: "reachable ext s0 n s \<Longrightarrow> Q (k + n) s0 \<Longrightarrow> Q k s"
  by (rule all.reachable_by_uses[OF reachable_by_any])

end

locale transaction_invariant =
  fixes ext :: externals and P :: "app_state \<Rightarrow> bool"
  assumes on_method: "P s \<Longrightarrow> execute_method ext sender m s = Some (r, s') \<Longrightarrow> P s'"
    and on_ethereum: "P s \<Longrightarrow> execute_ethereum_transaction ext t s = Some (r, s') \<Longrightarrow> P s'"
    and digest: "P s \<Longrightarrow> P (s\<lparr>st_executed_digests := d\<rparr>)"
    and nonce: "P s \<Longrightarrow> increment_nonce sender s = Some s' \<Longrightarrow> P s'"

sublocale transaction_invariant \<subseteq> budget: transaction_budget ext "\<lambda>_. P" "\<lambda>_. P"
  by unfold_locales (rule on_method on_ethereum digest nonce; assumption)+

locale block_invariant = transaction_invariant +
  assumes metadata: "P s \<Longrightarrow> k \<in> block_metadata \<Longrightarrow> P (set_metadata k v s)"

sublocale block_invariant \<subseteq> history: block_budget ext "\<lambda>_. P" "\<lambda>_. P"
  by unfold_locales (rule metadata)

context block_invariant
begin

lemma reachable_keeps: "reachable ext s0 n s \<Longrightarrow> P s0 \<Longrightarrow> P s"
  by (rule history.reachable_uses)

end

end
