(* ===== verification/Beacon_Safety.thy ===== *)
theory Beacon_Safety
  imports Frames Chain
begin

text \<open>
  The invariant of the commit-reveal beacon, over every transaction: the phase belongs to the
  current epoch, the committee's signals and the recorded commits and reveals fit the phase, and an
  epoch change is started by the signal that makes the quorum and by no other.
\<close>

section \<open>Reading after writing\<close>

lemma beacon_reads [simp]:
  "get_epoch (set_committee_info e c s) = get_epoch s"
  "beacon_phase (set_committee_info e c s) = beacon_phase s"
  "get_epoch (set_committee_selection_beacon_commit_phase e r s) = get_epoch s"
  "get_epoch (set_committee_selection_beacon_reveal_phase e r s) = get_epoch s"
  "beacon_phase (set_committee_selection_beacon_commit_phase e r s) = Some (Commit (e, r))"
  "beacon_phase (set_committee_selection_beacon_reveal_phase e r s) = Some (Reveal (e, r))"
  "st_committee_info (set_committee_selection_beacon_commit_phase e r s) = st_committee_info s"
  "st_committee_info (set_committee_selection_beacon_reveal_phase e r s) = st_committee_info s"
  "st_committee_info (set_committee_info e c s) = tbl_set (st_committee_info s) e c"
  "st_committee_selection_beacon (set_committee_info e c s) = st_committee_selection_beacon s"
  "st_committee_selection_beacon (set_metadata k v s) = st_committee_selection_beacon s"
  "st_non_revealing_node (set_committee_info e c s) = st_non_revealing_node s"
  "st_non_revealing_node (set_metadata k v s) = st_non_revealing_node s"
  by (simp_all add: get_epoch_def beacon_phase_def set_defs
      set_committee_selection_beacon_commit_phase_def set_committee_selection_beacon_reveal_phase_def)

lemma beacon_table_reads [simp]:
  "st_committee_selection_beacon (set_committee_selection_beacon_commit_phase e r s) =
     st_committee_selection_beacon s"
  "st_committee_selection_beacon (set_committee_selection_beacon_reveal_phase e r s) =
     st_committee_selection_beacon s"
  "st_non_revealing_node (set_committee_selection_beacon_commit_phase e r s) = st_non_revealing_node s"
  "st_non_revealing_node (set_committee_selection_beacon_reveal_phase e r s) = st_non_revealing_node s"
  by (simp_all add: set_committee_selection_beacon_commit_phase_def
      set_committee_selection_beacon_reveal_phase_def)

lemma beacon_upd_reads [simp]:
  "get_epoch (s\<lparr>st_committee_selection_beacon := b\<rparr>) = get_epoch s"
  "beacon_phase (s\<lparr>st_committee_selection_beacon := b\<rparr>) = beacon_phase s"
  "get_epoch (s\<lparr>st_non_revealing_node := n\<rparr>) = get_epoch s"
  "beacon_phase (s\<lparr>st_non_revealing_node := n\<rparr>) = beacon_phase s"
  by (simp_all add: get_epoch_def beacon_phase_def)

lemma quorum_mono: "length xs \<le> length ys \<Longrightarrow> quorum xs \<le> quorum ys"
  by (simp add: quorum_def div_le_mono)

lemma quorum_pos [simp]: "0 < quorum xs"
  by (simp add: quorum_def)

section \<open>The invariant\<close>

definition current_committee :: "app_state \<Rightarrow> Committee" where
  "current_committee s = committee s (get_epoch s)"

text \<open>The part that depends on the phase.\<close>

definition phase_inv ::
    "externals \<Rightarrow> Epoch \<Rightarrow> CommitteeSelectionBeaconPhase option \<Rightarrow> Committee \<Rightarrow>
     (NodeIndex, BeaconCommit \<times> BeaconReveal option) table \<Rightarrow> bool" where
  "phase_inv ext e p c b \<longleftrightarrow> (case p of
     None \<Rightarrow> length (com_ready_to_change c) < quorum (com_members c) \<and>
       com_signalled_commit_phase_timeout c = [] \<and> com_signalled_reveal_phase_timeout c = [] \<and>
       (\<forall>i. tbl_get b i = None)
   | Some (Commit (pe, _)) \<Rightarrow> pe = e \<and> quorum (com_members c) \<le> length (com_ready_to_change c) \<and>
       length (com_signalled_commit_phase_timeout c) < quorum (com_members c) \<and>
       com_signalled_reveal_phase_timeout c = [] \<and>
       (\<forall>i cm rv. tbl_get b i = Some (cm, rv) \<longrightarrow> rv = None)
   | Some (Reveal (pe, r)) \<Rightarrow> pe = e \<and> quorum (com_members c) \<le> length (com_ready_to_change c) \<and>
       length (com_signalled_reveal_phase_timeout c) < quorum (com_members c) \<and>
       (\<exists>i. tbl_get b i \<noteq> None) \<and>
       (\<forall>i cm rv. tbl_get b i = Some (cm, Some rv) \<longrightarrow> cm = commit_build ext e r rv))"

definition beacon_ok :: "externals \<Rightarrow> app_state \<Rightarrow> bool" where
  "beacon_ok ext s \<longleftrightarrow>
     tbl_wf (st_committee_selection_beacon s) \<and>
     (\<forall>i. tbl_get (st_committee_selection_beacon s) i \<noteq> None \<longrightarrow>
        i \<in> set (com_members (current_committee s)) \<and> tbl_get (st_non_revealing_node s) i = None) \<and>
     phase_inv ext (get_epoch s) (beacon_phase s) (current_committee s) (st_committee_selection_beacon s)"

lemma beacon_ok_view:
  assumes "beacon_view s' = beacon_view s"
  shows "beacon_ok ext s' = beacon_ok ext s"
proof -
  have e: "get_epoch s' = get_epoch s" "beacon_phase s' = beacon_phase s"
    "st_committee_selection_beacon s' = st_committee_selection_beacon s"
    "st_non_revealing_node s' = st_non_revealing_node s"
    using assms by (simp_all add: beacon_view_def)
  have c: "committee_core (current_committee s') = committee_core (current_committee s)"
    using assms by (simp add: beacon_view_def current_committee_def e)
  have f: "com_members (current_committee s') = com_members (current_committee s)"
    "com_ready_to_change (current_committee s') = com_ready_to_change (current_committee s)"
    "com_signalled_commit_phase_timeout (current_committee s') =
       com_signalled_commit_phase_timeout (current_committee s)"
    "com_signalled_reveal_phase_timeout (current_committee s') =
       com_signalled_reveal_phase_timeout (current_committee s)"
    using c by (simp_all add: committee_core_def)
  show ?thesis unfolding beacon_ok_def phase_inv_def e f ..
qed

lemma beacon_ok_frame: "frame s s' \<Longrightarrow> beacon_ok ext s' = beacon_ok ext s"
  by (rule beacon_ok_view) (simp add: frame_def)

section \<open>The signal to change the epoch\<close>

lemma change_epoch_cases:
  assumes "change_epoch sender epoch s = Some (r, s')"
  shows "(\<not> is_success r \<and> s' = s) \<or>
    (\<exists>i. r = Success EDNone \<and> epoch = get_epoch s \<and>
      only_node_with_sufficient_stake_and_participating s sender = Some (Inr i) \<and>
      i \<in> set (com_members (current_committee s)) \<and>
      i \<notin> set (com_ready_to_change (current_committee s)) \<and>
      (let c' = (current_committee s)\<lparr>com_ready_to_change := com_ready_to_change (current_committee s) @ [i]\<rparr>;
           s1 = set_committee_info epoch c' s
       in s' = (if length (com_ready_to_change c') = quorum (com_members c')
                then set_committee_selection_beacon_commit_phase epoch 0 s1 else s1)))"
proof -
  obtain g where g: "only_node_with_sufficient_stake_and_participating s sender = Some g"
    using assms by (auto simp: change_epoch_def bind_eq_Some_conv)
  show ?thesis
  proof (cases g)
    case (Inl e)
    with g assms participating_guard_revert[of s sender e] show ?thesis by (auto simp: change_epoch_def)
  next
    case (Inr i)
    show ?thesis
      using assms g Inr
      by (auto simp: change_epoch_def Let_def bind_eq_Some_conv current_committee_def
          split: if_splits)
  qed
qed

lemma change_epoch_ok:
  assumes "change_epoch sender epoch s = Some (r, s')" "beacon_ok ext s"
  shows "beacon_ok ext s'"
proof (cases "is_success r")
  case False
  with change_epoch_cases[OF assms(1)] assms(2) show ?thesis by auto
next
  case True
  with change_epoch_cases[OF assms(1)] obtain i where
    "epoch = get_epoch s" and s': "s' = (let c' = (current_committee s)\<lparr>com_ready_to_change :=
        com_ready_to_change (current_committee s) @ [i]\<rparr>; s1 = set_committee_info epoch c' s
      in (if length (com_ready_to_change c') = quorum (com_members c')
          then set_committee_selection_beacon_commit_phase epoch 0 s1 else s1))"
    by (auto simp: Let_def)
  let ?c = "current_committee s"
  let ?full = "Suc (length (com_ready_to_change ?c)) = quorum (com_members ?c)"
  have proj: "get_epoch s' = get_epoch s"
    "current_committee s' = ?c\<lparr>com_ready_to_change := com_ready_to_change ?c @ [i]\<rparr>"
    "st_committee_selection_beacon s' = st_committee_selection_beacon s"
    "st_non_revealing_node s' = st_non_revealing_node s"
    "beacon_phase s' = (if ?full then Some (Commit (get_epoch s, 0)) else beacon_phase s)"
    unfolding s' \<open>epoch = get_epoch s\<close> by (simp_all add: current_committee_def Let_def)
  have inv: "phase_inv ext (get_epoch s) (beacon_phase s) ?c (st_committee_selection_beacon s)"
    using assms(2) by (simp add: beacon_ok_def)
  have "phase_inv ext (get_epoch s) (beacon_phase s') (current_committee s') (st_committee_selection_beacon s)"
    using inv unfolding proj
    by (auto simp: phase_inv_def split: option.splits CommitteeSelectionBeaconPhase.splits)
  with assms(2) show ?thesis unfolding beacon_ok_def proj by simp
qed

section \<open>Commit and reveal\<close>

lemma commit_cases:
  assumes "committee_selection_beacon_commit sender commit s = Some (r, s')"
  shows "(\<not> is_success r \<and> s' = s) \<or>
    (\<exists>i pr. r = Success EDNone \<and> i \<in> set (com_members (current_committee s)) \<and>
      only_node_with_sufficient_stake_and_participating s sender = Some (Inr i) \<and>
      i \<in> set (com_active_node_set (current_committee s)) \<and>
      tbl_get (st_non_revealing_node s) i = None \<and> beacon_phase s = Some (Commit pr) \<and>
      tbl_get (st_committee_selection_beacon s) i = None \<and>
      s' = s\<lparr>st_committee_selection_beacon :=
        tbl_set (st_committee_selection_beacon s) i (commit, None)\<rparr>)"
proof -
  obtain g where g: "only_node_with_sufficient_stake_and_participating s sender = Some g"
    using assms by (auto simp: committee_selection_beacon_commit_def bind_eq_Some_conv)
  show ?thesis
  proof (cases g)
    case (Inl e)
    with g assms participating_guard_revert[of s sender e] show ?thesis
      by (auto simp: committee_selection_beacon_commit_def)
  next
    case (Inr i)
    show ?thesis
      using assms g Inr
      by (auto simp: committee_selection_beacon_commit_def Let_def current_committee_def
          split: if_splits option.splits CommitteeSelectionBeaconPhase.splits)
  qed
qed

lemma commit_ok:
  assumes "committee_selection_beacon_commit sender commit s = Some (r, s')" "beacon_ok ext s"
  shows "beacon_ok ext s'"
  using commit_cases[OF assms(1)] assms(2)
  by (auto simp: beacon_ok_def phase_inv_def current_committee_def split: if_splits)

lemma reveal_cases:
  assumes "committee_selection_beacon_reveal ext sender reveal s = Some (r, s')"
  shows "(\<not> is_success r \<and> s' = s) \<or>
    (\<exists>i pe round cm. r = Success EDNone \<and> i \<in> set (com_members (current_committee s)) \<and>
      only_node_with_sufficient_stake_and_participating s sender = Some (Inr i) \<and>
      beacon_phase s = Some (Reveal (pe, round)) \<and>
      tbl_get (st_committee_selection_beacon s) i = Some (cm, None) \<and>
      cm = commit_build ext (get_epoch s) round reveal \<and>
      s' = s\<lparr>st_committee_selection_beacon :=
        tbl_set (st_committee_selection_beacon s) i (cm, Some reveal)\<rparr>)"
proof -
  obtain g where g: "only_node_with_sufficient_stake_and_participating s sender = Some g"
    using assms by (auto simp: committee_selection_beacon_reveal_def bind_eq_Some_conv)
  show ?thesis
  proof (cases g)
    case (Inl e)
    with g assms participating_guard_revert[of s sender e] show ?thesis
      by (auto simp: committee_selection_beacon_reveal_def)
  next
    case (Inr i)
    show ?thesis
      using assms g Inr
      by (auto simp: committee_selection_beacon_reveal_def Let_def current_committee_def
          split: if_splits option.splits CommitteeSelectionBeaconPhase.splits prod.splits)
  qed
qed

lemma reveal_ok:
  assumes "committee_selection_beacon_reveal ext sender reveal s = Some (r, s')" "beacon_ok ext s"
  shows "beacon_ok ext s'"
  using reveal_cases[OF assms(1)] assms(2)
  by (fastforce simp: beacon_ok_def phase_inv_def current_committee_def split: if_splits)

section \<open>The end of the commit phase\<close>

lemma commit_timeout_cases:
  assumes "committee_selection_beacon_commit_phase_timeout sender epoch round s = Some (r, s')"
  shows "(\<not> is_success r \<and> s' = s) \<or>
    (\<exists>i. r = Success EDNone \<and> beacon_phase s = Some (Commit (epoch, round)) \<and>
      only_node_with_sufficient_stake s sender = Some (Inr i) \<and>
      i \<in> set (com_members (current_committee s)) \<and>
      i \<notin> set (com_signalled_commit_phase_timeout (current_committee s)) \<and>
      (let c' = (current_committee s)\<lparr>com_signalled_commit_phase_timeout :=
             com_signalled_commit_phase_timeout (current_committee s) @ [i]\<rparr>;
           s1 = set_committee_info (get_epoch s) c' s
       in s' = (if length (com_signalled_commit_phase_timeout c') = quorum (com_members c')
                then finish_commit_phase round s1 else s1)))"
proof -
  obtain g where g: "only_node_with_sufficient_stake s sender = Some g"
    using assms by (auto simp: committee_selection_beacon_commit_phase_timeout_def bind_eq_Some_conv)
  show ?thesis
  proof (cases g)
    case (Inl e)
    with g assms stake_guard_revert[of s sender e] show ?thesis
      by (auto simp: committee_selection_beacon_commit_phase_timeout_def)
  next
    case (Inr i)
    show ?thesis
      using assms g Inr
      by (auto simp: committee_selection_beacon_commit_phase_timeout_def Let_def current_committee_def
          split: if_splits option.splits CommitteeSelectionBeaconPhase.splits prod.splits)
  qed
qed

lemma clear_reads [simp]:
  "get_epoch (clear_committee_selection_beacons s) = get_epoch s"
  "beacon_phase (clear_committee_selection_beacons s) = beacon_phase s"
  "st_committee_info (clear_committee_selection_beacons s) = st_committee_info s"
  "tbl_wf (st_committee_selection_beacon (clear_committee_selection_beacons s))"
  "tbl_get (st_committee_selection_beacon (clear_committee_selection_beacons s)) i = None"
  "st_non_revealing_node (clear_committee_selection_beacons s) = st_non_revealing_node s"
  "get_epoch (clear_committee_selection_beacon_non_revealing_node s) = get_epoch s"
  "beacon_phase (clear_committee_selection_beacon_non_revealing_node s) = beacon_phase s"
  "st_committee_info (clear_committee_selection_beacon_non_revealing_node s) = st_committee_info s"
  "st_committee_selection_beacon (clear_committee_selection_beacon_non_revealing_node s) =
     st_committee_selection_beacon s"
  "tbl_get (st_non_revealing_node (clear_committee_selection_beacon_non_revealing_node s)) i = None"
  by (simp_all add: clear_committee_selection_beacons_def get_epoch_def beacon_phase_def
      clear_committee_selection_beacon_non_revealing_node_def)

lemma clear_timeouts_reads [simp]:
  "get_epoch (clear_committee_selection_beacon_timeouts e s) = get_epoch s"
  "beacon_phase (clear_committee_selection_beacon_timeouts e s) = beacon_phase s"
  "st_committee_selection_beacon (clear_committee_selection_beacon_timeouts e s) =
     st_committee_selection_beacon s"
  "st_non_revealing_node (clear_committee_selection_beacon_timeouts e s) = st_non_revealing_node s"
  "committee (clear_committee_selection_beacon_timeouts e s) e =
     (committee s e)\<lparr>com_signalled_commit_phase_timeout := [], com_signalled_reveal_phase_timeout := []\<rparr>"
  by (simp_all add: clear_committee_selection_beacon_timeouts_def)

text \<open>The two outcomes of a finished commit phase.\<close>

lemma finish_commit_phase_reveal:
  assumes "length (committee_beacons s) > 2 * length (participating_committee_members s) div 3"
  shows "finish_commit_phase round s =
    set_committee_selection_beacon_reveal_phase (get_epoch s) round s"
  using assms by (simp add: finish_commit_phase_def)

lemma finish_commit_phase_again:
  assumes "\<not> length (committee_beacons s) > 2 * length (participating_committee_members s) div 3"
    and "s' = finish_commit_phase round s"
  shows "get_epoch s' = get_epoch s" "beacon_phase s' = Some (Commit (get_epoch s, round + 1))"
    "tbl_wf (st_committee_selection_beacon s')" "tbl_get (st_committee_selection_beacon s') i = None"
    "tbl_get (st_non_revealing_node s') i = None"
    "current_committee s' = (current_committee s)\<lparr>com_signalled_commit_phase_timeout := [],
       com_signalled_reveal_phase_timeout := []\<rparr>"
  using assms by (simp_all add: finish_commit_phase_def Let_def current_committee_def)

lemma finish_commit_phase_ok:
  assumes ok: "tbl_wf (st_committee_selection_beacon s)"
      "\<And>i. tbl_get (st_committee_selection_beacon s) i \<noteq> None \<Longrightarrow>
        i \<in> set (com_members (current_committee s)) \<and> tbl_get (st_non_revealing_node s) i = None"
      "\<And>i cm rv. tbl_get (st_committee_selection_beacon s) i = Some (cm, rv) \<Longrightarrow> rv = None"
    and c: "quorum (com_members (current_committee s)) \<le> length (com_ready_to_change (current_committee s))"
      "com_signalled_reveal_phase_timeout (current_committee s) = []"
  shows "beacon_ok ext (finish_commit_phase round s)"
proof (cases "length (committee_beacons s) > 2 * length (participating_committee_members s) div 3")
  case True
  then have "committee_beacons s \<noteq> []" by auto
  then have "hd (committee_beacons s) \<in> set (st_committee_selection_beacon s)"
    using hd_in_set by (fastforce simp: committee_beacons_def tbl_as_map_def)
  then obtain i x where "(i, x) \<in> set (st_committee_selection_beacon s)" by (metis prod.exhaust)
  then have "tbl_get (st_committee_selection_beacon s) i = Some x"
    using ok(1) by (simp add: tbl_get_def tbl_wf_def)
  then have ex: "\<exists>i. tbl_get (st_committee_selection_beacon s) i \<noteq> None" by blast
  have cc: "current_committee (set_committee_selection_beacon_reveal_phase (get_epoch s) round s) =
      current_committee s"
    by (simp add: current_committee_def)
  show ?thesis
    unfolding finish_commit_phase_reveal[OF True] beacon_ok_def phase_inv_def cc
    using ok c ex by fastforce
next
  case False
  note again = finish_commit_phase_again[OF False refl, of round]
  show ?thesis unfolding beacon_ok_def phase_inv_def again(1,2,6) using again(3-5) c by simp
qed

lemma commit_timeout_ok:
  assumes t: "committee_selection_beacon_commit_phase_timeout sender epoch round s = Some (r, s')"
    and ok: "beacon_ok ext s"
  shows "beacon_ok ext s'"
proof (cases "is_success r")
  case False
  with commit_timeout_cases[OF t] ok show ?thesis by auto
next
  case True
  let ?c = "current_committee s"
  from True commit_timeout_cases[OF t] obtain i where ph: "beacon_phase s = Some (Commit (epoch, round))"
    and s': "s' = (let c' = ?c\<lparr>com_signalled_commit_phase_timeout :=
             com_signalled_commit_phase_timeout ?c @ [i]\<rparr>;
           s1 = set_committee_info (get_epoch s) c' s
       in (if length (com_signalled_commit_phase_timeout c') = quorum (com_members c')
           then finish_commit_phase round s1 else s1))"
    by (auto simp: Let_def)
  define c' where "c' = ?c\<lparr>com_signalled_commit_phase_timeout :=
      com_signalled_commit_phase_timeout ?c @ [i]\<rparr>"
  define s1 where "s1 = set_committee_info (get_epoch s) c' s"
  have p: "get_epoch s1 = get_epoch s" "beacon_phase s1 = beacon_phase s" "current_committee s1 = c'"
    "st_committee_selection_beacon s1 = st_committee_selection_beacon s"
    "st_non_revealing_node s1 = st_non_revealing_node s"
    by (simp_all add: s1_def current_committee_def)
  have inv: "epoch = get_epoch s" "quorum (com_members ?c) \<le> length (com_ready_to_change ?c)"
    "length (com_signalled_commit_phase_timeout ?c) < quorum (com_members ?c)"
    "com_signalled_reveal_phase_timeout ?c = []"
    "\<And>i cm rv. tbl_get (st_committee_selection_beacon s) i = Some (cm, rv) \<Longrightarrow> rv = None"
    "tbl_wf (st_committee_selection_beacon s)"
    "\<And>i. tbl_get (st_committee_selection_beacon s) i \<noteq> None \<Longrightarrow>
        i \<in> set (com_members ?c) \<and> tbl_get (st_non_revealing_node s) i = None"
    using ok ph by (auto simp: beacon_ok_def phase_inv_def)
  show ?thesis
  proof (cases "length (com_signalled_commit_phase_timeout c') = quorum (com_members c')")
    case True
    then have "s' = finish_commit_phase round s1" using s' by (simp add: Let_def c'_def s1_def)
    moreover have "beacon_ok ext (finish_commit_phase round s1)"
      by (rule finish_commit_phase_ok, unfold p) (use inv in \<open>auto simp: c'_def\<close>)
    ultimately show ?thesis by simp
  next
    case False
    then have "s' = s1" using s' by (simp add: Let_def c'_def s1_def)
    then show ?thesis
      using False inv ph unfolding beacon_ok_def phase_inv_def by (simp add: p) (simp add: c'_def)
  qed
qed

section \<open>The end of the reveal phase\<close>

lemma reveal_timeout_cases:
  assumes "committee_selection_beacon_reveal_phase_timeout ext sender epoch round s = Some (r, s')"
  shows "(\<not> is_success r \<and> s' = s) \<or>
    (\<exists>i. beacon_phase s = Some (Reveal (epoch, round)) \<and>
      only_node_with_sufficient_stake s sender = Some (Inr i) \<and>
      i \<in> set (com_members (current_committee s)) \<and>
      i \<notin> set (com_signalled_reveal_phase_timeout (current_committee s)) \<and>
      (let c' = (current_committee s)\<lparr>com_signalled_reveal_phase_timeout :=
             com_signalled_reveal_phase_timeout (current_committee s) @ [i]\<rparr>;
           s1 = set_committee_info (get_epoch s) c' s
       in if length (com_signalled_reveal_phase_timeout c') = quorum (com_members c')
          then if list_all (\<lambda>(_, _, reveal). reveal \<noteq> None) (st_committee_selection_beacon s)
               then finish_reveal_phase ext s1 = Some (r, s')
               else restart_commit_phase round s1 = Some (r, s')
          else r = Success EDNone \<and> s' = s1))"
proof -
  obtain g where g: "only_node_with_sufficient_stake s sender = Some g"
    using assms by (auto simp: committee_selection_beacon_reveal_phase_timeout_def bind_eq_Some_conv)
  show ?thesis
  proof (cases g)
    case (Inl e)
    with g assms stake_guard_revert[of s sender e] show ?thesis
      by (auto simp: committee_selection_beacon_reveal_phase_timeout_def)
  next
    case (Inr i)
    show ?thesis
      using assms g Inr
      by (auto simp: committee_selection_beacon_reveal_phase_timeout_def Let_def current_committee_def
          tbl_as_map_def split: if_splits option.splits CommitteeSelectionBeaconPhase.splits prod.splits)
  qed
qed

text \<open>What slashing may do to the beacon: members leave, nothing else.\<close>

definition kicked :: "app_state \<Rightarrow> app_state \<Rightarrow> bool" where
  "kicked s s' \<longleftrightarrow> get_epoch s' = get_epoch s \<and> beacon_phase s' = beacon_phase s \<and>
     st_committee_selection_beacon s' = st_committee_selection_beacon s \<and>
     st_non_revealing_node s' = st_non_revealing_node s \<and> aux_view s' = aux_view s \<and>
     com_ready_to_change (current_committee s') = com_ready_to_change (current_committee s) \<and>
     length (com_members (current_committee s')) \<le> length (com_members (current_committee s))"

lemma kicked_refl [simp]: "kicked s s"
  by (simp add: kicked_def)

lemma kicked_trans: "kicked s s' \<Longrightarrow> kicked s' s'' \<Longrightarrow> kicked s s''"
  by (auto simp: kicked_def)

lemma frame_kicked: "frame s s' \<Longrightarrow> kicked s s'"
  by (auto simp: frame_def kicked_def beacon_view_def current_committee_def committee_core_def)

lemma kick_kicked: "kicked s (kick_from_committee i s)"
  by (simp add: kicked_def kick_from_committee_def Let_def current_committee_def get_committee_def)

lemma aux_view_phase [simp]:
  "aux_view (set_committee_selection_beacon_commit_phase e r s) = aux_view s"
  "aux_view (set_committee_selection_beacon_reveal_phase e r s) = aux_view s"
  by (simp_all add: set_committee_selection_beacon_commit_phase_def
      set_committee_selection_beacon_reveal_phase_def)

lemma slash_kicked:
  assumes "slash_node_after_non_reveal_and_maybe_kick amount i s = Some s'"
  shows "kicked s s'"
proof -
  obtain pk change info s2 ok where
      s2: "record_node_registry_change pk change (set_node_info i info s) = Some s2"
      and s': "s' = (if ok then s2 else kick_from_committee i s2)"
    using assms
    by (auto simp: slash_node_after_non_reveal_and_maybe_kick_def bind_eq_Some_conv Let_def)
  have "frame s (set_node_info i info s)" by simp
  then have "kicked s s2" using record_change_frame[OF s2] frame_trans frame_kicked by blast
  then show ?thesis unfolding s' using kick_kicked kicked_trans by auto
qed

lemma restart_commit_phase_result:
  assumes "restart_commit_phase round s = Some (r, s')"
  shows "r = Success EDNone" "get_epoch s' = get_epoch s"
    "beacon_phase s' = Some (Commit (get_epoch s, round + 1))"
    "tbl_wf (st_committee_selection_beacon s) \<Longrightarrow> tbl_wf (st_committee_selection_beacon s')"
    "tbl_get (st_committee_selection_beacon s') i = None"
    "com_ready_to_change (current_committee s') = com_ready_to_change (current_committee s)"
    "length (com_members (current_committee s')) \<le> length (com_members (current_committee s))"
    "com_signalled_commit_phase_timeout (current_committee s') = []"
    "com_signalled_reveal_phase_timeout (current_committee s') = []"
    "aux_view s' = aux_view s"
proof -
  define s1 where "s1 = set_committee_selection_beacon_commit_phase (get_epoch s) (round + 1) s"
  obtain amount nodes t s3 where
      loop: "for_each (slash_node_after_non_reveal_and_maybe_kick amount) nodes
        (s1\<lparr>st_non_revealing_node := t\<rparr>) = Some s3"
      and r: "r = Success EDNone"
      and s': "s' = clear_committee_selection_beacon_timeouts (get_epoch s)
        (s3\<lparr>st_committee_selection_beacon :=
          fold (\<lambda>i t. tbl_remove t i) (tbl_keys (st_committee_selection_beacon s3))
            (st_committee_selection_beacon s3)\<rparr>)"
    using assms by (auto simp: restart_commit_phase_def Let_def bind_eq_Some_conv s1_def)
  have "kicked (s1\<lparr>st_non_revealing_node := t\<rparr>) s3"
    by (rule for_each_invariant[OF loop]) (auto intro: kicked_trans slash_kicked)
  then have k: "get_epoch s3 = get_epoch s" "beacon_phase s3 = Some (Commit (get_epoch s, round + 1))"
    "st_committee_selection_beacon s3 = st_committee_selection_beacon s" "aux_view s3 = aux_view s"
    "com_ready_to_change (current_committee s3) = com_ready_to_change (current_committee s)"
    "length (com_members (current_committee s3)) \<le> length (com_members (current_committee s))"
    by (auto simp: kicked_def s1_def current_committee_def)
  show "r = Success EDNone" by (rule r)
  show "get_epoch s' = get_epoch s" "beacon_phase s' = Some (Commit (get_epoch s, round + 1))"
    unfolding s' using k by simp_all
  show "tbl_wf (st_committee_selection_beacon s')" if "tbl_wf (st_committee_selection_beacon s)"
    unfolding s' using k that by (simp add: tbl.invar_fold_remove)
  show "tbl_get (st_committee_selection_beacon s') i = None"
    unfolding s' by (simp add: tbl.remove_all_keys)
  show "com_ready_to_change (current_committee s') = com_ready_to_change (current_committee s)"
    "length (com_members (current_committee s')) \<le> length (com_members (current_committee s))"
    "com_signalled_commit_phase_timeout (current_committee s') = []"
    "com_signalled_reveal_phase_timeout (current_committee s') = []"
    using k unfolding s' current_committee_def by simp_all
  show "aux_view s' = aux_view s"
    unfolding s' using k by (simp add: clear_committee_selection_beacon_timeouts_def)
qed

lemma clear_phase_reads [simp]:
  "get_epoch (clear_committee_selection_beacon_phase s) = get_epoch s"
  "beacon_phase (clear_committee_selection_beacon_phase s) = None"
  "st_committee_info (clear_committee_selection_beacon_phase s) = st_committee_info s"
  by (simp_all add: clear_committee_selection_beacon_phase_def get_epoch_def beacon_phase_def)

text \<open>The state after an epoch change.\<close>

lemma reassign_jobs_fields:
  assumes "reassign_jobs ext s = Some s'"
  shows "st_metadata s' = st_metadata s" "st_committee_info s' = st_committee_info s"
    "st_committee_selection_beacon s' = st_committee_selection_beacon s"
    "st_non_revealing_node s' = st_non_revealing_node s"
  using assms by (auto simp: reassign_jobs_def add_jobs_def Let_def bind_eq_Some_conv)

lemma execute_epoch_change_result:
  assumes "execute_epoch_change ext (get_epoch s) (current_committee s) b s = Some s'"
  shows "get_epoch s' = get_epoch s + 1" "beacon_phase s' = beacon_phase s"
    "st_committee_selection_beacon s' = st_committee_selection_beacon s"
    "st_non_revealing_node s' = st_non_revealing_node s"
    "com_ready_to_change (current_committee s') = []"
    "com_signalled_commit_phase_timeout (current_committee s') = []"
    "com_signalled_reveal_phase_timeout (current_committee s') = []"
    "get_epoch_era s' = 0"
proof -
  let ?e = "get_epoch s"
  obtain s1 s2 s5 c s6 s8 where s1: "executor_reputation_scores s = Some s1"
      and s2: "distribute_rewards s1 = Some s2"
      and s5: "s5 = set_committee_info ?e (current_committee s) ((clean_up_content_registry s2)
        \<lparr>st_executed_digests := tbl_clear (st_executed_digests (clean_up_content_registry s2))\<rparr>)"
      and c: "choose_new_committee ext b s5 = Some (c, s6)"
      and s8: "reassign_jobs ext (set_committee_info (?e + 1) c s6) = Some s8"
      and s': "s' = set_metadata Metadata.EpochEra (Value.EpochEra 0)
        (set_metadata Metadata.Epoch (Value.Epoch (?e + 1)) s8)"
    using assms by (auto simp: execute_epoch_change_def Let_def bind_eq_Some_conv split: prod.splits)
  have "frame s s2"
    using rewards_frame.distribute_rewards_keeps[OF s2 scores_frame[OF s1]] .
  then have "beacon_view ((clean_up_content_registry s2)
      \<lparr>st_executed_digests := tbl_clear (st_executed_digests (clean_up_content_registry s2))\<rparr>) = beacon_view s"
    by (simp add: clean_up_content_registry_view frame_def)
  then have v5: "get_epoch s5 = ?e" "beacon_phase s5 = beacon_phase s"
    "st_committee_selection_beacon s5 = st_committee_selection_beacon s"
    "st_non_revealing_node s5 = st_non_revealing_node s"
    unfolding s5 beacon_reads by (simp_all add: beacon_view_def)
  have v6: "get_epoch s6 = ?e" "beacon_phase s6 = beacon_phase s"
    "st_committee_selection_beacon s6 = st_committee_selection_beacon s"
    "st_non_revealing_node s6 = st_non_revealing_node s"
    using choose_new_committee_frame[OF c] v5 by (simp_all add: frame_def beacon_view_def)
  have j: "st_metadata s8 = st_metadata s6"
    "st_committee_info s8 = tbl_set (st_committee_info s6) (?e + 1) c"
    "st_committee_selection_beacon s8 = st_committee_selection_beacon s6"
    "st_non_revealing_node s8 = st_non_revealing_node s6"
    using reassign_jobs_fields[OF s8] by (simp_all add: set_committee_info_def)
  show e: "get_epoch s' = ?e + 1"
    unfolding s' by (simp add: get_epoch_def set_metadata_def)
  show "beacon_phase s' = beacon_phase s"
    unfolding s' v6(2)[symmetric] by (simp add: beacon_phase_def set_metadata_def j)
  show "st_committee_selection_beacon s' = st_committee_selection_beacon s"
    "st_non_revealing_node s' = st_non_revealing_node s"
    unfolding s' using j v6 by simp_all
  have "current_committee s' = c"
    unfolding current_committee_def e by (simp add: s' set_metadata_def j)
  then show "com_ready_to_change (current_committee s') = []"
    "com_signalled_commit_phase_timeout (current_committee s') = []"
    "com_signalled_reveal_phase_timeout (current_committee s') = []"
    by (auto intro: choose_new_committee_result[OF c])
  show "get_epoch_era s' = 0"
    unfolding s' by (simp add: get_epoch_era_def set_metadata_def)
qed

lemma finish_reveal_phase_result:
  assumes "finish_reveal_phase ext s = Some (r, s')"
  shows "r = Success EpochChange" "get_epoch s' = get_epoch s + 1" "beacon_phase s' = None"
    "tbl_wf (st_committee_selection_beacon s')" "tbl_get (st_committee_selection_beacon s') i = None"
    "com_ready_to_change (current_committee s') = []"
    "com_signalled_commit_phase_timeout (current_committee s') = []"
    "com_signalled_reveal_phase_timeout (current_committee s') = []"
    "get_epoch_era s' = 0"
proof -
  define s3 where "s3 = clear_committee_selection_beacon_non_revealing_node
    (clear_committee_selection_beacons (clear_committee_selection_beacon_phase s))"
  have e: "get_epoch s3 = get_epoch s" "current_committee s3 = current_committee s"
    by (simp_all add: s3_def current_committee_def)
  obtain b where x: "execute_epoch_change ext (get_epoch s3) (current_committee s3) b s3 = Some s'"
      and r: "r = Success EpochChange"
    using assms unfolding e
    by (auto simp: finish_reveal_phase_def Let_def bind_eq_Some_conv s3_def current_committee_def)
  note res = execute_epoch_change_result[OF x]
  show "r = Success EpochChange" by (rule r)
  show "get_epoch s' = get_epoch s + 1" using res(1) e by simp
  show "beacon_phase s' = None" "tbl_wf (st_committee_selection_beacon s')"
    "tbl_get (st_committee_selection_beacon s') i = None"
    using res(2,3) by (simp_all add: s3_def)
  show "com_ready_to_change (current_committee s') = []"
    "com_signalled_commit_phase_timeout (current_committee s') = []"
    "com_signalled_reveal_phase_timeout (current_committee s') = []" "get_epoch_era s' = 0"
    by (rule res)+
qed

lemma reveal_timeout_ok:
  assumes t: "committee_selection_beacon_reveal_phase_timeout ext sender epoch round s = Some (r, s')"
    and ok: "beacon_ok ext s"
  shows "beacon_ok ext s'"
  using reveal_timeout_cases[OF t]
proof (elim disjE exE conjE)
  fix i
  let ?c = "current_committee s"
  assume ph: "beacon_phase s = Some (Reveal (epoch, round))"
    and st: "let c' = ?c\<lparr>com_signalled_reveal_phase_timeout :=
             com_signalled_reveal_phase_timeout ?c @ [i]\<rparr>;
           s1 = set_committee_info (get_epoch s) c' s
       in if length (com_signalled_reveal_phase_timeout c') = quorum (com_members c')
          then if list_all (\<lambda>(_, _, reveal). reveal \<noteq> None) (st_committee_selection_beacon s)
               then finish_reveal_phase ext s1 = Some (r, s')
               else restart_commit_phase round s1 = Some (r, s')
          else r = Success EDNone \<and> s' = s1"
  define c' where "c' = ?c\<lparr>com_signalled_reveal_phase_timeout :=
      com_signalled_reveal_phase_timeout ?c @ [i]\<rparr>"
  define s1 where "s1 = set_committee_info (get_epoch s) c' s"
  have p: "get_epoch s1 = get_epoch s" "beacon_phase s1 = beacon_phase s" "current_committee s1 = c'"
    "st_committee_selection_beacon s1 = st_committee_selection_beacon s"
    "st_non_revealing_node s1 = st_non_revealing_node s"
    by (simp_all add: s1_def current_committee_def)
  have inv: "quorum (com_members ?c) \<le> length (com_ready_to_change ?c)"
    "length (com_signalled_reveal_phase_timeout ?c) < quorum (com_members ?c)"
    "tbl_wf (st_committee_selection_beacon s)"
    using ok ph by (auto simp: beacon_ok_def phase_inv_def)
  consider "s' = s1" "length (com_signalled_reveal_phase_timeout c') \<noteq> quorum (com_members c')"
    | "finish_reveal_phase ext s1 = Some (r, s')" | "restart_commit_phase round s1 = Some (r, s')"
    using st by (auto simp: Let_def c'_def s1_def split: if_splits)
  then show ?thesis
  proof cases
    case 1
    then show ?thesis
      using ok ph inv unfolding beacon_ok_def phase_inv_def by (simp add: p) (simp add: c'_def)
  next
    case 2
    note res = finish_reveal_phase_result[OF 2]
    show ?thesis unfolding beacon_ok_def phase_inv_def using res by simp
  next
    case 3
    note res = restart_commit_phase_result[OF 3]
    have "quorum (com_members (current_committee s')) \<le> length (com_ready_to_change (current_committee s'))"
      using quorum_mono[OF res(7)] inv res(6) p by (simp add: c'_def)
    then show ?thesis unfolding beacon_ok_def phase_inv_def using res p inv by simp
  qed
qed (use ok in simp)

section \<open>Every transaction\<close>

lemma beacon_ok_digests [simp]:
  "beacon_ok ext (s\<lparr>st_executed_digests := d\<rparr>) = beacon_ok ext s"
  by (rule beacon_ok_view) simp

lemmas frame_handlers = submit_pod_frame withdraw_frame governance_frame account_frame stake_frame
  staking_frame opt_frame submit_reputation_frame

lemma execute_method_beacon_ok:
  assumes x: "execute_method ext sender m s = Some (r, s')" and ok: "beacon_ok ext s"
  shows "beacon_ok ext s'"
proof -
  have fr: "beacon_ok ext s'" if "frame s s'" using beacon_ok_frame[OF that] ok by simp
  have vw: "beacon_ok ext s'" if "beacon_view s' = beacon_view s" using beacon_ok_view[OF that] ok by simp
  have jobs: "remove_jobs js s = (r, s') \<Longrightarrow> beacon_view s' = beacon_view s"
    "update_jobs us s = (r, s') \<Longrightarrow> beacon_view s' = beacon_view s" for js us
    using jobs_view(3)[of js s] jobs_view(4)[of us s] by auto
  show ?thesis
  proof (cases m)
    case ChangeEpoch
    with x ok show ?thesis by (auto simp: execute_method_def intro: change_epoch_ok)
  next
    case CommitteeSelectionBeaconCommit
    with x ok show ?thesis by (auto simp: execute_method_def intro: commit_ok)
  next
    case CommitteeSelectionBeaconReveal
    with x ok show ?thesis by (auto simp: execute_method_def intro: reveal_ok)
  next
    case CommitteeSelectionBeaconCommitPhaseTimeout
    with x ok show ?thesis by (auto simp: execute_method_def intro: commit_timeout_ok)
  next
    case CommitteeSelectionBeaconRevealPhaseTimeout
    with x ok show ?thesis by (auto simp: execute_method_def intro: reveal_timeout_ok)
  next
    case UpdateContentRegistry
    with x show ?thesis by (auto simp: execute_method_def intro: vw update_content_registry_view)
  next
    case AddJobs
    with x show ?thesis by (auto simp: execute_method_def intro: vw jobs_view)
  next
    case RemoveJobs
    with x show ?thesis by (auto simp: execute_method_def intro: vw jobs)
  next
    case JobUpdates
    with x show ?thesis by (auto simp: execute_method_def intro: vw jobs)
  qed (use x in \<open>auto simp: execute_method_def intro!: fr dest: frame_handlers\<close>)
qed

lemma execute_ethereum_frame:
  assumes "execute_ethereum_transaction ext t s = Some (r, s')"
  shows "frame s s'"
  using assms
  by (auto simp: execute_ethereum_transaction_def Let_def dest: frame_handlers
      split: option.split_asm if_split_asm FleekContractCalls.split_asm)

interpretation beacon_inv: block_invariant ext "beacon_ok ext" for ext
proof (unfold_locales, goal_cases)
  case (2 s t r s')
  then show ?case using beacon_ok_frame[OF execute_ethereum_frame] by blast
next
  case (4 s sender s')
  then show ?case using beacon_ok_frame[OF increment_nonce_frame] by blast
next
  case (5 s k v)
  then have "frame s (set_metadata k v s)" by (intro iffD2[OF frame_set(3)]) (auto simp: block_metadata_def)
  with 5 show ?case by (simp add: beacon_ok_frame)
qed (simp_all add: execute_method_beacon_ok)

end
