(* ===== verification/Content_Safety.thy ===== *)
theory Content_Safety
  imports Beacon_Safety
begin

text \<open>
  The two tables of the content registry mirror each other in every reachable state: only the
  registry update and the clean-up at an epoch change reach them, and both keep them in step.
\<close>

lemma content_ok_view:
  assumes "aux_view s' = aux_view s"
  shows "content_ok s' = content_ok s"
  using assms by (simp add: content_ok_def aux_view_def)

lemma content_ok_viewI: "content_ok s \<Longrightarrow> aux_view s' = aux_view s \<Longrightarrow> content_ok s'"
  using content_ok_view by blast

lemma content_ok_tables:
  assumes "st_uri_to_node s' = st_uri_to_node s" "st_node_to_uri s' = st_node_to_uri s"
  shows "content_ok s' = content_ok s"
  using assms by (simp add: content_ok_def)

lemma jobs_content:
  "add_jobs ext js s = Some (r, s') \<Longrightarrow> content_ok s' = content_ok s"
  "reassign_jobs ext s = Some s' \<Longrightarrow> content_ok s' = content_ok s"
  "content_ok (snd (remove_jobs hs s)) = content_ok s"
  "content_ok (snd (update_jobs us s)) = content_ok s"
proof -
  show "content_ok s' = content_ok s" if "add_jobs ext js s = Some (r, s')"
    using that by (auto simp: add_jobs_def Let_def bind_eq_Some_conv content_ok_def)
  show "content_ok s' = content_ok s" if "reassign_jobs ext s = Some s'"
    using that by (auto simp: reassign_jobs_def add_jobs_def Let_def bind_eq_Some_conv content_ok_def)
  have r: "(st_uri_to_node (fold remove_job hs s), st_node_to_uri (fold remove_job hs s)) =
      (st_uri_to_node s, st_node_to_uri s)"
    by (rule fold_field) (auto simp: remove_job_def Let_def split: option.splits)
  show "content_ok (snd (remove_jobs hs s)) = content_ok s"
    by (rule content_ok_tables) (use r in \<open>simp_all add: remove_jobs_def\<close>)
  have u: "(st_uri_to_node (fold update_job us s), st_node_to_uri (fold update_job us s)) =
      (st_uri_to_node s, st_node_to_uri s)"
    by (rule fold_field) (auto simp: update_job_def split: option.splits)
  show "content_ok (snd (update_jobs us s)) = content_ok s"
    by (rule content_ok_tables) (use u in \<open>simp_all add: update_jobs_def\<close>)
qed

lemma execute_epoch_change_content:
  assumes "execute_epoch_change ext e c b s = Some s'" "content_ok s"
  shows "content_ok s'"
proof -
  obtain s1 s2 d nc s6 s8 where
    s1: "executor_reputation_scores s = Some s1" and s2: "distribute_rewards s1 = Some s2"
    and s6: "choose_new_committee ext b
      (set_committee_info e c ((clean_up_content_registry s2)\<lparr>st_executed_digests := d\<rparr>)) = Some (nc, s6)"
    and s8: "reassign_jobs ext (set_committee_info (e + 1) nc s6) = Some s8"
    and s': "s' = set_metadata Metadata.EpochEra (Value.EpochEra 0)
      (set_metadata Metadata.Epoch (Value.Epoch (e + 1)) s8)"
    using assms by (auto simp: execute_epoch_change_def Let_def bind_eq_Some_conv)
  have "frame s s2" using rewards_frame.distribute_rewards_keeps[OF s2 scores_frame[OF s1]] .
  then have "content_ok s2" using assms(2) content_ok_view unfolding frame_def by blast
  then have "content_ok (clean_up_content_registry s2)" by (rule clean_up_content_registry_ok)
  then have "content_ok (set_committee_info e c ((clean_up_content_registry s2)\<lparr>st_executed_digests := d\<rparr>))"
    by (simp add: content_ok_def set_committee_info_def)
  then have "content_ok s6"
    using choose_new_committee_frame[OF s6] content_ok_view unfolding frame_def by blast
  then have "content_ok s8"
    using jobs_content(2)[OF s8] by (simp add: content_ok_def set_committee_info_def)
  then show ?thesis by (simp add: s' content_ok_def set_metadata_def)
qed

lemma aux_view_clear [simp]:
  "aux_view (clear_committee_selection_beacon_phase s) = aux_view s"
  "aux_view (clear_committee_selection_beacons s) = aux_view s"
  "aux_view (clear_committee_selection_beacon_non_revealing_node s) = aux_view s"
  "aux_view (clear_committee_selection_beacon_timeouts e s) = aux_view s"
  by (simp_all add: clear_committee_selection_beacon_phase_def clear_committee_selection_beacons_def
      clear_committee_selection_beacon_non_revealing_node_def
      clear_committee_selection_beacon_timeouts_def)

lemma beacon_aux_view:
  "change_epoch sender e s = Some (r, s') \<Longrightarrow> aux_view s' = aux_view s"
  "committee_selection_beacon_commit sender cm s = Some (r, s') \<Longrightarrow> aux_view s' = aux_view s"
  "committee_selection_beacon_reveal ext sender rv s = Some (r, s') \<Longrightarrow> aux_view s' = aux_view s"
  "committee_selection_beacon_commit_phase_timeout sender e rd s = Some (r, s') \<Longrightarrow>
     aux_view s' = aux_view s"
proof -
  show "aux_view s' = aux_view s" if "change_epoch sender e s = Some (r, s')"
    using change_epoch_cases[OF that] by (auto simp: Let_def)
  show "aux_view s' = aux_view s" if "committee_selection_beacon_commit sender cm s = Some (r, s')"
    using commit_cases[OF that] by auto
  show "aux_view s' = aux_view s" if "committee_selection_beacon_reveal ext sender rv s = Some (r, s')"
    using reveal_cases[OF that] by auto
  have f: "aux_view (finish_commit_phase rd t) = aux_view t" for t
    by (simp add: finish_commit_phase_def Let_def)
  show "aux_view s' = aux_view s"
    if "committee_selection_beacon_commit_phase_timeout sender e rd s = Some (r, s')"
    using commit_timeout_cases[OF that] by (auto simp: Let_def f)
qed

lemma reveal_timeout_content:
  assumes "committee_selection_beacon_reveal_phase_timeout ext sender e rd s = Some (r, s')" "content_ok s"
  shows "content_ok s'"
proof -
  have fin: "content_ok s'"
    if f: "finish_reveal_phase ext (set_committee_info x c s) = Some (r, s')" for x c
  proof -
    obtain y d b where x: "execute_epoch_change ext y d b
        (clear_committee_selection_beacon_non_revealing_node (clear_committee_selection_beacons
          (clear_committee_selection_beacon_phase (set_committee_info x c s)))) = Some s'"
      using f by (auto simp: finish_reveal_phase_def Let_def bind_eq_Some_conv)
    show ?thesis
      by (rule execute_epoch_change_content[OF x], rule content_ok_viewI[OF assms(2)]) simp
  qed
  have rest: "content_ok s'" if "restart_commit_phase rd (set_committee_info x c s) = Some (r, s')" for x c
    by (rule content_ok_viewI[OF assms(2)]) (simp add: restart_commit_phase_result(10)[OF that])
  have keep: "content_ok (set_committee_info x c s)" for x c
    by (rule content_ok_viewI[OF assms(2)]) simp
  consider "s' = s" | x c where "finish_reveal_phase ext (set_committee_info x c s) = Some (r, s')"
    | x c where "restart_commit_phase rd (set_committee_info x c s) = Some (r, s')"
    | x c where "s' = set_committee_info x c s"
    using reveal_timeout_cases[OF assms(1)] unfolding Let_def by (auto split: if_splits)
  then show ?thesis
    by cases (use assms(2) fin rest keep in blast)+
qed

lemma frame_aux_view: "frame s s' \<Longrightarrow> aux_view s' = aux_view s"
  by (simp add: frame_def)

lemmas aux_handlers = frame_handlers[THEN frame_aux_view] beacon_aux_view

lemma execute_method_content_ok:
  assumes x: "execute_method ext sender m s = Some (r, s')" and ok: "content_ok s"
  shows "content_ok s'"
proof -
  have vw: "content_ok s'" if "aux_view s' = aux_view s" using content_ok_view[OF that] ok by simp
  show ?thesis
  proof (cases m)
    case CommitteeSelectionBeaconRevealPhaseTimeout
    with x ok show ?thesis by (auto simp: execute_method_def intro: reveal_timeout_content)
  next
    case UpdateContentRegistry
    with x ok show ?thesis by (auto simp: execute_method_def intro: update_content_registry_content_ok)
  next
    case AddJobs
    with x ok show ?thesis by (auto simp: execute_method_def dest: jobs_content(1))
  next
    case (RemoveJobs hs)
    with x ok jobs_content(3)[of hs s] show ?thesis by (auto simp: execute_method_def)
  next
    case (JobUpdates us)
    with x ok jobs_content(4)[of us s] show ?thesis by (auto simp: execute_method_def)
  qed (use x in \<open>auto simp: execute_method_def intro!: vw dest: aux_handlers\<close>)
qed

interpretation content_inv: block_invariant ext content_ok for ext
proof (unfold_locales, goal_cases)
  case (1 s sender m r s')
  then show ?case by (rule execute_method_content_ok[rotated])
next
  case (2 s t r s')
  from execute_ethereum_frame[OF 2(2)] 2(1) show ?case using content_ok_view unfolding frame_def by blast
next
  case (4 s sender s')
  from increment_nonce_frame[OF 4(2)] 4(1) show ?case using content_ok_view unfolding frame_def by blast
qed (simp_all add: content_ok_def set_metadata_def)

section \<open>The registry as a relation\<close>

text \<open>
  What the registry promises: a relation between nodes and contents, to which a list of updates of a
  node is applied one after the other.
\<close>

definition provides :: "app_state \<Rightarrow> (NodeIndex \<times> Blake3Hash) set" where
  "provides s = {(i, uri). i \<in> providers s uri}"

definition apply_update ::
    "NodeIndex \<Rightarrow> ContentUpdate \<Rightarrow> (NodeIndex \<times> Blake3Hash) set \<Rightarrow> (NodeIndex \<times> Blake3Hash) set" where
  "apply_update i u R = (if cu_remove u then R - {(i, cu_uri u)} else insert (i, cu_uri u) R)"

lemma apply_updates:
  assumes "distinct (map cu_uri us)"
  shows "(j, uri) \<in> fold (apply_update i) us R \<longleftrightarrow> (case find (\<lambda>u. cu_uri u = uri) us of
    None \<Rightarrow> (j, uri) \<in> R
  | Some u \<Rightarrow> if cu_remove u then (j, uri) \<in> R \<and> j \<noteq> i else j = i \<or> (j, uri) \<in> R)"
  using assms
proof (induction us arbitrary: R)
  case (Cons u us)
  have "find (\<lambda>w. cu_uri w = cu_uri u) us = None"
    using Cons.prems by (simp add: find_None_iff) (metis image_eqI)
  then show ?case using Cons by (auto simp: apply_update_def split: option.splits)
qed simp

lemma update_content_refines:
  assumes "update_content_registry sender us s = Some (r, s')"
  shows "(\<not> is_success r \<and> s' = s) \<or>
    (\<exists>i. only_node_with_sufficient_stake_and_participating s sender = Some (Inr i) \<and>
      r = Success EDNone \<and> distinct (map cu_uri us) \<and> length us \<le> MAX_UPDATES_CONTENT_REGISTRY \<and>
      provides s' = fold (apply_update i) us (provides s))"
proof -
  from update_content_registry_cases[OF assms] show ?thesis
  proof cases
    case (2 i st)
    have st: "staged_ok s i us st" using stage_updates_ok[OF staged_ok_start 2(4)] by simp
    then have d: "distinct (map cu_uri us)" by (simp add: staged_ok_def)
    have "(j, uri) \<in> provides s' \<longleftrightarrow> (j, uri) \<in> fold (apply_update i) us (provides s)" for j uri
      unfolding apply_updates[OF d] using providers_commit[OF st, of uri]
      by (auto simp: provides_def 2(5) split: option.splits if_splits)
    then have "provides s' = fold (apply_update i) us (provides s)" by auto
    then show ?thesis using 2 d by blast
  qed simp
qed

end
