(* ===== verification/Projections.thy ===== *)
theory Projections
  imports Beacon_Safety
begin

text \<open>
  What every transaction but \<^verbatim>\<open>stake\<close> keeps of the nodes, the accounts and the parameters. The parts
  of a node, of an account and of the parameters that no handler writes are given by a projection of
  each, with the laws that the fields the handlers write do not matter to it; then every handler keeps
  the projections, both key indexes and the block number. The locale \<open>lock_projection\<close> leaves out what
  \<^verbatim>\<open>unstake\<close> and \<^verbatim>\<open>change_protocol_param\<close> write, so that its projections may read the end of the lock of
  unstaked tokens and the parameters; \<open>node_projection\<close> covers these two handlers as well. The node
  registry and the nonces are instances of the second, the locks of the first.
\<close>

definition next_node_index :: "app_state \<Rightarrow> NodeIndex" where
  "next_node_index s =
     (case tbl_get (st_metadata s) Metadata.NextNodeIndex of Some (Value.NextNodeIndex i) \<Rightarrow> i | _ \<Rightarrow> 0)"

definition node_frame ::
    "(NodeInfo \<Rightarrow> 'a) \<Rightarrow> (AccountInfo \<Rightarrow> 'b) \<Rightarrow> ((ProtocolParamKey, ProtocolParamValue) table \<Rightarrow> 'c) \<Rightarrow>
     app_state \<Rightarrow> app_state \<Rightarrow> bool" where
  "node_frame f g pr s s' \<longleftrightarrow>
     (\<forall>i. map_option f (node s' i) = map_option f (node s i)) \<and>
     (\<forall>a. g (account s' a) = g (account s a)) \<and>
     pr (st_parameters s') = pr (st_parameters s) \<and>
     st_pub_key_to_index s' = st_pub_key_to_index s \<and>
     st_consensus_key_to_index s' = st_consensus_key_to_index s \<and>
     next_node_index s' = next_node_index s \<and> get_block_number s' = get_block_number s \<and>
     (tbl_wf (st_node_info s) \<longrightarrow> tbl_wf (st_node_info s'))"

lemma node_frame_refl [simp]: "node_frame f g pr s s"
  by (simp add: node_frame_def)

lemma node_frame_trans: "node_frame f g pr s s' \<Longrightarrow> node_frame f g pr s' s'' \<Longrightarrow> node_frame f g pr s s''"
  by (auto simp: node_frame_def)

lemma node_frame_node:
  "node s i = Some n \<Longrightarrow> f n' = f n \<Longrightarrow> node_frame f g pr s s' \<Longrightarrow> node_frame f g pr s (set_node_info i n' s')"
  unfolding node_frame_def set_node_info_def next_node_index_def get_block_number_def by simp

lemma node_frame_account:
  "g x = g (account s a) \<Longrightarrow> node_frame f g pr s s' \<Longrightarrow> node_frame f g pr s (set_account_info a x s')"
  unfolding node_frame_def set_account_info_def next_node_index_def get_block_number_def by simp

lemma node_frame_set [simp]:
  "node_frame f g pr s (set_committee_info e c s') = node_frame f g pr s s'"
  "k \<noteq> Metadata.NextNodeIndex \<Longrightarrow> k \<noteq> Metadata.BlockNumber \<Longrightarrow>
     node_frame f g pr s (set_metadata k v s') = node_frame f g pr s s'"
  by (simp_all add: node_frame_def set_defs next_node_index_def get_block_number_def)

lemma node_frame_other [simp]:
  "node_frame f g pr s (s'\<lparr>st_withdraws := a\<rparr>) = node_frame f g pr s s'"
  "node_frame f g pr s (s'\<lparr>st_mints := b\<rparr>) = node_frame f g pr s s'"
  "node_frame f g pr s (s'\<lparr>st_rep_measurements := d\<rparr>) = node_frame f g pr s s'"
  "node_frame f g pr s (s'\<lparr>st_submitted_rep_measurements := e\<rparr>) = node_frame f g pr s s'"
  "node_frame f g pr s (s'\<lparr>st_current_epoch_served := h\<rparr>) = node_frame f g pr s s'"
  "node_frame f g pr s (s'\<lparr>st_total_served := i\<rparr>) = node_frame f g pr s s'"
  "node_frame f g pr s (s'\<lparr>st_service_revenue := j\<rparr>) = node_frame f g pr s s'"
  "node_frame f g pr s (s'\<lparr>st_executed_digests := k\<rparr>) = node_frame f g pr s s'"
  "node_frame f g pr s (s'\<lparr>st_rep_scores := l\<rparr>) = node_frame f g pr s s'"
  "node_frame f g pr s (s'\<lparr>st_uptime := m\<rparr>) = node_frame f g pr s s'"
  "node_frame f g pr s (s'\<lparr>st_latencies := n\<rparr>) = node_frame f g pr s s'"
  "node_frame f g pr s (s'\<lparr>st_uri_to_node := o'\<rparr>) = node_frame f g pr s s'"
  "node_frame f g pr s (s'\<lparr>st_node_to_uri := p\<rparr>) = node_frame f g pr s s'"
  "node_frame f g pr s (s'\<lparr>st_jobs := q\<rparr>) = node_frame f g pr s s'"
  "node_frame f g pr s (s'\<lparr>st_assigned_jobs := r\<rparr>) = node_frame f g pr s s'"
  "node_frame f g pr s (s'\<lparr>st_committee_selection_beacon := t\<rparr>) = node_frame f g pr s s'"
  "node_frame f g pr s (s'\<lparr>st_non_revealing_node := u\<rparr>) = node_frame f g pr s s'"
  by (simp_all add: node_frame_def next_node_index_def get_block_number_def)

lemma node_frame_parameters:
  "pr c = pr (st_parameters s') \<Longrightarrow> node_frame f g pr s (s'\<lparr>st_parameters := c\<rparr>) = node_frame f g pr s s'"
  by (simp add: node_frame_def next_node_index_def get_block_number_def)

lemma node_frame_phase [simp]:
  "node_frame f g pr s (set_committee_selection_beacon_commit_phase e r s') = node_frame f g pr s s'"
  "node_frame f g pr s (set_committee_selection_beacon_reveal_phase e r s') = node_frame f g pr s s'"
  "node_frame f g pr s (clear_committee_selection_beacon_phase s') = node_frame f g pr s s'"
  "node_frame f g pr s (clear_committee_selection_beacons s') = node_frame f g pr s s'"
  "node_frame f g pr s (clear_committee_selection_beacon_non_revealing_node s') = node_frame f g pr s s'"
  "node_frame f g pr s (clear_committee_selection_beacon_timeouts e s') = node_frame f g pr s s'"
  by (simp_all add: set_committee_selection_beacon_commit_phase_def
      set_committee_selection_beacon_reveal_phase_def clear_committee_selection_beacons_def
      clear_committee_selection_beacon_non_revealing_node_def
      clear_committee_selection_beacon_timeouts_def)
    (simp add: clear_committee_selection_beacon_phase_def node_frame_def next_node_index_def
      get_block_number_def)

lemma node_frame_same:
  assumes "node_frame f g pr s s'" and "node s i = Some n"
  obtains m where "node s' i = Some m" "f m = f n"
proof -
  have "map_option f (node s' i) = map_option f (node s i)"
    using assms(1) unfolding node_frame_def by blast
  with assms(2) have "map_option f (node s' i) = Some (f n)" by simp
  with that show thesis by auto
qed

lemma node_frame_back:
  assumes "node_frame f g pr s s'" and "node s' i = Some n"
  obtains m where "node s i = Some m" "f m = f n"
proof -
  have "map_option f (node s' i) = map_option f (node s i)"
    using assms(1) unfolding node_frame_def by blast
  with assms(2) have "map_option f (node s i) = Some (f n)" by simp
  with that show thesis by auto
qed

lemma node_frame_fold:
  assumes "\<And>x t. node_frame f g pr t (h x t)"
  shows "node_frame f g pr s (fold h xs s)"
  by (induction xs arbitrary: s) (auto intro: node_frame_trans assms)

section \<open>Handlers that reach neither nodes nor accounts\<close>

lemma record_change_nodes: "record_node_registry_change pk change s = Some s' \<Longrightarrow> node_frame f g pr s s'"
  by (auto simp: record_node_registry_change_def bind_eq_Some_conv Let_def)

lemma submit_pod_nodes: "submit_pod sender c i s = Some (r, s') \<Longrightarrow> node_frame f g pr s s'"
  by (auto simp: submit_pod_def bind_eq_Some_conv Let_def)
    (auto simp: Let_def bind_eq_Some_conv split: sum.split_asm option.split_asm if_split_asm)

lemma submit_reputation_nodes:
  assumes "submit_reputation_measurements sender ms s = Some (r, s')"
  shows "node_frame f g pr s s'"
proof -
  have loop: "node_frame f g pr t t'" if "for_each (submit_one i) ms t = Some t'" for i t t'
    by (rule for_each_invariant[OF that]) (auto simp: submit_one_def bind_eq_Some_conv split: if_splits)
  obtain r' where g: "only_node_with_sufficient_stake_and_participating s sender = Some r'"
    using assms by (auto simp: submit_reputation_measurements_def bind_eq_Some_conv)
  show ?thesis
  proof (cases r')
    case (Inr i)
    have loop': "node_frame f g pr s s'" if "for_each (submit_one i) ms
        (s\<lparr>st_submitted_rep_measurements := x\<rparr>) = Some s'" for x
      using loop[OF that] by (rule node_frame_trans[rotated]) simp
    show ?thesis
      using assms g Inr
      by (auto simp: submit_reputation_measurements_def Let_def bind_eq_Some_conv
          dest!: loop' split: if_split_asm)
  qed (use assms g in \<open>auto simp: submit_reputation_measurements_def\<close>)
qed

lemma update_content_registry_nodes:
  assumes "update_content_registry sender us s = Some (r, s')"
  shows "node_frame f g pr s s'"
  by (cases rule: update_content_registry_cases[OF assms]) (simp_all add: commit_staged_def)

lemma clean_up_nodes: "node_frame f g pr s (clean_up_content_registry s)"
  unfolding clean_up_content_registry_def
  by (rule node_frame_fold)
    (auto simp: clear_content_registry_def Let_def split: option.splits sum.splits if_splits)

lemma jobs_nodes:
  "add_jobs ext js s = Some (r, s') \<Longrightarrow> node_frame f g pr s s'"
  "reassign_jobs ext s = Some s' \<Longrightarrow> node_frame f g pr s s'"
  "remove_jobs hs s = (r, s') \<Longrightarrow> node_frame f g pr s s'"
  "update_jobs us s = (r, s') \<Longrightarrow> node_frame f g pr s s'"
proof -
  show "node_frame f g pr s s'" if "add_jobs ext js s = Some (r, s')"
    using that by (auto simp: add_jobs_def Let_def bind_eq_Some_conv)
  show "node_frame f g pr s s'" if "reassign_jobs ext s = Some s'"
    using that by (auto simp: reassign_jobs_def add_jobs_def Let_def bind_eq_Some_conv)
  show "node_frame f g pr s s'" if "remove_jobs hs s = (r, s')"
  proof -
    have "node_frame f g pr s (snd (remove_jobs hs s))"
      unfolding remove_jobs_def snd_conv
      by (rule node_frame_fold) (auto simp: remove_job_def Let_def split: option.splits)
    with that show ?thesis by simp
  qed
  show "node_frame f g pr s s'" if "update_jobs us s = (r, s')"
  proof -
    have "node_frame f g pr s (snd (update_jobs us s))"
      unfolding update_jobs_def snd_conv
      by (rule node_frame_fold) (auto simp: update_job_def split: option.splits)
    with that show ?thesis by simp
  qed
qed

lemma choose_new_committee_nodes: "choose_new_committee ext b s = Some (c, s') \<Longrightarrow> node_frame f g pr s s'"
  by (erule choose_new_committee_result) simp

lemma beacon_nodes:
  "change_epoch sender e s = Some (r, s') \<Longrightarrow> node_frame f g pr s s'"
  "committee_selection_beacon_commit sender cm s = Some (r, s') \<Longrightarrow> node_frame f g pr s s'"
  "committee_selection_beacon_reveal ext sender rv s = Some (r, s') \<Longrightarrow> node_frame f g pr s s'"
  "committee_selection_beacon_commit_phase_timeout sender e rd s = Some (r, s') \<Longrightarrow> node_frame f g pr s s'"
proof -
  show "node_frame f g pr s s'" if "change_epoch sender e s = Some (r, s')"
    using change_epoch_cases[OF that] by (auto simp: Let_def)
  show "node_frame f g pr s s'" if "committee_selection_beacon_commit sender cm s = Some (r, s')"
    using commit_cases[OF that] by auto
  show "node_frame f g pr s s'" if "committee_selection_beacon_reveal ext sender rv s = Some (r, s')"
    using reveal_cases[OF that] by auto
  have h: "node_frame f g pr s (finish_commit_phase rd t)" if "node_frame f g pr s t" for t
    using that by (simp add: finish_commit_phase_def Let_def)
  show "node_frame f g pr s s'"
    if "committee_selection_beacon_commit_phase_timeout sender e rd s = Some (r, s')"
    using commit_timeout_cases[OF that] by (auto simp: Let_def intro!: h)
qed

lemma get_node_info_Some: "get_node_info s sender = Some (i, n) \<Longrightarrow> node s i = Some n"
  by (auto simp: get_node_info_def split: TransactionSender.splits option.splits)

lemma node_set [simp]: "node (set_node_info i n s) j = (if j = i then Some n else node s j)"
  by (simp add: set_node_info_def)

lemma node_set_account [simp]: "st_node_info (set_account_info a x s) = st_node_info s"
  by (simp add: set_account_info_def)

section \<open>Staking for a new node\<close>

lemma stake_new_cases:
  assumes x: "stake sender amount pk ck nd wk wd po s = Some (r, s')"
    and new: "tbl_get (st_pub_key_to_index s) pk = None"
  obtains (reverted) "\<not> is_success r" "s' = s"
  | (created) info s1 a where "sender = AccountOwner a" "amount \<le> acc_flk_balance (account s a)"
      "ni_public_key info = pk" "tbl_get (st_consensus_key_to_index s) (ni_consensus_key info) = None"
      "ni_stake info = Staking_default\<lparr>stk_staked := amount\<rparr>"
      "record_node_registry_change pk New (snd (create_node info s)) = Some s1"
      "s' = set_account_info a ((account s a)\<lparr>acc_flk_balance := acc_flk_balance (account s a) - amount\<rparr>) s1"
proof (cases "\<exists>a c d w v p. sender = AccountOwner a \<and> ck = Some c \<and> nd = Some d \<and> wk = Some w \<and>
    wd = Some v \<and> po = Some p \<and> amount \<le> acc_flk_balance (account s a) \<and>
    tbl_get (st_consensus_key_to_index s) c = None")
  case True
  then obtain a c d w v p where some: "only_account_owner sender = Inr a" "ck = Some c" "nd = Some d"
      "wk = Some w" "wd = Some v" "po = Some p" "\<not> acc_flk_balance (account s a) < amount"
      and c: "tbl_get (st_consensus_key_to_index s) c = None"
    by (auto simp: not_less)
  define info where "info = \<lparr>ni_owner = a, ni_public_key = pk, ni_consensus_key = c,
    ni_staked_since = get_epoch s, ni_stake = Staking_default\<lparr>stk_staked := amount\<rparr>,
    ni_domain = d, ni_worker_domain = v, ni_ports = p, ni_worker_public_key = w,
    ni_participation = PFalse, ni_nonce = 0\<rparr>"
  obtain s1 where s1: "record_node_registry_change pk New (snd (create_node info s)) = Some s1"
      "s' = set_account_info a ((account s a)\<lparr>acc_flk_balance := acc_flk_balance (account s a) - amount\<rparr>) s1"
    using x unfolding stake_def Let_def some new
    by (auto simp: c some(7) bind_eq_Some_conv info_def)
  show thesis
    by (rule created[OF _ _ _ _ _ s1]) (use some c in \<open>simp_all add: info_def not_less\<close>)
next
  case False
  have "\<not> is_success r \<and> s' = s"
    using x new False
    by (auto simp: stake_def Let_def not_less dest: only_account_owner_revert
        split: sum.split_asm if_split_asm option.split_asm)
  then show thesis using reverted by blast
qed

section \<open>Handlers that write nodes or accounts\<close>

locale lock_projection =
  fixes f :: "NodeInfo \<Rightarrow> 'a" and g :: "AccountInfo \<Rightarrow> 'b"
    and pr :: "(ProtocolParamKey, ProtocolParamValue) table \<Rightarrow> 'c"
  assumes node_fields: "stk_locked_until a = stk_locked_until (ni_stake n) \<Longrightarrow> f (n\<lparr>ni_stake := a\<rparr>) = f n"
      "f (n\<lparr>ni_participation := b\<rparr>) = f n"
      "f (n\<lparr>ni_domain := c\<rparr>) = f n" "f (n\<lparr>ni_worker_domain := c\<rparr>) = f n"
      "f (n\<lparr>ni_worker_public_key := d\<rparr>) = f n" "f (n\<lparr>ni_ports := e\<rparr>) = f n"
    and account_fields: "g (x\<lparr>acc_flk_balance := h\<rparr>) = g x" "g (x\<lparr>acc_stables_balance := i\<rparr>) = g x"
      "g (x\<lparr>acc_bandwidth_balance := j\<rparr>) = g x" "g (x\<lparr>acc_client_key := k\<rparr>) = g x"
begin

lemma withdraw_keeps: "withdraw sender a x t s = (r, s') \<Longrightarrow> node_frame f g pr s s'"
  by (auto simp: withdraw_def Let_def account_fields intro!: node_frame_account
      split: sum.split_asm option.split_asm if_split_asm Tokens.split_asm)

lemma governance_keeps:
  "clear_withdraws sender w s = Some (r, s') \<Longrightarrow> node_frame f g pr s s'"
  "clear_mints sender b s = Some (r, s') \<Longrightarrow> node_frame f g pr s s'"
  "mint sender a x t h b s = Some (r, s') \<Longrightarrow> node_frame f g pr s s'"
  by (auto simp: clear_withdraws_def clear_mints_def mint_def Let_def bind_eq_Some_conv)
    (auto simp: Let_def bind_eq_Some_conv account_fields intro!: node_frame_account
      split: sum.split_asm if_split_asm Tokens.split_asm)

lemma deposit_keeps:
  assumes "deposit sender x t s = Some (r, s')"
  shows "node_frame f g pr s s'"
  using assms
  by (auto simp: deposit_def Let_def bind_eq_Some_conv account_fields intro!: node_frame_account
      split: sum.split_asm if_split_asm Tokens.split_asm)

lemma account_keeps:
  "transfer sender x t a s = (r, s') \<Longrightarrow> node_frame f g pr s s'"
  "approve_client_key b k s = (r, s') \<Longrightarrow> node_frame f g pr s s'"
  "revoke_client_key b s = (r, s') \<Longrightarrow> node_frame f g pr s s'"
  by (auto simp: transfer_def approve_client_key_def revoke_client_key_def Let_def account_fields
      intro!: node_frame_account split: sum.split_asm if_split_asm)

lemma staking_keeps:
  "stake_lock sender pk l s = (r, s') \<Longrightarrow> node_frame f g pr s s'"
  "withdraw_unstaked sender pk rc s = (r, s') \<Longrightarrow> node_frame f g pr s s'"
  by (auto simp: stake_lock_def withdraw_unstaked_def Let_def)
    (auto simp: Let_def node_fields account_fields dest!: get_node_info_Some
      intro!: node_frame_node node_frame_account
      split: sum.split_asm if_split_asm option.split_asm prod.split_asm)

lemma opt_keeps:
  "opt_in sender s = Some (r, s') \<Longrightarrow> node_frame f g pr s s'"
  "opt_out sender s = Some (r, s') \<Longrightarrow> node_frame f g pr s s'"
  by (auto simp: opt_in_def opt_out_def bind_eq_Some_conv)
    (auto simp: Let_def node_fields intro!: node_frame_node split: sum.split_asm option.split_asm)

text \<open>Adding stake to a registered node.\<close>

lemma stake_more_keeps:
  assumes "stake sender amount pk ck nd wk wd po s = Some (r, s')" "tbl_get (st_pub_key_to_index s) pk = Some i"
  shows "node_frame f g pr s s'"
  using assms
  by (auto simp: stake_def Let_def node_fields account_fields intro!: node_frame_node node_frame_account
      split: sum.split_asm if_split_asm option.split_asm option.split)

lemma scores_keep:
  assumes "executor_reputation_scores s = Some s'"
  shows "node_frame f g pr s s'"
proof -
  have node_step: "node_frame f g pr t t'" if "score_node rs d new i t = Some t'" for rs d new i t t'
    using that
    by (cases "unwrap_or (tbl_get new i) (None, None)")
      (auto simp: score_node_def Let_def bind_eq_Some_conv,
        auto simp: Let_def node_fields intro!: node_frame_node split: option.splits)
  obtain rs d new t u where t: "for_each (score_node rs d new) (tbl_keys (st_node_info s))
      (s\<lparr>st_uptime := u\<rparr>) = Some t" and s': "s' = clear_measurements (update_latencies t)"
    using assms by (auto simp: executor_reputation_scores_def Let_def bind_eq_Some_conv)
  have "node_frame f g pr s t" by (rule for_each_invariant[OF t]) (auto intro: node_step node_frame_trans)
  then show ?thesis unfolding s' by (simp add: clear_measurements_def update_latencies_def Let_def)
qed

lemma payments_keep:
  "node_frame f g pr s t \<Longrightarrow> node_frame f g pr s (mint_and_transfer_stables x owner t)"
  "node_frame f g pr s t \<Longrightarrow> mint_and_transfer_flk y owner t = Some t' \<Longrightarrow> node_frame f g pr s t'"
proof -
  assume t: "node_frame f g pr s t"
  have "node_frame f g pr t (mint_and_transfer_stables x owner t)"
    by (simp add: mint_and_transfer_stables_def Let_def node_frame_account account_fields)
  with t show "node_frame f g pr s (mint_and_transfer_stables x owner t)" by (rule node_frame_trans)
  show "node_frame f g pr s t'" if "mint_and_transfer_flk y owner t = Some t'"
  proof -
    have "node_frame f g pr t t'"
      using that by (auto simp: mint_and_transfer_flk_def Let_def bind_eq_Some_conv account_fields
          intro!: node_frame_account split: if_splits)
    with t show ?thesis by (rule node_frame_trans)
  qed
qed

end

sublocale lock_projection \<subseteq> pay: payment_invariant "node_frame f g pr s" for s
  by unfold_locales (simp_all add: payments_keep)

context lock_projection
begin

lemma execute_epoch_change_keeps:
  assumes "execute_epoch_change ext e c b s = Some s'"
  shows "node_frame f g pr s s'"
proof -
  obtain s1 s2 d nc s6 s8 where
    s1: "executor_reputation_scores s = Some s1" and s2: "distribute_rewards s1 = Some s2"
    and s6: "choose_new_committee ext b
      (set_committee_info e c ((clean_up_content_registry s2)\<lparr>st_executed_digests := d\<rparr>)) = Some (nc, s6)"
    and s8: "reassign_jobs ext (set_committee_info (e + 1) nc s6) = Some s8"
    and s': "s' = set_metadata Metadata.EpochEra (Value.EpochEra 0)
      (set_metadata Metadata.Epoch (Value.Epoch (e + 1)) s8)"
    using assms by (auto simp: execute_epoch_change_def Let_def bind_eq_Some_conv)
  have "node_frame f g pr s s2"
    using pay.distribute_rewards_keeps[OF s2 scores_keep[OF s1]] .
  then have "node_frame f g pr s (clean_up_content_registry s2)" using clean_up_nodes node_frame_trans by blast
  then have "node_frame f g pr s s6" using node_frame_trans[OF _ choose_new_committee_nodes[OF s6]] by simp
  then have "node_frame f g pr s s8" using node_frame_trans[OF _ jobs_nodes(2)[OF s8]] by simp
  then show ?thesis by (simp add: s')
qed

lemma slash_keeps:
  assumes "slash_node_after_non_reveal_and_maybe_kick amount i s = Some s'"
  shows "node_frame f g pr s s'"
proof -
  obtain info where info: "node s i = Some info"
    using assms by (auto simp: slash_node_after_non_reveal_and_maybe_kick_def bind_eq_Some_conv)
  define info' where "info' = info\<lparr>ni_stake := slash_stake amount (ni_stake info)\<rparr>"
  obtain pk change s2 ok where
      s2: "record_node_registry_change pk change (set_node_info i info' s) = Some s2"
      and s': "s' = (if ok then s2 else kick_from_committee i s2)"
    using assms info
    by (auto simp: slash_node_after_non_reveal_and_maybe_kick_def bind_eq_Some_conv Let_def info'_def)
  have "node_frame f g pr s (set_node_info i info' s)"
    by (rule node_frame_node[OF info]) (simp_all add: info'_def node_fields slash_stake_def Let_def)
  then have "node_frame f g pr s s2" using record_change_nodes[OF s2] node_frame_trans by blast
  then show ?thesis by (simp add: s' kick_from_committee_def Let_def)
qed

lemma restart_commit_phase_keeps:
  assumes "restart_commit_phase round s = Some (r, s')"
  shows "node_frame f g pr s s'"
proof -
  obtain amount nodes t s3 u where
      loop: "for_each (slash_node_after_non_reveal_and_maybe_kick amount) nodes
        ((set_committee_selection_beacon_commit_phase (get_epoch s) (round + 1) s)
          \<lparr>st_non_revealing_node := t\<rparr>) = Some s3"
      and s': "s' = clear_committee_selection_beacon_timeouts (get_epoch s)
        (s3\<lparr>st_committee_selection_beacon := u\<rparr>)"
    using assms by (auto simp: restart_commit_phase_def Let_def bind_eq_Some_conv)
  have "node_frame f g pr s s3"
    by (rule for_each_invariant[OF loop]) (auto intro: node_frame_trans slash_keeps)
  then show ?thesis by (simp add: s')
qed

lemma reveal_timeout_keeps:
  assumes "committee_selection_beacon_reveal_phase_timeout ext sender e rd s = Some (r, s')"
  shows "node_frame f g pr s s'"
proof -
  have fin: "node_frame f g pr s s'"
    if h: "finish_reveal_phase ext (set_committee_info x c s) = Some (r, s')" for x c
  proof -
    obtain y d b where "execute_epoch_change ext y d b
        (clear_committee_selection_beacon_non_revealing_node (clear_committee_selection_beacons
          (clear_committee_selection_beacon_phase (set_committee_info x c s)))) = Some s'"
      using h by (auto simp: finish_reveal_phase_def Let_def bind_eq_Some_conv)
    from execute_epoch_change_keeps[OF this] show ?thesis by (rule node_frame_trans[rotated]) simp
  qed
  have rest: "node_frame f g pr s s'"
    if "restart_commit_phase rd (set_committee_info x c s) = Some (r, s')" for x c
    using restart_commit_phase_keeps[OF that] by (rule node_frame_trans[rotated]) simp
  consider "s' = s" | x c where "finish_reveal_phase ext (set_committee_info x c s) = Some (r, s')"
    | x c where "restart_commit_phase rd (set_committee_info x c s) = Some (r, s')"
    | x c where "s' = set_committee_info x c s"
    using reveal_timeout_cases[OF assms(1)] unfolding Let_def by (auto split: if_splits)
  then show ?thesis by cases (use fin rest in auto)
qed

lemmas handlers_keep = submit_pod_nodes withdraw_keeps governance_keeps deposit_keeps account_keeps
  staking_keeps opt_keeps submit_reputation_nodes update_content_registry_nodes jobs_nodes beacon_nodes
  reveal_timeout_keeps

lemma execute_method_but:
  assumes "execute_method ext sender m s = Some (r, s')"
  shows "node_frame f g pr s s' \<or> (\<exists>x pk ck nd wk wd po. m = Stake x pk ck nd wk wd po \<and>
      stake sender x pk ck nd wk wd po s = Some (r, s')) \<or>
    (\<exists>x pk. m = Unstake x pk \<and> unstake sender x pk s = Some (r, s')) \<or>
    (\<exists>p v. m = ChangeProtocolParam p v \<and> change_protocol_param sender p v s = Some (r, s'))"
  using assms by (cases m) (auto simp: execute_method_def dest: handlers_keep)

lemma execute_ethereum_but:
  assumes "execute_ethereum_transaction ext t s = Some (r, s')"
  shows "node_frame f g pr s s' \<or> (\<exists>x pk ck nd wk wd po.
      stake (AccountOwner (et_from t)) x pk ck nd wk wd po s = Some (r, s')) \<or>
    (\<exists>x pk. unstake (AccountOwner (et_from t)) x pk s = Some (r, s'))"
  using assms
  by (auto simp: execute_ethereum_transaction_def Let_def dest: handlers_keep
      split: option.split_asm if_split_asm FleekContractCalls.split_asm)

end

locale node_projection = lock_projection +
  assumes stake_field: "f (n\<lparr>ni_stake := a\<rparr>) = f n" and parameters: "pr t = pr u"
begin

lemma unstake_keeps: "unstake sender x pk s = Some (r, s') \<Longrightarrow> node_frame f g pr s s'"
  by (auto simp: unstake_def Let_def bind_eq_Some_conv)
    (auto simp: Let_def bind_eq_Some_conv stake_field node_fields(2) dest!: get_node_info_Some
      intro!: node_frame_node split: sum.split_asm if_split_asm option.split_asm prod.split_asm)

lemma change_protocol_param_keeps:
  "change_protocol_param sender p v s = Some (r, s') \<Longrightarrow> node_frame f g pr s s'"
  by (auto simp: change_protocol_param_def Let_def bind_eq_Some_conv node_frame_parameters[OF parameters]
      split: sum.split_asm if_split_asm)

lemma execute_method_keeps:
  assumes "execute_method ext sender m s = Some (r, s')"
  shows "node_frame f g pr s s' \<or> (\<exists>x pk ck nd wk wd po. m = Stake x pk ck nd wk wd po \<and>
    stake sender x pk ck nd wk wd po s = Some (r, s'))"
  using execute_method_but[OF assms] unstake_keeps change_protocol_param_keeps by blast

lemma execute_ethereum_keeps:
  assumes "execute_ethereum_transaction ext t s = Some (r, s')"
  shows "node_frame f g pr s s' \<or> (\<exists>x pk ck nd wk wd po.
    stake (AccountOwner (et_from t)) x pk ck nd wk wd po s = Some (r, s'))"
  using execute_ethereum_but[OF assms] unstake_keeps by blast

end

end
