(* ===== verification/Registry.thy ===== *)
theory Registry
  imports Projections
begin

text \<open>
  The node registry: \<^verbatim>\<open>node_info\<close>, \<^verbatim>\<open>pub_key_to_index\<close> and \<^verbatim>\<open>consensus_key_to_index\<close> describe the
  same nodes. Only \<^verbatim>\<open>stake\<close> adds a node; every other transaction, the epoch change included, keeps
  the keys of every node and both indexes. The debug build asserts the three sizes equal after each
  transaction (\<^verbatim>\<open>execute_fleek_transaction\<close>).
\<close>

section \<open>The invariant\<close>

definition registry_ok :: "app_state \<Rightarrow> bool" where
  "registry_ok s \<longleftrightarrow>
     tbl_wf (st_node_info s) \<and> tbl_wf (st_pub_key_to_index s) \<and> tbl_wf (st_consensus_key_to_index s) \<and>
     (\<forall>i n. node s i = Some n \<longrightarrow> tbl_get (st_pub_key_to_index s) (ni_public_key n) = Some i \<and>
        tbl_get (st_consensus_key_to_index s) (ni_consensus_key n) = Some i) \<and>
     (\<forall>pk i. tbl_get (st_pub_key_to_index s) pk = Some i \<longrightarrow>
        (\<exists>n. node s i = Some n \<and> ni_public_key n = pk)) \<and>
     (\<forall>ck i. tbl_get (st_consensus_key_to_index s) ck = Some i \<longrightarrow>
        (\<exists>n. node s i = Some n \<and> ni_consensus_key n = ck))"

text \<open>The three tables have the same number of entries.\<close>

lemma table_size: "tbl_wf t \<Longrightarrow> length (tbl_keys t) = card (dom (tbl_get t))"
  by (metis distinct_card tbl.keys_distinct tbl.keys_get)

lemma registry_ok_sizes:
  assumes "registry_ok s"
  shows "length (tbl_keys (st_node_info s)) = length (tbl_keys (st_pub_key_to_index s))"
    "length (tbl_keys (st_node_info s)) = length (tbl_keys (st_consensus_key_to_index s))"
proof -
  let ?N = "dom (tbl_get (st_node_info s))"
  have "bij_betw (\<lambda>i. ni_public_key (the (node s i))) ?N (dom (tbl_get (st_pub_key_to_index s)))"
    by (rule bij_betw_byWitness[where f' = "\<lambda>pk. the (tbl_get (st_pub_key_to_index s) pk)"])
      (use assms in \<open>fastforce simp: registry_ok_def\<close>)+
  from bij_betw_same_card[OF this] assms
  show "length (tbl_keys (st_node_info s)) = length (tbl_keys (st_pub_key_to_index s))"
    by (simp add: table_size registry_ok_def)
  have "bij_betw (\<lambda>i. ni_consensus_key (the (node s i))) ?N (dom (tbl_get (st_consensus_key_to_index s)))"
    by (rule bij_betw_byWitness[where f' = "\<lambda>ck. the (tbl_get (st_consensus_key_to_index s) ck)"])
      (use assms in \<open>fastforce simp: registry_ok_def\<close>)+
  from bij_betw_same_card[OF this] assms
  show "length (tbl_keys (st_node_info s)) = length (tbl_keys (st_consensus_key_to_index s))"
    by (simp add: table_size registry_ok_def)
qed

section \<open>Keeping the keys\<close>

definition keys_of :: "NodeInfo \<Rightarrow> NodePublicKey \<times> ConsensusPublicKey" where
  "keys_of n = (ni_public_key n, ni_consensus_key n)"

interpretation keys: node_projection keys_of "\<lambda>_. ()" "\<lambda>_. ()"
  by unfold_locales (simp_all add: keys_of_def)

abbreviation keys_frame :: "app_state \<Rightarrow> app_state \<Rightarrow> bool" where
  "keys_frame \<equiv> node_frame keys_of (\<lambda>_. ()) (\<lambda>_. ())"

lemma increment_nonce_keys: "increment_nonce sender s = Some s' \<Longrightarrow> keys_frame s s'"
  by (auto simp: increment_nonce_def Let_def bind_eq_Some_conv keys_of_def
      intro!: node_frame_node node_frame_account split: TransactionSender.splits)

lemma registry_ok_frame:
  assumes fr: "keys_frame s s'" and ok: "registry_ok s"
  shows "registry_ok s'"
proof -
  have t: "st_pub_key_to_index s' = st_pub_key_to_index s"
    "st_consensus_key_to_index s' = st_consensus_key_to_index s" "tbl_wf (st_node_info s')"
    using fr ok unfolding node_frame_def registry_ok_def by blast+
  have a: "tbl_get (st_pub_key_to_index s) (ni_public_key n) = Some i \<and>
      tbl_get (st_consensus_key_to_index s) (ni_consensus_key n) = Some i" if "node s' i = Some n" for i n
    by (rule node_frame_back[OF fr that]) (use ok in \<open>metis registry_ok_def keys_of_def prod.inject\<close>)
  have b: "\<exists>n. node s' i = Some n \<and> ni_public_key n = pk"
    if "tbl_get (st_pub_key_to_index s) pk = Some i" for i pk
  proof -
    from ok that obtain n where n: "node s i = Some n" "ni_public_key n = pk"
      unfolding registry_ok_def by blast
    from node_frame_same[OF fr n(1)] n(2) show ?thesis by (metis keys_of_def prod.inject)
  qed
  have c: "\<exists>n. node s' i = Some n \<and> ni_consensus_key n = ck"
    if "tbl_get (st_consensus_key_to_index s) ck = Some i" for i ck
  proof -
    from ok that obtain n where n: "node s i = Some n" "ni_consensus_key n = ck"
      unfolding registry_ok_def by blast
    from node_frame_same[OF fr n(1)] n(2) show ?thesis by (metis keys_of_def prod.inject)
  qed
  show ?thesis
    unfolding registry_ok_def t using a b c t(3) ok unfolding registry_ok_def by blast
qed

section \<open>Every transaction\<close>

text \<open>
  The indexes in use are those below the next index, so a new node gets a fresh one. The next index
  is a 32-bit word that a new node increments: the invariant holds while it does not wrap.
\<close>

definition registry_inv :: "app_state \<Rightarrow> bool" where
  "registry_inv s \<longleftrightarrow> registry_ok s \<and> (\<forall>i. node s i \<noteq> None \<longrightarrow> i < next_node_index s)"

lemma registry_inv_frame:
  assumes "keys_frame s s'" "registry_inv s"
  shows "registry_inv s'"
proof -
  have "next_node_index s' = next_node_index s" using assms(1) unfolding node_frame_def by blast
  moreover have "node s i \<noteq> None" if n: "node s' i \<noteq> None" for i
  proof -
    obtain n where "node s' i = Some n" using n by blast
    then show ?thesis by (rule node_frame_back[OF assms(1)]) simp
  qed
  ultimately show ?thesis
    using assms registry_ok_frame[OF assms(1)] unfolding registry_inv_def by metis
qed

lemma create_node_registry:
  assumes inv: "registry_inv s" and room: "next_node_index s \<noteq> -1"
    and new: "tbl_get (st_pub_key_to_index s) (ni_public_key info) = None"
      "tbl_get (st_consensus_key_to_index s) (ni_consensus_key info) = None"
  shows "registry_inv (snd (create_node info s))"
    "next_node_index (snd (create_node info s)) = next_node_index s + 1"
proof -
  let ?i = "next_node_index s"
  define s' where "s' = snd (create_node info s)"
  have fresh: "node s ?i = None" using inv unfolding registry_inv_def by blast
  have f: "st_pub_key_to_index s' = tbl_set (st_pub_key_to_index s) (ni_public_key info) ?i"
    "st_consensus_key_to_index s' = tbl_set (st_consensus_key_to_index s) (ni_consensus_key info) ?i"
    "st_node_info s' = tbl_set (st_node_info s) ?i info"
    using new by (simp_all add: s'_def create_node_def Let_def next_node_index_def set_defs)
  show n: "next_node_index (snd (create_node info s)) = ?i + 1"
    using new by (simp add: create_node_def Let_def next_node_index_def set_defs)
  have "1 + ?i \<noteq> 0" using room by (metis eq_neg_iff_add_eq_0 add.commute)
  then have lt: "j < ?i + 1" if "j \<le> ?i" for j
    using that unatSuc[of ?i] by (simp add: word_less_nat_alt word_le_nat_alt add.commute)
  have ok: "registry_ok s'"
    using inv fresh new unfolding registry_inv_def registry_ok_def f by (auto; metis option.distinct(1))
  show "registry_inv (snd (create_node info s))"
    using ok inv n lt f(3) unfolding registry_inv_def s'_def[symmetric] by (auto simp: less_le)
qed

lemma stake_registry:
  assumes x: "stake sender amount pk ck nd wk wd po s = Some (r, s')" and inv: "registry_inv s"
    and room: "next_node_index s \<noteq> -1"
  shows "registry_inv s' \<and> (next_node_index s' = next_node_index s \<or> next_node_index s' = next_node_index s + 1)"
proof (cases "tbl_get (st_pub_key_to_index s) pk")
  case (Some i)
  have "keys_frame s s'" by (rule keys.stake_more_keeps[OF x Some])
  then show ?thesis using registry_inv_frame inv unfolding node_frame_def by blast
next
  case None
  show ?thesis
  proof (cases rule: stake_new_cases[OF x None])
    case 1
    then show ?thesis using inv by simp
  next
    case created: (2 info s1 a)
    have "keys_frame (snd (create_node info s)) s'"
      unfolding created(7) by (rule node_frame_account[OF _ record_change_nodes[OF created(6)]]) simp
    moreover note create_node_registry[OF inv room, of info]
    ultimately show ?thesis
      using None created(3,4) registry_inv_frame unfolding node_frame_def by metis
  qed
qed

definition room_for :: "nat \<Rightarrow> app_state \<Rightarrow> bool" where
  "room_for k s \<longleftrightarrow> registry_inv s \<and> unat (next_node_index s) + k < 2 ^ 32"

lemma room_for_frame: "keys_frame s s' \<Longrightarrow> room_for k s \<Longrightarrow> room_for k s'"
  using registry_inv_frame unfolding room_for_def node_frame_def by metis

lemma room_for_less: "room_for (Suc k) s \<Longrightarrow> room_for k s"
  by (simp add: room_for_def)

lemma no_wrap: "unat (x :: u32) + Suc k < 2 ^ 32 \<Longrightarrow> 1 + x \<noteq> 0"
proof
  assume "unat x + Suc k < 2 ^ 32" "1 + x = 0"
  then show False using unat_plus_if_size[of 1 x] by (simp add: word_size split: if_splits)
qed

lemma stake_room:
  assumes "stake sender amount pk ck nd wk wd po s = Some (r, s')" "room_for (Suc k) s"
  shows "room_for k s'"
proof -
  have w: "1 + next_node_index s \<noteq> 0" using assms(2) no_wrap unfolding room_for_def by blast
  then have n: "next_node_index s \<noteq> -1" by (metis add.right_inverse)
  with stake_registry[OF assms(1) _ n] assms(2) unatSuc[OF w] show ?thesis
    by (auto simp: room_for_def add.commute)
qed

lemma execute_method_room:
  assumes "execute_method ext sender m s = Some (r, s')" "room_for (Suc k) s"
  shows "room_for k s'"
  using keys.execute_method_keeps[OF assms(1)] assms(2) stake_room
    room_for_frame[OF _ room_for_less[OF assms(2)]] by blast

lemma execute_ethereum_room:
  assumes "execute_ethereum_transaction ext t s = Some (r, s')" "room_for (Suc k) s"
  shows "room_for k s'"
  using keys.execute_ethereum_keeps[OF assms(1)] assms(2) stake_room
    room_for_frame[OF _ room_for_less[OF assms(2)]] by blast

interpretation registry_room: block_budget ext room_for room_for for ext
proof (unfold_locales, goal_cases)
  case (1 k s sender m r s')
  then show ?case by (rule execute_method_room[rotated])
next
  case (2 k s t r s')
  then show ?case by (rule execute_ethereum_room[rotated])
next
  case (3 k s d)
  then show ?case by (rule room_for_frame[rotated]) simp
next
  case (4 k s sender s')
  then show ?case by (rule room_for_frame[OF increment_nonce_keys, rotated])
next
  case (5 k s)
  then show ?case by (rule room_for_less)
next
  case (6 k s x v)
  then have "x \<noteq> Metadata.NextNodeIndex" by (auto simp: block_metadata_def)
  with 6(1) show ?case
    by (simp add: room_for_def registry_inv_def registry_ok_def next_node_index_def set_metadata_def)
qed

end
