(* ===== verification/Genesis_Safety.thy ===== *)
theory Genesis_Safety
  imports Genesis Content_Safety Registry
begin

text \<open>
  The genesis block establishes the invariants: the beacon is idle, the content registry and the
  jobs are empty, and the node registry is consistent when the genesis lists its nodes with
  different keys. A second genesis block changes nothing.
\<close>

section \<open>What the genesis block does not write\<close>

definition idle_view where
  "idle_view s = (st_uri_to_node s, st_node_to_uri s, st_jobs s, st_assigned_jobs s,
     st_committee_selection_beacon s, st_non_revealing_node s, beacon_phase s)"

lemma idle_view_simps [simp]:
  "idle_view (set_account_info a x s) = idle_view s"
  "idle_view (set_node_info i n s) = idle_view s"
  "k \<noteq> Metadata.CommitteeSelectionBeaconPhase \<Longrightarrow> idle_view (set_metadata k v s) = idle_view s"
  "idle_view (set_committee_info e c s) = idle_view s"
  "idle_view (set_param p s) = idle_view s"
  "idle_view (s\<lparr>st_consensus_key_to_index := t\<rparr>) = idle_view s"
  "idle_view (s\<lparr>st_pub_key_to_index := u\<rparr>) = idle_view s"
  "idle_view (s\<lparr>st_current_epoch_served := w\<rparr>) = idle_view s"
  "idle_view (s\<lparr>st_rep_scores := y\<rparr>) = idle_view s"
  by (simp_all add: idle_view_def set_defs set_param_def beacon_phase_def)

lemma genesis_header_idle: "idle_view (genesis_header g s) = idle_view s"
  by (simp add: genesis_header_def genesis_metadata_def genesis_params_def)

lemma genesis_add_node_idle:
  "genesis_add_node m n (v, s) = Some (v', s') \<Longrightarrow> idle_view s' = idle_view s"
  by (auto simp: genesis_add_node_def Let_def split: option.split_asm if_split_asm)

lemma genesis_add_nodes_idle:
  assumes "genesis_add_nodes g s = Some (v, s')"
  shows "idle_view s' = idle_view s"
proof -
  have "idle_view (snd (v, s')) = idle_view s"
    using assms unfolding genesis_add_nodes_def
    by (rule for_each_invariant[where P = "\<lambda>p. idle_view (snd p) = idle_view s"])
      (auto dest: genesis_add_node_idle)
  then show ?thesis by simp
qed

lemma genesis_tables_keep:
  assumes "genesis_tables g s = Some s'"
    and step: "\<And>x t. fld (genesis_add_service x t) = fld t" "\<And>x t. fld (genesis_add_account x t) = fld t"
      "\<And>x t. fld (genesis_add_client x t) = fld t" "\<And>x t. fld (genesis_add_total_served x t) = fld t"
      "\<And>p t. fld (t\<lparr>st_commodity_prices := p\<rparr>) = fld t" "\<And>l t. fld (t\<lparr>st_latencies := l\<rparr>) = fld t"
  shows "fld s' = fld s"
proof -
  obtain s4 where s4: "for_each genesis_add_price (ge_commodity_prices g)
      (fold genesis_add_client (ge_client g) (fold genesis_add_account (ge_account g)
        (fold genesis_add_service (ge_service g) s))) = Some s4"
    and s': "for_each genesis_add_latency (unwrap_or (ge_latencies g) [])
      (fold genesis_add_total_served (ge_total_served g) s4) = Some s'"
    using assms(1) by (auto simp: genesis_tables_def Let_def bind_eq_Some_conv)
  have "fld s' = fld (fold genesis_add_total_served (ge_total_served g) s4)"
    by (rule for_each_field[OF s'])
      (auto simp: genesis_add_latency_def bind_eq_Some_conv step split: if_split_asm)
  also have "\<dots> = fld s4" by (rule fold_field) (simp add: step)
  also have "\<dots> = fld (fold genesis_add_client (ge_client g) (fold genesis_add_account (ge_account g)
        (fold genesis_add_service (ge_service g) s)))"
    by (rule for_each_field[OF s4]) (auto simp: genesis_add_price_def bind_eq_Some_conv step)
  also have "\<dots> = fld s" by (simp add: fold_field[where fld = fld] step)
  finally show ?thesis .
qed

lemmas genesis_add_defs = genesis_add_service_def genesis_add_account_def genesis_add_client_def
  genesis_add_total_served_def

section \<open>The invariants at genesis\<close>

lemma apply_genesis_block_cases:
  assumes "apply_genesis_block g s = Some (True, s')"
  obtains v s1 s3 where "genesis_add_nodes g (genesis_header g s) = Some (v, s1)"
    "genesis_tables g (set_committee_info 0 (genesis_committee g v)
       (set_metadata Metadata.GenesisCommittee (Value.GenesisCommittee (gv_members v)) s1)) = Some s3"
    "s' = set_metadata Metadata.EpochEra (Value.EpochEra 0) (set_metadata Metadata.Epoch (Value.Epoch 0) s3)"
  using assms by (auto simp: apply_genesis_block_def Let_def bind_eq_Some_conv split: if_split_asm)

lemma genesis_establishes:
  assumes "apply_genesis_block g empty_state = Some (True, s)"
  shows "beacon_ok ext s \<and> content_ok s \<and> jobs_ok s \<and> get_epoch s = 0 \<and> get_epoch_era s = 0"
proof (rule apply_genesis_block_cases[OF assms])
  fix v s1 s3
  assume s1: "genesis_add_nodes g (genesis_header g empty_state) = Some (v, s1)"
    and s3: "genesis_tables g (set_committee_info 0 (genesis_committee g v)
       (set_metadata Metadata.GenesisCommittee (Value.GenesisCommittee (gv_members v)) s1)) = Some s3"
    and s: "s = set_metadata Metadata.EpochEra (Value.EpochEra 0)
      (set_metadata Metadata.Epoch (Value.Epoch 0) s3)"
  have "idle_view s3 = idle_view s1"
    by (subst genesis_tables_keep[OF s3, of idle_view])
      (simp_all add: genesis_add_defs, simp_all add: idle_view_def beacon_phase_def)
  then have idle: "idle_view s = idle_view empty_state"
    using genesis_add_nodes_idle[OF s1] genesis_header_idle[of g empty_state] by (simp add: s)
  have com: "st_committee_info s3 = tbl_set (st_committee_info s1) 0 (genesis_committee g v)"
    by (subst genesis_tables_keep[OF s3, of st_committee_info])
      (simp_all add: genesis_add_defs set_defs)
  have e: "get_epoch s = 0" by (simp add: s get_epoch_def set_metadata_def)
  have c: "current_committee s = genesis_committee g v"
    unfolding current_committee_def e by (simp add: s set_metadata_def com)
  have t: "st_uri_to_node s = []" "st_node_to_uri s = []" "st_jobs s = []" "st_assigned_jobs s = []"
    "st_committee_selection_beacon s = []" "st_non_revealing_node s = []" "beacon_phase s = None"
    using idle by (simp_all add: idle_view_def empty_state_def beacon_phase_def)
  have "beacon_ok ext s"
    unfolding beacon_ok_def phase_inv_def c t by (simp add: genesis_committee_def Let_def)
  moreover have "content_ok s" by (simp add: content_ok_def t)
  moreover have "jobs_ok s" by (simp add: jobs_ok_def t)
  moreover have "get_epoch_era s = 0" by (simp add: s get_epoch_era_def set_metadata_def)
  ultimately show ?thesis using e by simp
qed

section \<open>The node registry at genesis\<close>

lemma genesis_add_node_keys:
  assumes "genesis_add_node m n (v, s) = Some (v', s')"
    and new: "tbl_get (st_pub_key_to_index s) (gn_primary_public_key n) = None"
      "tbl_get (st_consensus_key_to_index s) (gn_consensus_public_key n) = None"
  obtains info where "ni_public_key info = gn_primary_public_key n"
    "ni_consensus_key info = gn_consensus_public_key n" "keys_frame (snd (create_node info s)) s'"
proof -
  define info where "info = (genesis_node_info n)\<lparr>ni_stake := (gn_stake n)\<lparr>stk_staked :=
     hp_max (stk_staked (gn_stake n)) (hp_from (unat m))\<rparr>\<rparr>"
  have k: "ni_public_key info = gn_primary_public_key n" "ni_consensus_key info = gn_consensus_public_key n"
    by (simp_all add: info_def genesis_node_info_def)
  have "s' = (snd (create_node info s))\<lparr>st_current_epoch_served := st_current_epoch_served s',
      st_rep_scores := st_rep_scores s'\<rparr>"
    using assms(1) new
    by (auto simp: genesis_add_node_def create_node_def Let_def k info_def genesis_node_info_def
        genesis_next_index_def set_defs split: option.split_asm if_split_asm)
  then have "keys_frame (snd (create_node info s)) s'" by (metis node_frame_other(5,9) node_frame_refl)
  with k show thesis by (rule that)
qed

lemma genesis_nodes_registry:
  assumes "for_each (genesis_add_node m) ns (v, s) = Some (v', s')" "room_for (length ns + k) s"
    and "distinct (map gn_primary_public_key ns)" "distinct (map gn_consensus_public_key ns)"
    and "\<forall>n \<in> set ns. tbl_get (st_pub_key_to_index s) (gn_primary_public_key n) = None \<and>
      tbl_get (st_consensus_key_to_index s) (gn_consensus_public_key n) = None"
  shows "room_for k s'"
  using assms
proof (induction ns arbitrary: v s)
  case (Cons n ns)
  obtain v1 t where t: "genesis_add_node m n (v, s) = Some (v1, t)"
      "for_each (genesis_add_node m) ns (v1, t) = Some (v', s')"
    using Cons.prems(1) by (auto split: option.split_asm)
  have new: "tbl_get (st_pub_key_to_index s) (gn_primary_public_key n) = None"
      "tbl_get (st_consensus_key_to_index s) (gn_consensus_public_key n) = None"
    using Cons.prems(5) by simp_all
  obtain info where info: "ni_public_key info = gn_primary_public_key n"
    "ni_consensus_key info = gn_consensus_public_key n" and kf: "keys_frame (snd (create_node info s)) t"
    by (rule genesis_add_node_keys[OF t(1) new])
  have room: "room_for (Suc (length ns + k)) s" using Cons.prems(2) by simp
  have w: "1 + next_node_index s \<noteq> 0" using room no_wrap unfolding room_for_def by blast
  then have n: "next_node_index s \<noteq> -1" by (metis add.right_inverse)
  have "registry_inv s" using room by (simp add: room_for_def)
  note c = create_node_registry[OF this n, of info, unfolded info, OF new]
  have "room_for (length ns + k) (snd (create_node info s))"
    using c room unatSuc[OF w] by (simp add: room_for_def add.commute)
  then have "room_for (length ns + k) t" by (rule room_for_frame[OF kf])
  moreover have idx: "st_pub_key_to_index t = tbl_set (st_pub_key_to_index s) (gn_primary_public_key n)
      (next_node_index s)"
    "st_consensus_key_to_index t = tbl_set (st_consensus_key_to_index s) (gn_consensus_public_key n)
      (next_node_index s)"
    using kf new info
    by (simp_all add: node_frame_def create_node_def Let_def set_defs next_node_index_def)
  have "tbl_get (st_pub_key_to_index t) (gn_primary_public_key k) = None \<and>
      tbl_get (st_consensus_key_to_index t) (gn_consensus_public_key k) = None" if "k \<in> set ns" for k
  proof -
    have "gn_primary_public_key n \<noteq> gn_primary_public_key k"
      "gn_consensus_public_key n \<noteq> gn_consensus_public_key k"
      using that Cons.prems(3,4) by (auto simp: image_iff)
    then show ?thesis unfolding idx using that Cons.prems(5) by simp
  qed
  ultimately show ?case using Cons.prems(3,4) by (intro Cons.IH[OF t(2)]) simp_all
qed simp

lemma genesis_registry:
  assumes "apply_genesis_block g empty_state = Some (True, s)"
    and "distinct (map gn_primary_public_key (ge_node_info g))"
      "distinct (map gn_consensus_public_key (ge_node_info g))"
    and few: "length (ge_node_info g) + k < 2 ^ 32"
  shows "room_for k s"
proof (rule apply_genesis_block_cases[OF assms(1)])
  fix v s1 s3
  let ?h = "genesis_header g empty_state"
  assume s1: "genesis_add_nodes g ?h = Some (v, s1)"
    and s3: "genesis_tables g (set_committee_info 0 (genesis_committee g v)
       (set_metadata Metadata.GenesisCommittee (Value.GenesisCommittee (gv_members v)) s1)) = Some s3"
    and s: "s = set_metadata Metadata.EpochEra (Value.EpochEra 0)
      (set_metadata Metadata.Epoch (Value.Epoch 0) s3)"
  have h: "st_node_info ?h = []" "st_pub_key_to_index ?h = []" "st_consensus_key_to_index ?h = []"
      "next_node_index ?h = 0"
    by (simp_all add: genesis_header_def genesis_metadata_def genesis_params_def empty_state_def
        set_param_def set_defs next_node_index_def)
  have room: "room_for (length (ge_node_info g) + k) ?h"
    using few by (simp add: room_for_def registry_inv_def registry_ok_def h)
  have "room_for k s1"
    by (rule genesis_nodes_registry[OF s1[unfolded genesis_add_nodes_def] room assms(2,3)]) (simp add: h)
  moreover have "(st_node_info s3, st_pub_key_to_index s3, st_consensus_key_to_index s3, st_metadata s3) =
      (st_node_info s1, st_pub_key_to_index s1, st_consensus_key_to_index s1,
       tbl_set (st_metadata s1) Metadata.GenesisCommittee (Value.GenesisCommittee (gv_members v)))"
    by (subst genesis_tables_keep[OF s3, of "\<lambda>s. (st_node_info s, st_pub_key_to_index s,
        st_consensus_key_to_index s, st_metadata s)"])
      (simp_all add: genesis_add_defs set_defs)
  then have "keys_frame s1 s"
    by (simp add: s node_frame_def set_defs next_node_index_def get_block_number_def)
  ultimately show ?thesis by (rule room_for_frame[rotated])
qed

lemma genesis_once:
  assumes "apply_genesis_block g s = Some (done, s')"
  shows "apply_genesis_block g' s' = Some (False, s')"
  using assms
  by (auto simp: apply_genesis_block_def Let_def bind_eq_Some_conv set_metadata_def split: if_split_asm)

section \<open>The protocol parameters at genesis\<close>

text \<open>The parameter that a value belongs to.\<close>

primrec kind_of :: "ProtocolParamValue \<Rightarrow> ProtocolParamKey" where
  "kind_of (ProtocolParamValue.EpochTime _) = ProtocolParamKey.EpochTime"
| "kind_of (ProtocolParamValue.CommitteeSize _) = ProtocolParamKey.CommitteeSize"
| "kind_of (ProtocolParamValue.NodeCount _) = ProtocolParamKey.NodeCount"
| "kind_of (ProtocolParamValue.MinimumNodeStake _) = ProtocolParamKey.MinimumNodeStake"
| "kind_of (ProtocolParamValue.EligibilityTime _) = ProtocolParamKey.EligibilityTime"
| "kind_of (ProtocolParamValue.LockTime _) = ProtocolParamKey.LockTime"
| "kind_of (ProtocolParamValue.ProtocolShare _) = ProtocolParamKey.ProtocolShare"
| "kind_of (ProtocolParamValue.NodeShare _) = ProtocolParamKey.NodeShare"
| "kind_of (ProtocolParamValue.ServiceBuilderShare _) = ProtocolParamKey.ServiceBuilderShare"
| "kind_of (ProtocolParamValue.MaxInflation _) = ProtocolParamKey.MaxInflation"
| "kind_of (ProtocolParamValue.MaxBoost _) = ProtocolParamKey.MaxBoost"
| "kind_of (ProtocolParamValue.MaxStakeLockTime _) = ProtocolParamKey.MaxStakeLockTime"
| "kind_of (ProtocolParamValue.MinNumMeasurements _) = ProtocolParamKey.MinNumMeasurements"
| "kind_of (ProtocolParamValue.SGXSharedPubKey _) = ProtocolParamKey.SGXSharedPubKey"
| "kind_of (ProtocolParamValue.EpochsPerYear _) = ProtocolParamKey.EpochsPerYear"
| "kind_of (ProtocolParamValue.ReputationPingTimeout _) = ProtocolParamKey.ReputationPingTimeout"
| "kind_of (ProtocolParamValue.TopologyTargetK _) = ProtocolParamKey.TopologyTargetK"
| "kind_of (ProtocolParamValue.TopologyMinNodes _) = ProtocolParamKey.TopologyMinNodes"
| "kind_of (ProtocolParamValue.CommitteeSelectionBeaconCommitPhaseDuration _) = ProtocolParamKey.CommitteeSelectionBeaconCommitPhaseDuration"
| "kind_of (ProtocolParamValue.CommitteeSelectionBeaconRevealPhaseDuration _) = ProtocolParamKey.CommitteeSelectionBeaconRevealPhaseDuration"
| "kind_of (ProtocolParamValue.CommitteeSelectionBeaconNonRevealSlashAmount _) = ProtocolParamKey.CommitteeSelectionBeaconNonRevealSlashAmount"
| "kind_of (ProtocolParamValue.TotalTimeIntervals _) = ProtocolParamKey.TotalTimeIntervals"

lemma genesis_add_node_params:
  "genesis_add_node m n (v, s) = Some (v', s') \<Longrightarrow> st_parameters s' = st_parameters s"
  by (auto simp: genesis_add_node_def Let_def set_defs split: option.split_asm if_split_asm)

lemma fold_metadata_params: "st_parameters (fold (\<lambda>(k, v). set_metadata k v) kvs s) = st_parameters s"
  by (rule fold_field) (simp add: set_metadata_def split_beta)

lemma genesis_header_params: "st_parameters (genesis_header g empty_state) = genesis_params g"
  unfolding genesis_header_def genesis_params_def
  by (simp add: set_param_def set_account_info_def fold_metadata_params empty_state_def tbl_set_def)

lemma genesis_parameters:
  assumes "apply_genesis_block g empty_state = Some (True, s)"
  shows "st_parameters s = genesis_params g"
proof (rule apply_genesis_block_cases[OF assms])
  fix v s1 s3
  assume s1: "genesis_add_nodes g (genesis_header g empty_state) = Some (v, s1)"
    and s3: "genesis_tables g (set_committee_info 0 (genesis_committee g v)
       (set_metadata Metadata.GenesisCommittee (Value.GenesisCommittee (gv_members v)) s1)) = Some s3"
    and s: "s = set_metadata Metadata.EpochEra (Value.EpochEra 0)
      (set_metadata Metadata.Epoch (Value.Epoch 0) s3)"
  have "st_parameters (snd (v, s1)) = genesis_params g"
    using s1 unfolding genesis_add_nodes_def
    by (rule for_each_invariant[where P = "\<lambda>p. st_parameters (snd p) = genesis_params g"])
      (auto simp: genesis_header_params dest: genesis_add_node_params)
  moreover have "st_parameters s3 = st_parameters s1"
    by (subst genesis_tables_keep[OF s3, of st_parameters]) (simp_all add: genesis_add_defs set_defs)
  ultimately show ?thesis by (simp add: s set_metadata_def)
qed

end
