(* ===== verification/Replay.thy ===== *)
theory Replay
  imports Registry
begin

text \<open>
  Nonces and replay. No handler changes a nonce; a transaction that passed verification increments
  the nonce of its sender, so it carries a nonce that the sender has used up from then on, and
  verification rejects it in every later state. Nonces are 64-bit words: the statement holds up to
  the transaction at which the sender's nonce would wrap.
\<close>

definition sender_nonce :: "app_state \<Rightarrow> TransactionSender \<Rightarrow> Nonce option" where
  "sender_nonce s sender = (case sender of
     NodeMain pk \<Rightarrow> Option.bind (tbl_get (st_pub_key_to_index s) pk) (\<lambda>i. map_option ni_nonce (node s i))
   | NodeConsensus pk \<Rightarrow>
       Option.bind (tbl_get (st_consensus_key_to_index s) pk) (\<lambda>i. map_option ni_nonce (node s i))
   | AccountOwner a \<Rightarrow> Some (acc_nonce (account s a)))"

section \<open>Handlers keep nonces\<close>

interpretation nonces: node_projection ni_nonce acc_nonce "\<lambda>_. ()"
  by unfold_locales simp_all

lemma frame_nonce: "node_frame ni_nonce acc_nonce (\<lambda>_. ()) s s' \<Longrightarrow> sender_nonce s' x = sender_nonce s x"
  by (cases x) (simp_all add: sender_nonce_def node_frame_def)

lemma create_node_nonce:
  assumes "registry_inv s" and "sender_nonce s x = Some m"
    and new: "tbl_get (st_pub_key_to_index s) (ni_public_key info) = None"
      "tbl_get (st_consensus_key_to_index s) (ni_consensus_key info) = None"
  shows "sender_nonce (snd (create_node info s)) x = Some m"
proof -
  define s' where "s' = snd (create_node info s)"
  have fresh: "node s (next_node_index s) = None" using assms(1) unfolding registry_inv_def by blast
  have f: "st_pub_key_to_index s' = tbl_set (st_pub_key_to_index s) (ni_public_key info) (next_node_index s)"
    "st_consensus_key_to_index s' =
       tbl_set (st_consensus_key_to_index s) (ni_consensus_key info) (next_node_index s)"
    "st_node_info s' = tbl_set (st_node_info s) (next_node_index s) info"
    "st_account_info s' = st_account_info s"
    using new by (simp_all add: s'_def create_node_def Let_def next_node_index_def set_defs)
  show ?thesis
    unfolding s'_def[symmetric] using assms(2) fresh new
    by (cases x) (auto simp: sender_nonce_def f bind_eq_Some_conv)
qed

lemma stake_nonce:
  assumes x: "stake sender amount pk ck nd wk wd po s = Some (r, s')" and inv: "registry_inv s"
    and m: "sender_nonce s y = Some m"
  shows "sender_nonce s' y = Some m"
proof (cases "tbl_get (st_pub_key_to_index s) pk")
  case (Some i)
  with nonces.stake_more_keeps[OF x Some] m show ?thesis by (simp add: frame_nonce)
next
  case None
  show ?thesis
  proof (cases rule: stake_new_cases[OF x None])
    case 1
    with m show ?thesis by simp
  next
    case created: (2 info s1 a)
    have "sender_nonce (snd (create_node info s)) y = Some m"
      using create_node_nonce[OF inv m] None created(3,4) by simp
    moreover have "node_frame ni_nonce acc_nonce (\<lambda>_. ()) (snd (create_node info s)) s'"
      unfolding created(7)
      by (rule node_frame_account[OF _ record_change_nodes[OF created(6)]])
        (simp add: create_node_def Let_def set_defs)
    ultimately show ?thesis by (simp add: frame_nonce)
  qed
qed

lemma execute_method_nonce:
  assumes "execute_method ext sender m s = Some (r, s')" "registry_inv s" "sender_nonce s x = Some n"
  shows "sender_nonce s' x = Some n"
  using nonces.execute_method_keeps[OF assms(1)] stake_nonce[OF _ assms(2,3)] frame_nonce[of s s' x] assms(3)
  by auto

lemma execute_ethereum_nonce:
  assumes "execute_ethereum_transaction ext t s = Some (r, s')" "registry_inv s" "sender_nonce s x = Some n"
  shows "sender_nonce s' x = Some n"
  using nonces.execute_ethereum_keeps[OF assms(1)] stake_nonce[OF _ assms(2,3)] frame_nonce[of s s' x] assms(3)
  by auto

section \<open>The increment\<close>

lemma increment_nonce_sender:
  assumes "increment_nonce sender s = Some s'"
  shows "\<exists>m. sender_nonce s sender = Some m \<and> sender_nonce s' sender = Some (m + 1)"
  using assms
  by (cases sender) (auto simp: increment_nonce_def Let_def bind_eq_Some_conv sender_nonce_def set_defs)

lemma increment_nonce_other:
  assumes "increment_nonce sender s = Some s'" "sender_nonce s x = Some m"
  shows "sender_nonce s' x = Some m \<or> sender_nonce s' x = Some (m + 1)"
  using assms
  by (cases sender; cases x) (auto simp: increment_nonce_def Let_def bind_eq_Some_conv sender_nonce_def set_defs)

text \<open>The nonce of a sender is at least \<open>n\<close> and can still be incremented \<open>k\<close> times.\<close>

definition nonce_from :: "TransactionSender \<Rightarrow> nat \<Rightarrow> nat \<Rightarrow> app_state \<Rightarrow> bool" where
  "nonce_from x n k s \<longleftrightarrow> room_for k s \<and>
     (\<exists>m. sender_nonce s x = Some m \<and> n \<le> unat m \<and> unat m + k < 2 ^ 64)"

definition nonce_before :: "TransactionSender \<Rightarrow> nat \<Rightarrow> nat \<Rightarrow> app_state \<Rightarrow> bool" where
  "nonce_before x n k s \<longleftrightarrow> room_for k s \<and>
     (\<exists>m. sender_nonce s x = Some m \<and> n \<le> unat m \<and> unat m + Suc k < 2 ^ 64)"

lemma unat_nonce_Suc: "unat (m :: Nonce) + Suc k < 2 ^ 64 \<Longrightarrow> unat (m + 1) = Suc (unat m)"
  using unat_plus_if_size[of m 1] by (simp add: word_size)

interpretation nonce_budget: block_budget ext "nonce_from x n" "nonce_before x n" for ext x n
proof (unfold_locales, goal_cases)
  case (1 k s sender m r s')
  then show ?case
    using execute_method_room execute_method_nonce unfolding nonce_from_def nonce_before_def room_for_def
    by metis
next
  case (2 k s t r s')
  then show ?case
    using execute_ethereum_room execute_ethereum_nonce unfolding nonce_from_def nonce_before_def room_for_def
    by metis
next
  case (3 k s d)
  have "node_frame keys_of (\<lambda>_. ()) (\<lambda>_. ()) s (s\<lparr>st_executed_digests := d\<rparr>)"
    "node_frame ni_nonce acc_nonce (\<lambda>_. ()) s (s\<lparr>st_executed_digests := d\<rparr>)" by simp_all
  with 3 show ?case unfolding nonce_before_def using room_for_frame frame_nonce by metis
next
  case (4 k s sender s')
  then obtain m where m: "sender_nonce s x = Some m" "n \<le> unat m" "unat m + Suc k < 2 ^ 64" "room_for k s"
    by (auto simp: nonce_before_def)
  have "room_for k s'" by (rule room_for_frame[OF increment_nonce_keys[OF 4(2)] m(4)])
  then show ?case
    using increment_nonce_other[OF 4(2) m(1)] m unat_nonce_Suc[OF m(3)] by (auto simp: nonce_from_def)
next
  case (5 k s)
  then show ?case by (auto simp: nonce_from_def room_for_def)
next
  case (6 k s y v)
  have "room_for k (set_metadata y v s)" using 6 registry_room.metadata_keeps by (simp add: nonce_from_def)
  moreover have "sender_nonce (set_metadata y v s) x = sender_nonce s x"
    by (simp add: sender_nonce_def set_metadata_def split: TransactionSender.split)
  ultimately show ?case using 6(1) by (simp add: nonce_from_def)
qed

section \<open>Replay\<close>

lemma verified_cases:
  assumes "verify_transaction ext s txn = Some (Inr (), txn')"
  obtains r where "txn = UpdateReq r" "txn' = txn" "verify_fleek_transaction ext s r = Some (Inr ())"
  | t t' where "txn = EthereumReq t" "txn' = EthereumReq t'"
      "verify_ethereum_transaction ext s t = Some (Inr (), t')"
proof -
  obtain c where c: "verify_chain_id s txn = Some c"
    using assms by (auto simp: verify_transaction_def bind_eq_Some_conv)
  then obtain u where u: "c = Inr u" using assms by (cases c) (auto simp: verify_transaction_def)
  show thesis
  proof (cases txn)
    case (UpdateReq r)
    with c u assms show thesis by (intro that(1)[of r]) (auto simp: verify_transaction_def)
  next
    case (EthereumReq t)
    with c u assms obtain t' where "txn' = EthereumReq t'"
        "verify_ethereum_transaction ext s t = Some (Inr (), t')"
      by (auto simp: verify_transaction_def)
    then show thesis by (rule that(2)[OF EthereumReq])
  qed
qed

lemma verified_fleek_nonce:
  assumes "verify_fleek_transaction ext s r = Some (Inr ())"
  shows "check_nonce s (ur_payload r) = Inr ()"
proof -
  obtain d where "to_digest ext (ur_payload r) = Some d"
    using assms by (auto simp: verify_fleek_transaction_def bind_eq_Some_conv)
  then show ?thesis
    using assms by (cases "check_nonce s (ur_payload r)")
      (auto simp: verify_fleek_transaction_def split: if_split_asm)
qed

lemma verified_ethereum_nonce:
  assumes "verify_ethereum_transaction ext s t = Some (Inr (), t')"
  obtains sender where "ext_recover_from ext t = Some sender" "t' = t\<lparr>et_from := sender\<rparr>"
    "u256_as (et_nonce t) = Some (acc_nonce (account s sender) + 1)"
proof -
  obtain sender where sender: "ext_recover_from ext t = Some sender"
    using assms by (cases "ext_recover_from ext t") (auto simp: verify_ethereum_transaction_def)
  then obtain n :: Nonce where n: "u256_as (et_nonce t) = Some n"
    using assms by (auto simp: verify_ethereum_transaction_def Let_def bind_eq_Some_conv)
  show thesis
    by (rule that[OF sender])
      (use assms sender n in \<open>auto simp: verify_ethereum_transaction_def Let_def split: if_split_asm\<close>)
qed

lemma verified_nonce:
  assumes v: "verify_transaction ext s txn = Some (Inr (), txn')" and ok: "registry_ok s"
  obtains m where "txn_nonce txn = Some (m + 1)" "sender_nonce s (txn_sender txn') = Some m"
proof (cases rule: verified_cases[OF v])
  case (1 r)
  have idx: "\<exists>n. node s i = Some n" if "tbl_get (st_consensus_key_to_index s) pk = Some i" for i pk
    using that ok unfolding registry_ok_def by blast
  show thesis
    using 1 verified_fleek_nonce[OF 1(3)]
    by (intro that[of "up_nonce (ur_payload r) - 1"])
      (auto simp: txn_nonce_def check_nonce_def sender_nonce_def dest: idx
        split: TransactionSender.split_asm option.split_asm if_split_asm)
next
  case (2 t t')
  obtain sender where t: "ext_recover_from ext t = Some sender" "t' = t\<lparr>et_from := sender\<rparr>"
    "u256_as (et_nonce t) = Some (acc_nonce (account s sender) + 1)"
    by (rule verified_ethereum_nonce[OF 2(3)])
  show thesis
    by (rule that[of "acc_nonce (account s sender)"])
      (use t 2 in \<open>simp_all add: txn_nonce_def sender_nonce_def\<close>)
qed

lemma verified_sender:
  assumes v: "verify_transaction ext s txn = Some (Inr (), txn')"
    and v': "verify_transaction ext t txn = Some (Inr (), txn'')"
  shows "txn_sender txn'' = txn_sender txn'"
proof (cases rule: verified_cases[OF v])
  case (1 r)
  then show ?thesis by (cases rule: verified_cases[OF v']) auto
next
  case first: (2 t t')
  then show ?thesis
  proof (cases rule: verified_cases[OF v'])
    case (2 u u')
    with first show ?thesis
      by (auto elim!: verified_ethereum_nonce)
  qed auto
qed

lemma execute_transaction_nonce:
  assumes "execute_transaction ext txn s = Some (r, s')" "registry_inv s"
    "sender_nonce s (txn_sender txn) = Some m"
  shows "sender_nonce s' (txn_sender txn) = Some (m + 1)"
proof (rule execute_transaction_cases[OF assms(1)])
  fix h s1
  assume x: "(case txn of UpdateReq u \<Rightarrow>
        execute_method ext (up_sender (ur_payload u)) (up_method (ur_payload u)) s
      | EthereumReq t \<Rightarrow> execute_ethereum_transaction ext t s) = Some (r, s1)"
    and n: "increment_nonce (txn_sender txn)
       (s1\<lparr>st_executed_digests := tbl_set (st_executed_digests s1) h ()\<rparr>) = Some s'"
  have "sender_nonce s1 (txn_sender txn) = Some m"
    using x assms(3)
    by (cases txn) (auto intro: execute_method_nonce[OF _ assms(2)] execute_ethereum_nonce[OF _ assms(2)])
  then have "sender_nonce (s1\<lparr>st_executed_digests := tbl_set (st_executed_digests s1) h ()\<rparr>)
      (txn_sender txn) = Some m"
    by (subst frame_nonce[of s1]) simp_all
  with increment_nonce_sender[OF n] show ?thesis by simp
qed

lemma no_replay:
  assumes inv: "registry_inv s" and room: "unat (next_node_index s) + k + 2 < 2 ^ 32"
    and v: "verify_transaction ext s txn = Some (Inr (), txn')"
    and x: "execute_transaction ext txn' s = Some (r, s')"
    and n: "txn_nonce txn = Some n" "unat n + k + 1 < 2 ^ 64"
    and reach: "reachable ext s' k s''"
  shows "verify_transaction ext s'' txn \<noteq> Some (Inr (), txn'')"
proof
  assume v'': "verify_transaction ext s'' txn = Some (Inr (), txn'')"
  let ?x = "txn_sender txn'"
  have ok: "registry_ok s" using inv by (simp add: registry_inv_def)
  obtain m where m: "txn_nonce txn = Some (m + 1)" "sender_nonce s ?x = Some m"
    by (rule verified_nonce[OF v ok])
  have "room_for (Suc (Suc k)) s" using inv room by (simp add: room_for_def)
  then have "room_for (Suc k) s'" by (rule registry_room.execute_transaction_uses[OF x])
  then have "nonce_from ?x (unat n) (1 + k) s'"
    using execute_transaction_nonce[OF x inv m(2)] m(1) n by (simp add: nonce_from_def)
  then have "nonce_from ?x (unat n) 1 s''" by (rule nonce_budget.reachable_uses[OF reach])
  then obtain m'' where m'': "sender_nonce s'' ?x = Some m''" "unat n \<le> unat m''"
      "unat m'' + Suc 0 < 2 ^ 64" "registry_ok s''"
    by (auto simp: nonce_from_def room_for_def registry_inv_def)
  obtain l where l: "txn_nonce txn = Some (l + 1)" "sender_nonce s'' (txn_sender txn'') = Some l"
    by (rule verified_nonce[OF v'' m''(4)])
  have "n = m'' + 1" using l verified_sender[OF v v''] m''(1) n(1) by simp
  with m''(2) unat_nonce_Suc[OF m''(3)] show False by simp
qed

end
