(* ===== verification/Epochs.thy ===== *)
theory Epochs
  imports Beacon_Safety
begin

text \<open>
  When the epoch advances: only by the timeout of the reveal phase, once a quorum of the committee has
  signalled it and every node that committed has revealed.
\<close>

lemma beacon_view_epoch: "beacon_view s' = beacon_view s \<Longrightarrow> get_epoch s' = get_epoch s"
  by (simp add: beacon_view_def)

lemma frame_epoch: "frame s s' \<Longrightarrow> get_epoch s' = get_epoch s"
  unfolding frame_def by (blast intro: beacon_view_epoch)

lemma finish_commit_phase_epoch [simp]: "get_epoch (finish_commit_phase round s) = get_epoch s"
  by (simp add: finish_commit_phase_def Let_def)

lemma change_epoch_epoch:
  "change_epoch sender epoch s = Some (r, s') \<Longrightarrow> get_epoch s' = get_epoch s"
  by (drule change_epoch_cases) (auto simp: Let_def)

lemma commit_epoch:
  "committee_selection_beacon_commit sender commit s = Some (r, s') \<Longrightarrow> get_epoch s' = get_epoch s"
  by (drule commit_cases) auto

lemma reveal_epoch:
  "committee_selection_beacon_reveal ext sender reveal s = Some (r, s') \<Longrightarrow> get_epoch s' = get_epoch s"
  by (drule reveal_cases) auto

lemma commit_timeout_epoch:
  "committee_selection_beacon_commit_phase_timeout sender epoch round s = Some (r, s') \<Longrightarrow>
     get_epoch s' = get_epoch s"
  by (drule commit_timeout_cases) (auto simp: Let_def)

lemma other_methods_epoch:
  assumes x: "execute_method ext sender m s = Some (r, s')"
    and other: "\<And>e k. m \<noteq> CommitteeSelectionBeaconRevealPhaseTimeout e k"
  shows "get_epoch s' = get_epoch s"
proof -
  have jobs: "remove_jobs js s = (r, s') \<Longrightarrow> beacon_view s' = beacon_view s"
    "update_jobs us s = (r, s') \<Longrightarrow> beacon_view s' = beacon_view s" for js us
    using jobs_view(3)[of js s] jobs_view(4)[of us s] by auto
  show ?thesis
  proof (cases m)
    case UpdateContentRegistry
    with x show ?thesis
      by (auto simp: execute_method_def intro: beacon_view_epoch update_content_registry_view)
  next
    case ChangeEpoch
    with x show ?thesis by (auto simp: execute_method_def intro: change_epoch_epoch)
  next
    case CommitteeSelectionBeaconCommit
    with x show ?thesis by (auto simp: execute_method_def intro: commit_epoch)
  next
    case CommitteeSelectionBeaconReveal
    with x show ?thesis by (auto simp: execute_method_def intro: reveal_epoch)
  next
    case CommitteeSelectionBeaconCommitPhaseTimeout
    with x show ?thesis by (auto simp: execute_method_def intro: commit_timeout_epoch)
  next
    case AddJobs
    with x show ?thesis by (auto simp: execute_method_def intro: beacon_view_epoch jobs_view)
  next
    case RemoveJobs
    with x show ?thesis by (auto simp: execute_method_def intro: beacon_view_epoch jobs)
  next
    case JobUpdates
    with x show ?thesis by (auto simp: execute_method_def intro: beacon_view_epoch jobs)
  qed (use x other in \<open>auto simp: execute_method_def intro!: frame_epoch dest: frame_handlers\<close>)
qed

lemma reveal_timeout_advances:
  assumes "committee_selection_beacon_reveal_phase_timeout ext sender e k s = Some (r, s')"
    and "get_epoch s' \<noteq> get_epoch s"
  shows "beacon_phase s = Some (Reveal (e, k)) \<and>
    Suc (length (com_signalled_reveal_phase_timeout (current_committee s))) =
      quorum (com_members (current_committee s)) \<and>
    list_all (\<lambda>(_, _, reveal). reveal \<noteq> None) (st_committee_selection_beacon s) \<and>
    r = Success EpochChange \<and> get_epoch s' = get_epoch s + 1 \<and> beacon_phase s' = None \<and>
    (\<forall>i. tbl_get (st_committee_selection_beacon s') i = None)"
proof -
  obtain i where i: "beacon_phase s = Some (Reveal (e, k)) \<and>
      (let c' = (current_committee s)\<lparr>com_signalled_reveal_phase_timeout :=
             com_signalled_reveal_phase_timeout (current_committee s) @ [i]\<rparr>;
           s1 = set_committee_info (get_epoch s) c' s
       in if length (com_signalled_reveal_phase_timeout c') = quorum (com_members c')
          then if list_all (\<lambda>(_, _, reveal). reveal \<noteq> None) (st_committee_selection_beacon s)
               then finish_reveal_phase ext s1 = Some (r, s')
               else restart_commit_phase k s1 = Some (r, s')
          else r = Success EDNone \<and> s' = s1)"
    using reveal_timeout_cases[OF assms(1)] assms(2) by blast
  define s1 where "s1 = set_committee_info (get_epoch s) ((current_committee s)
      \<lparr>com_signalled_reveal_phase_timeout :=
        com_signalled_reveal_phase_timeout (current_committee s) @ [i]\<rparr>) s"
  have e1: "get_epoch s1 = get_epoch s" by (simp add: s1_def)
  note ph = i[THEN conjunct1]
  have out: "if Suc (length (com_signalled_reveal_phase_timeout (current_committee s))) =
        quorum (com_members (current_committee s))
      then if list_all (\<lambda>(_, _, reveal). reveal \<noteq> None) (st_committee_selection_beacon s)
           then finish_reveal_phase ext s1 = Some (r, s') else restart_commit_phase k s1 = Some (r, s')
      else s' = s1"
    using i[THEN conjunct2] unfolding Let_def s1_def[symmetric] by (simp split: if_splits)
  from out consider
      "Suc (length (com_signalled_reveal_phase_timeout (current_committee s))) =
        quorum (com_members (current_committee s))"
      "list_all (\<lambda>(_, _, reveal). reveal \<noteq> None) (st_committee_selection_beacon s)"
      "finish_reveal_phase ext s1 = Some (r, s')"
    | "restart_commit_phase k s1 = Some (r, s')" | "s' = s1"
    by (auto split: if_splits)
  then show ?thesis
  proof cases
    case 1
    then show ?thesis using ph finish_reveal_phase_result[OF 1(3)] e1 by simp
  next
    case 2
    then show ?thesis using restart_commit_phase_result(2)[OF 2] e1 assms(2) by simp
  next
    case 3
    then show ?thesis using e1 assms(2) by simp
  qed
qed

lemma epoch_advances:
  assumes x: "execute_method ext sender m s = Some (r, s')" and ne: "get_epoch s' \<noteq> get_epoch s"
  shows "\<exists>e k. m = CommitteeSelectionBeaconRevealPhaseTimeout e k \<and>
    beacon_phase s = Some (Reveal (e, k)) \<and>
    Suc (length (com_signalled_reveal_phase_timeout (current_committee s))) =
      quorum (com_members (current_committee s)) \<and>
    list_all (\<lambda>(_, _, reveal). reveal \<noteq> None) (st_committee_selection_beacon s) \<and>
    r = Success EpochChange \<and> get_epoch s' = get_epoch s + 1 \<and> beacon_phase s' = None \<and>
    (\<forall>i. tbl_get (st_committee_selection_beacon s') i = None)"
proof -
  obtain e k where m: "m = CommitteeSelectionBeaconRevealPhaseTimeout e k"
    using other_methods_epoch[OF x] ne by blast
  then have "committee_selection_beacon_reveal_phase_timeout ext sender e k s = Some (r, s')"
    using x by (simp add: execute_method_def)
  from reveal_timeout_advances[OF this ne] m show ?thesis by blast
qed

end
