(* ===== verification/Conservation.thy ===== *)
theory Conservation
  imports Registry Epochs
begin

text \<open>
  FLK is conserved by the account and staking operations: a transfer, a stake, a lock, an unstake
  and the withdrawal of unstaked tokens move FLK between accounts and nodes and neither create nor
  destroy any. The bridge operations and the payment of rewards do; \<open>Rewards\<close> relates the latter to
  the recorded supply.
\<close>

lemma flk_total_other [simp]:
  "flk_total (set_committee_info e c s) = flk_total s"
  "balance_tables_wf (set_committee_info e c s) = balance_tables_wf s"
  "flk_total (s\<lparr>st_pub_key_to_index := x\<rparr>) = flk_total s"
  "flk_total (s\<lparr>st_consensus_key_to_index := y\<rparr>) = flk_total s"
  "balance_tables_wf (s\<lparr>st_pub_key_to_index := x\<rparr>) = balance_tables_wf s"
  "balance_tables_wf (s\<lparr>st_consensus_key_to_index := y\<rparr>) = balance_tables_wf s"
  by (simp_all add: flk_total_def balance_tables_wf_def set_committee_info_def)

lemma record_change_flk:
  assumes "record_node_registry_change pk change s = Some s'"
  shows "flk_total s' = flk_total s" "balance_tables_wf s' = balance_tables_wf s"
    "st_account_info s' = st_account_info s"
  using assms
  by (auto simp: record_node_registry_change_def bind_eq_Some_conv Let_def set_committee_info_def
      flk_total_def balance_tables_wf_def)

lemma account_set: "account (set_account_info a x s) b = (if b = a then x else account s b)"
  by (simp add: set_account_info_def)

lemma transfer_conserves:
  assumes "transfer sender amount token to s = (r, s')" "balance_tables_wf s"
  shows "flk_total s' = flk_total s"
proof (cases "s' = s")
  case False
  then obtain a where a: "account s a \<noteq> account s to"
      and s': "s' = set_account_info a ((account s a)\<lparr>acc_flk_balance := acc_flk_balance (account s a) - amount\<rparr>)
        (set_account_info to ((account s to)\<lparr>acc_flk_balance := acc_flk_balance (account s to) + amount\<rparr>) s)"
    using assms(1) by (auto simp: transfer_def Let_def split: sum.split_asm if_split_asm)
  have "a \<noteq> to" using a by auto
  with assms(2) show ?thesis by (simp add: s' flk_total_account account_set)
qed simp

lemma create_node_flk:
  assumes "balance_tables_wf s" "node s (next_node_index s) = None"
    and "tbl_get (st_pub_key_to_index s) (ni_public_key info) = None"
      "tbl_get (st_consensus_key_to_index s) (ni_consensus_key info) = None"
  shows "flk_total (snd (create_node info s)) =
      flk_total s + (stk_staked (ni_stake info) + stk_locked (ni_stake info))"
    "balance_tables_wf (snd (create_node info s))"
    "st_account_info (snd (create_node info s)) = st_account_info s"
  using assms
  by (simp_all add: create_node_def Let_def flk_total_def balance_tables_wf_def set_defs tbl_total_set
      next_node_index_def add.assoc)

lemma stake_conserves:
  assumes x: "stake sender amount pk ck nd wk wd po s = Some (r, s')" and wf: "balance_tables_wf s"
    and inv: "registry_inv s"
  shows "flk_total s' = flk_total s"
proof (cases "tbl_get (st_pub_key_to_index s) pk")
  case (Some i)
  show ?thesis
  proof (cases "s' = s")
    case False
    then obtain n where n: "node s i = Some n"
      using x Some by (cases "node s i") (auto simp: stake_def Let_def split: sum.split_asm if_split_asm)
    define n4 where "n4 = (let n1 = (case nd of Some d \<Rightarrow> n\<lparr>ni_domain := d\<rparr> | None \<Rightarrow> n);
        n2 = (case wk of Some k \<Rightarrow> n1\<lparr>ni_worker_public_key := k\<rparr> | None \<Rightarrow> n1);
        n3 = (case wd of Some d \<Rightarrow> n2\<lparr>ni_worker_domain := d\<rparr> | None \<Rightarrow> n2)
      in case po of Some p \<Rightarrow> n3\<lparr>ni_ports := p\<rparr> | None \<Rightarrow> n3)"
    have st: "ni_stake n4 = ni_stake n" by (simp add: n4_def Let_def split: option.split)
    define n' where "n' = n4\<lparr>ni_stake := (ni_stake n4)\<lparr>stk_staked := stk_staked (ni_stake n4) + amount\<rparr>\<rparr>"
    obtain a where s': "s' = set_account_info a ((account s a)\<lparr>acc_flk_balance :=
        acc_flk_balance (account s a) - amount\<rparr>) (set_node_info i n' s)"
      using x Some n False
      by (auto simp: stake_def Let_def n4_def n'_def split: sum.split_asm if_split_asm)
    have "account (set_node_info i n' s) a = account s a" by (simp add: set_node_info_def)
    then show ?thesis
      unfolding s' using wf flk_total_node[OF wf n, of n'] by (simp add: flk_total_account n'_def st)
  qed simp
next
  case None
  have fresh: "node s (next_node_index s) = None" using inv unfolding registry_inv_def by blast
  show ?thesis
  proof (cases rule: stake_new_cases[OF x None])
    case created: (2 info s1 a)
    have new: "tbl_get (st_pub_key_to_index s) (ni_public_key info) = None" using None created(3) by simp
    note c = create_node_flk[OF wf fresh new created(4)]
    note rec = record_change_flk[OF created(6)]
    have "balance_tables_wf s1" "account s1 a = account s a" using c rec by simp_all
    then show ?thesis
      unfolding created(7) using c(1) rec(1) by (simp add: flk_total_account created(5) Staking_default_def)
  qed simp
qed

lemma stake_lock_conserves:
  assumes "stake_lock sender pk l s = (r, s')" "balance_tables_wf s"
  shows "flk_total s' = flk_total s"
  using assms
  by (auto simp: stake_lock_def Let_def flk_total_node dest!: get_node_info_Some
      split: sum.split_asm if_split_asm option.split_asm prod.split_asm)

lemma unstake_conserves:
  assumes x: "unstake sender amount pk s = Some (r, s')" and wf: "balance_tables_wf s"
  shows "flk_total s' = flk_total s"
proof (cases "s' = s")
  case False
  obtain a where a: "only_account_owner sender = Inr a"
    using x False by (cases "only_account_owner sender") (auto simp: unstake_def)
  obtain i n where gi: "get_node_info s (NodeMain pk) = Some (i, n)"
    using x False a by (cases "get_node_info s (NodeMain pk)") (auto simp: unstake_def)
  note n = get_node_info_Some[OF gi]
  define n' where "n' = n\<lparr>ni_stake := (ni_stake n)\<lparr>
      stk_staked := stk_staked (ni_stake n) - amount, stk_locked := stk_locked (ni_stake n) + amount,
      stk_locked_until := get_epoch s + lock_time_of s\<rparr>\<rparr>"
  have total: "flk_total (set_node_info i n' s) = flk_total s"
    using flk_total_node[OF wf n, of n'] by (simp add: n'_def)
  have "s' = set_node_info i n' s \<or>
      s' = set_node_info i (n'\<lparr>ni_participation := OptedOut\<rparr>) (set_node_info i n' s)"
    using x False a gi
    by (auto simp: unstake_def Let_def n'_def bind_eq_Some_conv split: if_split_asm)
  then show ?thesis
    using total flk_total_node[of "set_node_info i n' s" i n'] wf by auto
qed simp

lemma withdraw_unstaked_conserves:
  assumes x: "withdraw_unstaked sender pk rc s = (r, s')" and wf: "balance_tables_wf s"
  shows "flk_total s' = flk_total s"
proof (cases "s' = s")
  case False
  obtain a where a: "only_account_owner sender = Inr a"
    using x False by (cases "only_account_owner sender") (auto simp: withdraw_unstaked_def)
  obtain i n where gi: "get_node_info s (NodeMain pk) = Some (i, n)"
    using x False a by (cases "get_node_info s (NodeMain pk)") (auto simp: withdraw_unstaked_def)
  note n = get_node_info_Some[OF gi]
  define n' where "n' = n\<lparr>ni_stake := (ni_stake n)\<lparr>stk_locked := 0\<rparr>\<rparr>"
  define s1 where "s1 = set_account_info (unwrap_or rc a) ((account s (unwrap_or rc a))\<lparr>acc_flk_balance :=
      acc_flk_balance (account s (unwrap_or rc a)) + stk_locked (ni_stake n)\<rparr>) s"
  have s': "s' = set_node_info i n' s1"
    using x False a gi
    by (auto simp: withdraw_unstaked_def Let_def n'_def s1_def split: if_split_asm)
  have "node s1 i = Some n" "balance_tables_wf s1" using n wf by (simp_all add: s1_def)
  from flk_total_node[OF this(2,1), of n'] flk_total_account[OF wf] show ?thesis
    unfolding s' s1_def by (simp add: n'_def)
qed simp

section \<open>The other operations\<close>

text \<open>The operations that touch neither an account nor a node.\<close>

definition balances :: "app_state \<Rightarrow> (EthAddress, AccountInfo) table \<times> (NodeIndex, NodeInfo) table" where
  "balances s = (st_account_info s, st_node_info s)"

lemma balances_flk: "balances s' = balances s \<Longrightarrow> flk_total s' = flk_total s"
  by (simp add: balances_def flk_total_def)

lemma balances_other [simp]:
  "balances (set_metadata k v s) = balances s"
  "balances (set_committee_info e c s) = balances s"
  "balances (s\<lparr>st_committee_selection_beacon := b\<rparr>) = balances s"
  "balances (s\<lparr>st_non_revealing_node := n\<rparr>) = balances s"
  "balances (s\<lparr>st_submitted_rep_measurements := m\<rparr>) = balances s"
  by (simp_all add: balances_def set_defs)

lemma finish_commit_phase_balances [simp]: "balances (finish_commit_phase k s) = balances s"
  by (simp add: finish_commit_phase_def Let_def balances_def set_defs
      set_committee_selection_beacon_reveal_phase_def set_committee_selection_beacon_commit_phase_def
      clear_committee_selection_beacons_def clear_committee_selection_beacon_non_revealing_node_def
      clear_committee_selection_beacon_timeouts_def)

lemma pod_balances: "submit_pod sender c i s = Some (r, s') \<Longrightarrow> balances s' = balances s"
  by (auto simp: submit_pod_def bind_eq_Some_conv Let_def)
    (auto simp: Let_def balances_def bind_eq_Some_conv split: sum.split_asm option.split_asm if_split_asm)

lemma clear_balances:
  "clear_withdraws sender w s = Some (r, s') \<Longrightarrow> balances s' = balances s"
  "clear_mints sender b s = Some (r, s') \<Longrightarrow> balances s' = balances s"
  "change_protocol_param sender p v s = Some (r, s') \<Longrightarrow> balances s' = balances s"
  by (auto simp: clear_withdraws_def clear_mints_def change_protocol_param_def balances_def
      bind_eq_Some_conv split: sum.split_asm if_split_asm)

lemma signal_balances:
  "change_epoch sender epoch s = Some (r, s') \<Longrightarrow> balances s' = balances s"
  "committee_selection_beacon_commit sender commit s = Some (r, s') \<Longrightarrow> balances s' = balances s"
  "committee_selection_beacon_reveal ext sender reveal s = Some (r, s') \<Longrightarrow> balances s' = balances s"
  "committee_selection_beacon_commit_phase_timeout sender epoch k s = Some (r, s') \<Longrightarrow>
     balances s' = balances s"
proof -
  show "balances s' = balances s" if "change_epoch sender epoch s = Some (r, s')"
    using change_epoch_cases[OF that]
    by (auto simp: Let_def set_committee_selection_beacon_commit_phase_def)
  show "balances s' = balances s" if "committee_selection_beacon_commit sender commit s = Some (r, s')"
    using commit_cases[OF that] by auto
  show "balances s' = balances s" if "committee_selection_beacon_reveal ext sender reveal s = Some (r, s')"
    using reveal_cases[OF that] by auto
  show "balances s' = balances s"
    if "committee_selection_beacon_commit_phase_timeout sender epoch k s = Some (r, s')"
    using commit_timeout_cases[OF that] by (auto simp: Let_def)
qed

lemma submit_balances:
  assumes "submit_reputation_measurements sender ms s = Some (r, s')"
  shows "balances s' = balances s"
proof -
  have loop: "balances t' = balances t" if "for_each (submit_one i) ms t = Some t'" for i t t'
    using that by (rule for_each_field) (auto simp: submit_one_def balances_def bind_eq_Some_conv split: if_splits)
  obtain g where g: "only_node_with_sufficient_stake_and_participating s sender = Some g"
    using assms by (auto simp: submit_reputation_measurements_def bind_eq_Some_conv)
  show ?thesis
    using assms g by (cases g) (auto simp: submit_reputation_measurements_def Let_def bind_eq_Some_conv
        dest!: loop split: if_splits)
qed

lemma content_balances:
  assumes "update_content_registry sender us s = Some (r, s')"
  shows "balances s' = balances s"
  by (rule update_content_registry_cases[OF assms]) (simp_all add: balances_def commit_staged_def)

lemma job_balances:
  "add_jobs ext js s = Some (r, s') \<Longrightarrow> balances s' = balances s"
  "remove_jobs hs s = (r, s') \<Longrightarrow> balances s' = balances s"
  "update_jobs us s = (r, s') \<Longrightarrow> balances s' = balances s"
proof -
  show "add_jobs ext js s = Some (r, s') \<Longrightarrow> balances s' = balances s"
    by (auto simp: add_jobs_def Let_def balances_def bind_eq_Some_conv)
  have "balances (fold remove_job hs s) = balances s" for hs
    by (rule fold_field) (auto simp: remove_job_def Let_def balances_def split: option.splits)
  then show "remove_jobs hs s = (r, s') \<Longrightarrow> balances s' = balances s" by (auto simp: remove_jobs_def)
  have "balances (fold update_job us s) = balances s" for us
    by (rule fold_field) (auto simp: update_job_def balances_def split: option.splits)
  then show "update_jobs us s = (r, s') \<Longrightarrow> balances s' = balances s" by (auto simp: update_jobs_def)
qed

lemma opt_conserves:
  assumes "opt_in sender s = Some (r, s') \<or> opt_out sender s = Some (r, s')" "balance_tables_wf s"
  shows "flk_total s' = flk_total s"
  using assms
  by (auto simp: opt_in_def opt_out_def bind_eq_Some_conv)
    (auto simp: flk_total_node split: sum.split_asm option.split_asm)

text \<open>FLK enters and leaves the ledger only through the bridge and at the end of the reveal phase.\<close>

definition moves_supply :: "UpdateMethod \<Rightarrow> bool" where
  "moves_supply m = (case m of Withdraw _ _ _ \<Rightarrow> True | Mint _ _ _ _ _ \<Rightarrow> True | Deposit _ _ \<Rightarrow> True
     | CommitteeSelectionBeaconRevealPhaseTimeout _ _ \<Rightarrow> True | _ \<Rightarrow> False)"

lemma method_conserves:
  assumes x: "execute_method ext sender m s = Some (r, s')" and m: "\<not> moves_supply m"
    and wf: "balance_tables_wf s" and inv: "registry_inv s"
  shows "flk_total s' = flk_total s"
proof (cases m)
  case Stake
  with x show ?thesis by (auto simp: execute_method_def intro: stake_conserves[OF _ wf inv])
next
  case Transfer
  with x show ?thesis by (auto simp: execute_method_def intro: transfer_conserves[OF _ wf])
next
  case StakeLock
  with x show ?thesis by (auto simp: execute_method_def intro: stake_lock_conserves[OF _ wf])
next
  case Unstake
  with x show ?thesis by (auto simp: execute_method_def intro: unstake_conserves[OF _ wf])
next
  case WithdrawUnstaked
  with x show ?thesis by (auto simp: execute_method_def intro: withdraw_unstaked_conserves[OF _ wf])
next
  case OptIn
  with x show ?thesis using opt_conserves[OF _ wf] by (auto simp: execute_method_def)
next
  case OptOut
  with x show ?thesis using opt_conserves[OF _ wf] by (auto simp: execute_method_def)
qed (use x m in \<open>auto simp: execute_method_def moves_supply_def intro!: balances_flk
    dest: pod_balances clear_balances signal_balances submit_balances content_balances job_balances\<close>)

end
