(* ===== verification/Blocks.thy ===== *)
theory Blocks
  imports Replay
begin

text \<open>
  What a block does: it numbers itself one after the last block, points at the last block's hash,
  and gives one receipt per transaction, in order. A transaction that fails verification leaves no
  trace in the state but its receipt.
\<close>

section \<open>Transactions keep the block number\<close>

lemma stake_block_number:
  assumes x: "stake sender amount pk ck nd wk wd po s = Some (r, s')"
  shows "get_block_number s' = get_block_number s"
proof (cases "tbl_get (st_pub_key_to_index s) pk")
  case (Some i)
  from keys.stake_more_keeps[OF x Some] show ?thesis by (simp add: node_frame_def)
next
  case None
  show ?thesis
  proof (cases rule: stake_new_cases[OF x None])
    case created: (2 info s1 a)
    have "node_frame keys_of (\<lambda>_. ()) (\<lambda>_. ()) (snd (create_node info s)) s'"
      unfolding created(7) by (rule node_frame_account[OF _ record_change_nodes[OF created(6)]]) simp
    then show ?thesis
      by (simp add: node_frame_def) (simp add: create_node_def Let_def set_defs get_block_number_def)
  qed simp
qed

interpretation block_number: transaction_invariant ext "\<lambda>s. get_block_number s = n" for ext n
proof (unfold_locales, goal_cases)
  case (1 s sender m r s')
  then show ?case
    using keys.execute_method_keeps[OF 1(2)] stake_block_number by (auto simp: node_frame_def)
next
  case (2 s t r s')
  then show ?case
    using keys.execute_ethereum_keeps[OF 2(2)] stake_block_number by (auto simp: node_frame_def)
next
  case (3 s d)
  then show ?case by (simp add: get_block_number_def)
next
  case (4 s sender s')
  then show ?case using increment_nonce_keys[OF 4(2)] by (simp add: node_frame_def)
qed

section \<open>Receipts\<close>

lemma run_transaction_receipt:
  assumes "run_transaction ext d n i txn s = Some (rc, s')"
  shows "tr_block_hash rc = d" "tr_block_number rc = n" "tr_transaction_index rc = of_nat i"
  using assms by (auto simp: run_transaction_def bind_eq_Some_conv split: prod.splits)

lemma run_transactions_receipts:
  assumes "run_transactions ext d n i txns s = Some (rcs, s')"
  shows "length rcs = length txns \<and> (\<forall>j < length rcs. tr_block_hash (rcs ! j) = d \<and>
    tr_block_number (rcs ! j) = n \<and> tr_transaction_index (rcs ! j) = of_nat (i + j))"
  using assms
proof (induction txns arbitrary: i s rcs)
  case (Cons t ts)
  then obtain rc s1 rs where s1: "run_transaction ext d n i t s = Some (rc, s1)"
      "run_transactions ext d n (i + 1) ts s1 = Some (rs, s')" and rcs: "rcs = rc # rs"
    by (auto simp: bind_eq_Some_conv split: prod.splits)
  show ?case
  proof (intro conjI allI impI)
    show "length rcs = length (t # ts)" using Cons.IH[OF s1(2)] rcs by simp
  next
    fix j assume j: "j < length rcs"
    then show "tr_block_hash (rcs ! j) = d" "tr_block_number (rcs ! j) = n"
      "tr_transaction_index (rcs ! j) = of_nat (i + j)"
      using Cons.IH[OF s1(2)] run_transaction_receipt[OF s1(1)]
      by (cases j; simp add: rcs)+
  qed
qed simp

lemma run_block_result:
  assumes "run_block ext b s = Some (resp, s')"
  obtains n where "get_block_number s = Some n" "get_block_number s' = Some (n + 1)"
    "br_block_number resp = n + 1" "br_block_hash resp = bl_digest b" "get_block_hash s' = bl_digest b"
    "br_parent_hash resp = get_block_hash s" "length (br_txn_receipts resp) = length (bl_transactions b)"
    "\<forall>j < length (br_txn_receipts resp). tr_block_number (br_txn_receipts resp ! j) = n + 1 \<and>
      tr_block_hash (br_txn_receipts resp ! j) = bl_digest b \<and>
      tr_transaction_index (br_txn_receipts resp ! j) = of_nat j"
proof -
  obtain n rcs s1 s2 i rd where n: "get_block_number s = Some n"
      and s1: "run_transactions ext (bl_digest b) (n + 1) 0 (bl_transactions b) s = Some (rcs, s1)"
      and s2: "s2 = s1 \<or> (\<exists>e. s2 = set_epoch_era e s1)"
      and s': "set_last_block (bl_digest b) i rd s2 = Some s'"
      and resp: "br_block_number resp = n + 1" "br_block_hash resp = bl_digest b"
        "br_parent_hash resp = get_block_hash s" "br_txn_receipts resp = rcs"
    using assms
    by (auto simp: run_block_def Let_def bind_eq_Some_conv split: prod.splits if_splits) blast+
  have "get_block_number s1 = Some n" by (rule block_number.budget.run_transactions_uses[OF s1 n])
  then have "get_block_number s2 = Some n"
    using s2 by (auto simp: set_epoch_era_def get_block_number_def set_metadata_def)
  then have "get_block_number s' = Some (n + 1)" "get_block_hash s' = bl_digest b"
    using s' by (auto simp: set_last_block_def Let_def bind_eq_Some_conv get_block_number_def
        get_block_hash_def set_metadata_def)
  then show thesis
    using run_transactions_receipts[OF s1] n resp by (intro that[of n]) auto
qed

end
