(* ===== verification/Block_Codec.thy ===== *)
theory Block_Codec
  imports Execution
begin

text \<open>
  The wire format of transactions and blocks (\<^verbatim>\<open>core/types/src/transaction.rs\<close>) and the check of
  transactions before consensus (\<^verbatim>\<open>core/consensus/src/validator.rs\<close>). The serializers \<^verbatim>\<open>bincode\<close> and
  \<^verbatim>\<open>rlp\<close> are parameters, the record \<open>codecs\<close>. A decoder returns an option of a sum: \<open>None\<close> is a panic,
  \<open>Inl\<close> an error.
\<close>

section \<open>Transactions\<close>

record codecs =
  cdc_bincode :: "UpdateRequest \<Rightarrow> bytes"
  cdc_unbincode :: "bytes \<Rightarrow> UpdateRequest option"
  cdc_rlp :: "EthersTransaction \<Rightarrow> bytes"
  cdc_unrlp :: "bytes \<Rightarrow> EthersTransaction option"

datatype decode_error = Malformed | InvalidMagicByte u8 | OutOfBounds

definition encode_txn :: "codecs \<Rightarrow> TransactionRequest \<Rightarrow> bytes" where
  "encode_txn cdc txn = (case txn of
     UpdateReq r \<Rightarrow> cdc_bincode cdc r @ [0] | EthereumReq t \<Rightarrow> cdc_rlp cdc t @ [1])"

text \<open>The last byte selects the format; reading it from an empty slice is a panic.\<close>

definition decode_txn :: "codecs \<Rightarrow> bytes \<Rightarrow> (decode_error + TransactionRequest) option" where
  "decode_txn cdc bs =
     (if bs = [] then None
      else let magic_byte = last bs; body = butlast bs
      in Some (if magic_byte = 0 then
                 (case cdc_unbincode cdc body of Some r \<Rightarrow> Inr (UpdateReq r) | None \<Rightarrow> Inl Malformed)
               else if magic_byte = 1 then
                 (case cdc_unrlp cdc body of Some t \<Rightarrow> Inr (EthereumReq t) | None \<Rightarrow> Inl Malformed)
               else Inl (InvalidMagicByte magic_byte)))"

section \<open>Blocks\<close>

definition encode_block :: "codecs \<Rightarrow> Block \<Rightarrow> bytes" where
  "encode_block cdc b =
     be_bytes 32 (bl_digest b) @ le_bytes 8 (bl_sub_dag_index b) @ le_bytes 8 (bl_sub_dag_round b)
     @ le_bytes 8 (of_nat (length (bl_transactions b)) :: u64)
     @ concat (map (\<lambda>t. let bs = encode_txn cdc t in le_bytes 8 (of_nat (length bs) :: u64) @ bs)
         (bl_transactions b))"

text \<open>\<^verbatim>\<open>value.get(i..i + n)\<close>.\<close>

definition get_range :: "bytes \<Rightarrow> nat \<Rightarrow> nat \<Rightarrow> bytes option" where
  "get_range bs i n = (if i + n \<le> length bs then Some (take n (drop i bs)) else None)"

fun decode_txns ::
    "codecs \<Rightarrow> bytes \<Rightarrow> nat \<Rightarrow> nat \<Rightarrow> (decode_error + TransactionRequest list) option" where
  "decode_txns cdc bs 0 pointer = Some (Inr [])"
| "decode_txns cdc bs (Suc n) pointer =
     (case get_range bs pointer 8 of
        None \<Rightarrow> Some (Inl OutOfBounds)
      | Some len_bytes \<Rightarrow>
          let tx_len = unat (le_word len_bytes :: u64)
          in (case get_range bs (pointer + 8) tx_len of
                None \<Rightarrow> Some (Inl OutOfBounds)
              | Some tx_bytes \<Rightarrow> (case decode_txn cdc tx_bytes of
                   None \<Rightarrow> None
                 | Some (Inl e) \<Rightarrow> Some (Inl e)
                 | Some (Inr tx) \<Rightarrow>
                     map_option (map_sum id ((#) tx)) (decode_txns cdc bs n (pointer + 8 + tx_len)))))"

text \<open>
  \<^verbatim>\<open>Vec::with_capacity(num_txns)\<close> panics when the capacity exceeds \<^verbatim>\<open>isize::MAX\<close> bytes;
  \<open>txn_size\<close> is \<^verbatim>\<open>size_of::<TransactionRequest>()\<close>.
\<close>

definition capacity_ok :: "nat \<Rightarrow> nat \<Rightarrow> bool" where
  "capacity_ok txn_size n \<longleftrightarrow> n * txn_size < 2 ^ 63"

definition decode_block :: "codecs \<Rightarrow> nat \<Rightarrow> bytes \<Rightarrow> (decode_error + Block) option" where
  "decode_block cdc txn_size bs =
     (case (get_range bs 0 32, get_range bs 32 8, get_range bs 40 8, get_range bs 48 8) of
        (Some digest, Some index, Some round, Some num) \<Rightarrow>
          let num_txns = unat (le_word num :: u64)
          in if \<not> capacity_ok txn_size num_txns then None
             else map_option (map_sum id (\<lambda>txns. \<lparr>bl_digest = be_word digest,
                 bl_sub_dag_index = le_word index, bl_sub_dag_round = le_word round,
                 bl_transactions = txns\<rparr>)) (decode_txns cdc bs num_txns 56)
      | _ \<Rightarrow> Some (Inl OutOfBounds))"

section \<open>Validation before consensus\<close>

record Validator =
  va_node_public_key :: NodePublicKey
  va_consensus_public_key :: ConsensusPublicKey

definition MAX_DELIVERY_ACKNOWLEDGMENTS :: nat where "MAX_DELIVERY_ACKNOWLEDGMENTS = 1000"
definition MAX_JOBS :: nat where "MAX_JOBS = 1000"

definition own_transaction :: "Validator \<Rightarrow> TransactionSender \<Rightarrow> bool" where
  "own_transaction va sender = (case sender of
     NodeMain pk \<Rightarrow> pk = va_node_public_key va
   | NodeConsensus pk \<Rightarrow> pk = va_consensus_public_key va
   | AccountOwner _ \<Rightarrow> False)"

definition within_limits :: "UpdateMethod \<Rightarrow> bool" where
  "within_limits m = (case m of
     SubmitReputationMeasurements measurements \<Rightarrow> length measurements \<le> MAX_MEASUREMENTS_PER_TX
   | UpdateContentRegistry updates \<Rightarrow> length updates \<le> MAX_UPDATES_CONTENT_REGISTRY
   | SubmitDeliveryAcknowledgmentAggregation _ _ proofs _ \<Rightarrow> length proofs \<le> MAX_DELIVERY_ACKNOWLEDGMENTS
   | AddJobs jobs \<Rightarrow> length jobs \<le> MAX_JOBS
   | RemoveJobs jobs \<Rightarrow> length jobs \<le> MAX_JOBS
   | _ \<Rightarrow> True)"

text \<open>Whether the transaction is accepted; \<open>None\<close> is a panic.\<close>

definition validate_txn :: "externals \<Rightarrow> codecs \<Rightarrow> Validator \<Rightarrow> bytes \<Rightarrow> bool \<Rightarrow> bool option" where
  "validate_txn ext cdc va t mempool = do {
     d \<leftarrow> decode_txn cdc t;
     (case d of
        Inl _ \<Rightarrow> Some False
      | Inr (UpdateReq r) \<Rightarrow> do {
          digest \<leftarrow> to_digest ext (ur_payload r);
          Some (sender_verify ext (up_sender (ur_payload r)) (ur_signature r) digest \<and>
            ((mempool \<and> own_transaction va (up_sender (ur_payload r)))
             \<or> within_limits (up_method (ur_payload r))))
        }
      | Inr (EthereumReq txn) \<Rightarrow>
          Some (case ext_recover_from ext txn of
             None \<Rightarrow> False
           | Some sender \<Rightarrow> verify_signature ext (txn\<lparr>et_from := sender\<rparr>) sender))
   }"

fun validate_batch :: "externals \<Rightarrow> codecs \<Rightarrow> Validator \<Rightarrow> bytes list \<Rightarrow> bool option" where
  "validate_batch ext cdc va [] = Some True"
| "validate_batch ext cdc va (t # ts) = do {
     ok \<leftarrow> validate_txn ext cdc va t False;
     if ok then validate_batch ext cdc va ts else Some False
   }"

section \<open>Round trip\<close>

text \<open>
  What is relied on of the serializers, for each transaction of a block: it is decoded from what it was
  encoded to. A Fleek request has this with \<^verbatim>\<open>bincode\<close>. An Ethereum transaction has it when its fields
  are those that decoding computes, as for one that came over the wire; \<^verbatim>\<open>test_transaction_request_eth\<close>
  decodes once before it compares.
\<close>

definition serializes :: "codecs \<Rightarrow> TransactionRequest \<Rightarrow> bool" where
  "serializes cdc txn = (case txn of
     UpdateReq r \<Rightarrow> cdc_unbincode cdc (cdc_bincode cdc r) = Some r
   | EthereumReq t \<Rightarrow> cdc_unrlp cdc (cdc_rlp cdc t) = Some t)"

lemma decode_encode_txn: "serializes cdc txn \<Longrightarrow> decode_txn cdc (encode_txn cdc txn) = Some (Inr txn)"
  by (auto simp: decode_txn_def encode_txn_def serializes_def split: TransactionRequest.splits)

definition encode_entry :: "codecs \<Rightarrow> TransactionRequest \<Rightarrow> bytes" where
  "encode_entry cdc t = le_bytes 8 (of_nat (length (encode_txn cdc t)) :: u64) @ encode_txn cdc t"

lemma unat_le_word_length: "n < 2 ^ 64 \<Longrightarrow> unat (le_word (le_bytes 8 (of_nat n :: u64)) :: u64) = n"
  using le_word_le_bytes[of 8 "of_nat n :: u64"]
  by (simp add: unsigned_of_nat take_bit_nat_eq_self)

lemma get_range_middle: "length xs = i \<Longrightarrow> length ys = n \<Longrightarrow> get_range (xs @ ys @ zs) i n = Some ys"
  by (simp add: get_range_def)

text \<open>The decoder takes one entry.\<close>

lemma decode_txns_entry:
  assumes "serializes cdc t" "length (encode_txn cdc t) < 2 ^ 64"
  shows "decode_txns cdc (pre @ encode_entry cdc t @ rest) (Suc n) (length pre) =
    map_option (map_sum id ((#) t))
      (decode_txns cdc ((pre @ encode_entry cdc t) @ rest) n (length (pre @ encode_entry cdc t)))"
proof -
  let ?n = "length (encode_txn cdc t)"
  let ?len = "le_bytes 8 (of_nat ?n :: u64)"
  let ?bs = "pre @ encode_entry cdc t @ rest"
  have n: "unat (le_word ?len :: u64) = ?n" by (rule unat_le_word_length[OF assms(2)])
  have bs: "?bs = pre @ ?len @ (encode_txn cdc t @ rest)" "?bs = (pre @ ?len) @ encode_txn cdc t @ rest"
    by (simp_all add: encode_entry_def)
  have g1: "get_range ?bs (length pre) 8 = Some ?len"
    unfolding bs(1) by (rule get_range_middle) simp_all
  have g2: "get_range ?bs (length pre + 8) ?n = Some (encode_txn cdc t)"
    unfolding bs(2) by (rule get_range_middle) simp_all
  show ?thesis
    unfolding decode_txns.simps g1 option.case Let_def n g2 decode_encode_txn[OF assms(1)]
    by (simp add: encode_entry_def add.assoc)
qed

lemma decode_txns_encoded:
  assumes "\<forall>t \<in> set txns. serializes cdc t \<and> length (encode_txn cdc t) < 2 ^ 64"
  shows "decode_txns cdc (pre @ concat (map (encode_entry cdc) txns) @ post) (length txns) (length pre) =
    Some (Inr txns)"
  using assms
proof (induction txns arbitrary: pre)
  case (Cons t ts)
  with decode_txns_entry[of cdc t pre "concat (map (encode_entry cdc) ts) @ post" "length ts"]
    Cons.IH[of "pre @ encode_entry cdc t"] show ?case by simp
qed simp

lemma decode_encode_block:
  assumes "\<forall>t \<in> set (bl_transactions b). serializes cdc t \<and> length (encode_txn cdc t) < 2 ^ 64"
    and "length (bl_transactions b) < 2 ^ 64" "capacity_ok txn_size (length (bl_transactions b))"
  shows "decode_block cdc txn_size (encode_block cdc b) = Some (Inr b)"
proof -
  let ?d = "be_bytes 32 (bl_digest b)" and ?i = "le_bytes 8 (bl_sub_dag_index b)"
    and ?r = "le_bytes 8 (bl_sub_dag_round b)"
    and ?c = "le_bytes 8 (of_nat (length (bl_transactions b)) :: u64)"
    and ?t = "concat (map (encode_entry cdc) (bl_transactions b))"
  have e: "encode_block cdc b = ?d @ ?i @ ?r @ ?c @ ?t"
    by (simp add: encode_block_def encode_entry_def[abs_def] Let_def)
  have g: "get_range (encode_block cdc b) 0 32 = Some ?d" "get_range (encode_block cdc b) 32 8 = Some ?i"
    "get_range (encode_block cdc b) 40 8 = Some ?r" "get_range (encode_block cdc b) 48 8 = Some ?c"
    using get_range_middle[of "[]" 0 ?d 32] get_range_middle[of ?d 32 ?i 8]
      get_range_middle[of "?d @ ?i" 40 ?r 8] get_range_middle[of "?d @ ?i @ ?r" 48 ?c 8]
    by (simp_all add: e)
  have t: "decode_txns cdc (encode_block cdc b) (length (bl_transactions b)) 56 =
      Some (Inr (bl_transactions b))"
    using decode_txns_encoded[OF assms(1), of "?d @ ?i @ ?r @ ?c" "[]"] by (simp add: e)
  show ?thesis
    unfolding decode_block_def g option.case prod.case Let_def unat_le_word_length[OF assms(2)]
    using assms(3) t by (simp add: le_word_le_bytes be_word_be_bytes)
qed

section \<open>Malformed input\<close>

text \<open>A transaction of length zero makes the decoder panic, wherever it stands in the block.\<close>

lemma empty_txn_panics:
  assumes "\<forall>t \<in> set txns. serializes cdc t \<and> length (encode_txn cdc t) < 2 ^ 64"
  shows "decode_txns cdc (pre @ concat (map (encode_entry cdc) txns) @ le_bytes 8 (0 :: u64) @ post)
    (length txns + Suc n) (length pre) = None"
  using assms
proof (induction txns arbitrary: pre)
  case Nil
  have "get_range (pre @ le_bytes 8 (0 :: u64) @ post) (length pre) 8 = Some (le_bytes 8 (0 :: u64))"
    by (rule get_range_middle) simp_all
  moreover have "get_range (pre @ le_bytes 8 (0 :: u64) @ post) (length pre + 8) 0 = Some []"
    by (simp add: get_range_def)
  ultimately show ?case using le_word_le_bytes[of 8 "0 :: u64"] by (simp add: decode_txn_def)
next
  case (Cons t ts)
  with decode_txns_entry[of cdc t pre "concat (map (encode_entry cdc) ts) @ le_bytes 8 (0 :: u64) @ post"
      "length ts + Suc n"] Cons.IH[of "pre @ encode_entry cdc t"] show ?case by simp
qed

end
