(* ===== verification/Signing.thy ===== *)
theory Signing
  imports Execution
begin

text \<open>
  The transcript builder keeps its entries sorted by label, so the order in which fields are added
  does not matter, and a label that is already there is a panic. On that rest the statements on what
  a signature covers.
\<close>

section \<open>The order of labels\<close>

lemma bytes_less_irrefl [simp]: "\<not> bytes_less xs xs"
  by (induction xs) auto

lemma bytes_less_Nil [simp]: "\<not> bytes_less xs []"
  by (cases xs) auto

lemma bytes_less_trans: "bytes_less xs ys \<Longrightarrow> bytes_less ys zs \<Longrightarrow> bytes_less xs zs"
proof (induction xs ys arbitrary: zs rule: bytes_less.induct)
  case (1 ys)
  then show ?case by (cases zs) auto
next
  case (3 x xs y ys)
  then show ?case by (cases zs) auto
qed simp

lemma bytes_less_total: "xs \<noteq> ys \<Longrightarrow> bytes_less xs ys \<or> bytes_less ys xs"
proof (induction xs ys rule: bytes_less.induct)
  case (1 ys)
  then show ?case by (cases ys) auto
qed auto

abbreviation label_sorted :: "(bytes \<times> bytes) list \<Rightarrow> bool" where
  "label_sorted \<equiv> sorted_wrt (\<lambda>a b. bytes_less (fst a) (fst b))"

lemma append_data_None:
  "label_sorted es \<Longrightarrow> append_data d es = None \<longleftrightarrow> fst d \<in> fst ` set es"
proof (induction es)
  case (Cons e es)
  have "fst d \<notin> fst ` set es" if "bytes_less (fst d) (fst e)"
    using Cons.prems that bytes_less_trans by fastforce
  then show ?case using Cons by auto
qed simp

lemma append_data_Some:
  assumes "label_sorted es" "append_data d es = Some es'"
  shows "label_sorted es' \<and> mset es' = add_mset d (mset es)"
  using assms
proof (induction es arbitrary: es')
  case (Cons e es)
  show ?case
  proof (cases "bytes_less (fst d) (fst e)")
    case True
    then have "es' = d # e # es" using Cons.prems by (auto split: if_split_asm)
    then show ?thesis using True Cons.prems(1) bytes_less_trans by auto
  next
    case False
    then obtain rest where r: "append_data d es = Some rest" "es' = e # rest" "fst d \<noteq> fst e"
      using Cons.prems by (auto split: if_split_asm)
    then have "label_sorted rest" "mset rest = add_mset d (mset es)" using Cons by auto
    moreover from this have "set rest = insert d (set es)" by (metis set_mset_mset set_mset_add_mset_insert)
    moreover have "bytes_less (fst e) (fst d)" using False r(3) bytes_less_total by blast
    ultimately show ?thesis using r Cons.prems(1) by auto
  qed
qed auto

lemma label_sorted_distinct: "label_sorted es \<Longrightarrow> distinct (map fst es)"
  by (induction es) force+

text \<open>Two sorted lists with the same entries are the same list.\<close>

lemma label_sorted_unique: "label_sorted es \<Longrightarrow> label_sorted es' \<Longrightarrow> mset es = mset es' \<Longrightarrow> es = es'"
proof (induction es arbitrary: es')
  case (Cons e es)
  then obtain x xs where es': "es' = x # xs" by (cases es') auto
  have "e = x"
  proof (rule ccontr)
    assume "e \<noteq> x"
    then have "x \<in> set es" "e \<in> set xs"
      using Cons.prems(3) es' by (metis in_multiset_in_set insert_noteq_member mset.simps(2))+
    then have "bytes_less (fst e) (fst x)" "bytes_less (fst x) (fst e)" using Cons.prems es' by auto
    then show False using bytes_less_trans bytes_less_irrefl by blast
  qed
  then show ?case using Cons es' by auto
qed simp

section \<open>Adding fields in any order\<close>

definition entry :: "string option \<Rightarrow> string \<times> input \<Rightarrow> bytes \<times> bytes" where
  "entry prefix f = (with_key prefix (fst f), with_value (snd f))"

lemma with_all_Some:
  assumes "with_all fs b = Some b'" "label_sorted (tb_data b)"
  shows "tb_domain b' = tb_domain b \<and> tb_prefix b' = tb_prefix b \<and> label_sorted (tb_data b') \<and>
    mset (tb_data b') = mset (map (entry (tb_prefix b)) fs) + mset (tb_data b)"
  using assms
proof (induction fs arbitrary: b)
  case (Cons f fs)
  then obtain d where d: "append_data (entry (tb_prefix b) f) (tb_data b) = Some d"
      "with_all fs (b\<lparr>tb_data := d\<rparr>) = Some b'"
    by (auto simp: with_all_def tb_with_def entry_def split: option.split_asm)
  from append_data_Some[OF Cons.prems(2) d(1)] Cons.IH[OF d(2)] show ?case by simp
qed (simp add: with_all_def)

lemma with_all_None:
  assumes "label_sorted (tb_data b)"
  shows "with_all fs b = None \<longleftrightarrow> \<not> distinct (map (fst \<circ> entry (tb_prefix b)) fs @ map fst (tb_data b))"
  using assms
proof (induction fs arbitrary: b)
  case Nil
  then show ?case using label_sorted_distinct by (simp add: with_all_def)
next
  case (Cons f fs)
  let ?e = "entry (tb_prefix b) f"
  show ?case
  proof (cases "append_data ?e (tb_data b)")
    case None
    then have "fst ?e \<in> fst ` set (tb_data b)" using append_data_None Cons.prems by blast
    then show ?thesis using None by (auto simp: with_all_def tb_with_def entry_def)
  next
    case (Some d)
    have d: "label_sorted d" "mset d = add_mset ?e (mset (tb_data b))"
      using append_data_Some[OF Cons.prems Some] by auto
    have ne: "fst ?e \<notin> fst ` set (tb_data b)" 
      using append_data_None[OF Cons.prems, of ?e] Some by simp
    have "set d = insert ?e (set (tb_data b))" using d(2) by (metis set_mset_mset set_mset_add_mset_insert)
    moreover have "with_all (f # fs) b = with_all fs (b\<lparr>tb_data := d\<rparr>)"
      using Some by (simp add: with_all_def tb_with_def entry_def)
    ultimately show ?thesis
      using Cons.IH[of "b\<lparr>tb_data := d\<rparr>"] d(1) ne label_sorted_distinct[OF d(1)]
        label_sorted_distinct[OF Cons.prems] by auto
  qed
qed

lemma with_all_permute:
  assumes "label_sorted (tb_data b)" "mset fs = mset fs'"
  shows "with_all fs b = with_all fs' b"
proof (cases "with_all fs b")
  case None
  have "distinct (map (fst \<circ> entry (tb_prefix b)) fs @ map fst (tb_data b)) =
      distinct (map (fst \<circ> entry (tb_prefix b)) fs' @ map fst (tb_data b))"
    by (rule mset_eq_imp_distinct_iff) (use assms(2) in simp)
  then show ?thesis using None with_all_None[OF assms(1)] by metis
next
  case (Some b1)
  have "distinct (map (fst \<circ> entry (tb_prefix b)) fs @ map fst (tb_data b)) =
      distinct (map (fst \<circ> entry (tb_prefix b)) fs' @ map fst (tb_data b))"
    by (rule mset_eq_imp_distinct_iff) (use assms(2) in simp)
  then have "with_all fs' b \<noteq> None" using Some with_all_None[OF assms(1)] by (metis option.distinct(1))
  then obtain b2 where b2: "with_all fs' b = Some b2" by blast
  note r1 = with_all_Some[OF Some assms(1)] and r2 = with_all_Some[OF b2 assms(1)]
  have "mset (tb_data b1) = mset (tb_data b2)" using r1 r2 assms(2) by simp
  then have "tb_data b1 = tb_data b2" using label_sorted_unique r1 r2 by blast
  then have "b1 = b2" using r1 r2 by simp
  then show ?thesis using Some b2 by simp
qed

section \<open>The transcript of a transfer\<close>

lemma transfer_transcript:
  "transcript ext \<lparr>up_sender = AccountOwner a, up_nonce = n, up_method = Transfer x t to, up_chain_id = c\<rparr> =
   Some \<lparr>tb_domain = FN_TXN_PAYLOAD_DOMAIN, tb_data =
     [entry None (''chain_id'', in_u32 c),
      entry (Some ''input'') (''amount'', in_hp x),
      entry (Some ''input'') (''to'', in_buffer (be_bytes 20 to)),
      entry (Some ''input'') (''token'', in_tokens t),
      entry None (''nonce'', in_u64 n),
      entry None (''sender_account'', in_buffer (be_bytes 20 a)),
      entry None (''transaction_name'', in_str ''transfer'')], tb_prefix = Some ''input''\<rparr>"
  by (simp add: transcript_def with_all_def sender_field_def tb_empty_def tb_with_def method_transcript_def
     named_method_def with_prefix_def with_key_def str_bytes_def entry_def be_bytes_def le_bytes_def upt_rec)

lemma in_tokens_length: "length (with_value (in_tokens t)) = (case t of USDC \<Rightarrow> 20 | FLK \<Rightarrow> 19)"
  by (cases t) (simp_all add: with_value_def in_tokens_def str_bytes_def)

lemma transfer_compile_inject:
  assumes "transcript ext \<lparr>up_sender = AccountOwner a, up_nonce = n, up_method = Transfer x t to, up_chain_id = c\<rparr> = Some b"
    "transcript ext \<lparr>up_sender = AccountOwner a', up_nonce = n', up_method = Transfer x' t' to', up_chain_id = c'\<rparr> = Some b'"
    and eq: "tb_compile b = tb_compile b'"
  shows "a = a' \<and> n = n' \<and> x = x' \<and> t = t' \<and> to = to' \<and> c = c'"
proof -
  define K where "K = (\<lambda>p l. with_key p l)"
  have b: "tb_compile b = K None ''chain_id'' @ with_value (in_u32 c) @ K (Some ''input'') ''amount'' @ with_value (in_hp x)
      @ K (Some ''input'') ''to'' @ with_value (in_buffer (be_bytes 20 to)) @ K (Some ''input'') ''token'' @ with_value (in_tokens t)
      @ K None ''nonce'' @ with_value (in_u64 n) @ K None ''sender_account'' @ with_value (in_buffer (be_bytes 20 a))
      @ K None ''transaction_name'' @ with_value (in_str ''transfer'')"
    if "transcript ext \<lparr>up_sender = AccountOwner a, up_nonce = n, up_method = Transfer x t to, up_chain_id = c\<rparr> = Some b"
    for a n x t to c b
    using that unfolding transfer_transcript by (auto simp: tb_compile_def entry_def K_def)
  have len: "length (with_value (in_u32 c)) = length (with_value (in_u32 c'))"
    "length (with_value (in_hp x)) = length (with_value (in_hp x'))"
    "length (with_value (in_buffer (be_bytes 20 to))) = length (with_value (in_buffer (be_bytes 20 to')))"
    "length (with_value (in_buffer (be_bytes 20 a))) = length (with_value (in_buffer (be_bytes 20 a')))"
    "length (with_value (in_u64 n)) = length (with_value (in_u64 n'))"
    by (simp_all add: with_value_def in_u32_def in_hp_def in_buffer_def in_u64_def)
  note eq' = eq[unfolded b[OF assms(1)] b[OF assms(2)]]
  have "length (with_value (in_tokens t)) = length (with_value (in_tokens t'))"
    using arg_cong[OF eq', of length] len by simp
  then have t: "t = t'" by (cases t; cases t') (simp_all add: in_tokens_length)
  have "with_value (in_u32 c) = with_value (in_u32 c')" "with_value (in_hp x) = with_value (in_hp x')"
    "with_value (in_buffer (be_bytes 20 to)) = with_value (in_buffer (be_bytes 20 to'))"
    "with_value (in_buffer (be_bytes 20 a)) = with_value (in_buffer (be_bytes 20 a'))"
    "with_value (in_u64 n) = with_value (in_u64 n')"
    using eq' len unfolding t by simp_all
  then have f: "c = c'" "le_bytes 32 (get_value x) = le_bytes 32 (get_value x')" "to = to'" "a = a'" "n = n'"
    by (simp_all add: with_value_def in_u32_def in_hp_def in_buffer_def in_u64_def be_bytes_inject)
  have "get_value x = get_value x'" using arg_cong[OF f(2), of "le_word :: bytes \<Rightarrow> u256"] by (simp add: le_word_le_bytes)
  then show ?thesis using f t by (simp add: HpUfixed.expand)
qed

section \<open>A transaction that cannot be hashed\<close>

text \<open>The list of a \<^verbatim>\<open>RemoveJobs\<close> repeats the label of its entries.\<close>

lemma with_all_sorted: "with_all fs b = Some b' \<Longrightarrow> label_sorted (tb_data b) \<Longrightarrow> label_sorted (tb_data b')"
  using with_all_Some by blast

lemma remove_jobs_transcript:
  assumes "up_method p = RemoveJobs (h1 # h2 # hs)"
  shows "transcript ext p = None"
proof (rule ccontr)
  assume "transcript ext p \<noteq> None"
  then obtain b b1 b2 b3 where b: "with_all [(''nonce'', in_u64 (up_nonce p)), (''chain_id'', in_u32 (up_chain_id p)),
        sender_field (up_sender p)] (tb_empty FN_TXN_PAYLOAD_DOMAIN) = Some b"
      "with_all [(''transaction_name'', in_str ''remove_jobs'')] b = Some b1"
      "with_all [(''job'', in_buffer (be_bytes 32 h1))] (with_prefix ''input'' b1) = Some b2"
      "with_all [(''job'', in_buffer (be_bytes 32 h2))] (with_prefix ''input'' b2) = Some b3"
    using assms by (auto simp: transcript_def method_transcript_def listed_method_def with_all_def
        bind_eq_Some_conv split: option.split_asm)
  have "label_sorted (tb_data b)" by (rule with_all_sorted[OF b(1)]) (simp add: tb_empty_def)
  then have "label_sorted (tb_data b1)" by (rule with_all_sorted[OF b(2)])
  then have s: "label_sorted (tb_data (with_prefix ''input'' b1))" by (simp add: with_prefix_def)
  note r2 = with_all_Some[OF b(3) s]
  have "mset (tb_data b2) = add_mset (entry (Some ''input'') (''job'', in_buffer (be_bytes 32 h1))) (mset (tb_data b1))"
    using r2 by (simp add: with_prefix_def)
  then have "entry (Some ''input'') (''job'', in_buffer (be_bytes 32 h1)) \<in> set (tb_data b2)"
    by (metis set_mset_mset union_single_eq_member add_mset_add_single insert_iff set_mset_add_mset_insert)
  then have "with_key (Some ''input'') ''job'' \<in> fst ` set (tb_data b2)" by (force simp: entry_def)
  moreover have "label_sorted (tb_data (with_prefix ''input'' b2))" using r2 by (simp add: with_prefix_def)
  ultimately have "with_all [(''job'', in_buffer (be_bytes 32 h2))] (with_prefix ''input'' b2) = None"
    using with_all_None[of "with_prefix ''input'' b2"] by (simp add: with_prefix_def entry_def)
  with b(4) show False by simp
qed

lemma remove_jobs_run:
  assumes "up_method (ur_payload r) = RemoveJobs (h1 # h2 # hs)"
  shows "run_transaction ext d n i (UpdateReq r) s = None"
proof (rule ccontr)
  assume "run_transaction ext d n i (UpdateReq r) s \<noteq> None"
  then obtain v txn' h where v: "verify_transaction ext s (UpdateReq r) = Some (v, txn')" "txn_hash ext txn' = Some h"
    by (auto simp: run_transaction_def bind_eq_Some_conv)
  have "txn' = UpdateReq r" by (rule verify_update_same[OF v(1)])
  then show False
    using v(2) remove_jobs_transcript[OF assms, of ext] by (simp add: txn_hash_def to_digest_def)
qed

lemma remove_jobs_block:
  assumes "UpdateReq r \<in> set txns" "up_method (ur_payload r) = RemoveJobs (h1 # h2 # hs)"
  shows "run_transactions ext d n i txns s = None"
  using assms
proof (induction txns arbitrary: i s)
  case (Cons t ts)
  then show ?case
    using remove_jobs_run[of r h1 h2 hs] by (auto simp: bind_eq_None_conv split: prod.splits)
qed simp

section \<open>Fields a signature does not cover\<close>

lemma measurement_uptime: "measurement_fields (m\<lparr>rm_uptime := u\<rparr>) = measurement_fields m"
  by (simp add: measurement_fields_def)

end
