(* ===== verification/Beacon_Liveness.thy ===== *)
theory Beacon_Liveness
  imports Beacon_Safety
begin

text \<open>
  The commit phase ends: once a quorum of committee members with sufficient stake has signalled the
  timeout of the phase, in any order, every signal has been accepted and the beacon has moved on, to
  the reveal phase when enough members committed and to the next round otherwise.
\<close>

text \<open>The given senders signal the timeout one after the other; every signal must be accepted.\<close>

definition commit_timeouts ::
    "TransactionSender list \<Rightarrow> Epoch \<Rightarrow> Round \<Rightarrow> app_state \<Rightarrow> app_state option" where
  "commit_timeouts senders e r s = for_each (\<lambda>x s. Option.bind
     (committee_selection_beacon_commit_phase_timeout x e r s)
     (\<lambda>(resp, s'). if is_success resp then Some s' else None)) senders s"

definition waiting :: "app_state \<Rightarrow> NodeIndex list \<Rightarrow> app_state \<Rightarrow> bool" where
  "waiting s0 signals s \<longleftrightarrow> get_epoch s = get_epoch s0 \<and> beacon_phase s = beacon_phase s0 \<and>
     com_members (current_committee s) = com_members (current_committee s0) \<and>
     com_signalled_commit_phase_timeout (current_committee s) = signals \<and>
     only_node_with_sufficient_stake s = only_node_with_sufficient_stake s0 \<and>
     st_committee_selection_beacon s = st_committee_selection_beacon s0 \<and>
     st_non_revealing_node s = st_non_revealing_node s0"

lemma guard_set_committee:
  "only_node_with_sufficient_stake (set_committee_info e c s) = only_node_with_sufficient_stake s"
proof
  fix x
  have "only_node (set_committee_info e c s) x = only_node s x"
    unfolding only_node_def set_committee_info_def by (simp split: TransactionSender.split)
  moreover have "has_sufficient_stake (set_committee_info e c s) i = has_sufficient_stake s i" for i
    unfolding has_sufficient_stake_def get_min_stake_def set_committee_info_def
    by (simp split: option.split)
  ultimately show "only_node_with_sufficient_stake (set_committee_info e c s) x =
      only_node_with_sufficient_stake s x"
    unfolding only_node_with_sufficient_stake_def by (simp split: sum.split)
qed

lemma commit_timeout_step:
  assumes w: "waiting s0 sigs s" and ph: "beacon_phase s0 = Some (Commit (get_epoch s0, r))"
    and x: "only_node_with_sufficient_stake s0 x = Some (Inr i)"
    and i: "i \<in> set (com_members (current_committee s0))" "i \<notin> set sigs"
  obtains s1 where "waiting s0 (sigs @ [i]) s1"
    "committee_selection_beacon_commit_phase_timeout x (get_epoch s0) r s = Some (Success EDNone,
       if Suc (length sigs) = quorum (com_members (current_committee s0)) then finish_commit_phase r s1 else s1)"
proof -
  define c' where "c' = (current_committee s)\<lparr>com_signalled_commit_phase_timeout := sigs @ [i]\<rparr>"
  define s1 where "s1 = set_committee_info (get_epoch s) c' s"
  note w' = w[unfolded waiting_def]
  have cc: "committee s (get_epoch s0) = current_committee s" using w' by (simp add: current_committee_def)
  have "waiting s0 (sigs @ [i]) s1"
    using w unfolding waiting_def
    by (auto simp: s1_def c'_def guard_set_committee) (simp_all add: current_committee_def)
  moreover have "committee_selection_beacon_commit_phase_timeout x (get_epoch s0) r s = Some (Success EDNone,
       if Suc (length sigs) = quorum (com_members (current_committee s0)) then finish_commit_phase r s1 else s1)"
    using ph x i w' cc
    by (simp add: committee_selection_beacon_commit_phase_timeout_def Let_def s1_def c'_def)
  ultimately show thesis by (rule that)
qed

lemma committee_beacons_waiting:
  "waiting s0 sigs s \<Longrightarrow> committee_beacons s = committee_beacons s0 \<and>
    participating_committee_members s = participating_committee_members s0"
  by (auto simp: waiting_def committee_beacons_def participating_committee_members_def
      current_committee_def)

lemma commit_timeouts_end:
  assumes ph: "beacon_phase s0 = Some (Commit (get_epoch s0, r))"
    and guard: "list_all2 (\<lambda>x i. only_node_with_sufficient_stake s0 x = Some (Inr i)) xs is"
    and "waiting s0 sigs s" "distinct (sigs @ is)" "set is \<subseteq> set (com_members (current_committee s0))"
    and "is \<noteq> []" "length (sigs @ is) = quorum (com_members (current_committee s0))"
  shows "\<exists>s'. commit_timeouts xs (get_epoch s0) r s = Some s' \<and> beacon_phase s' =
    (if length (committee_beacons s0) > 2 * length (participating_committee_members s0) div 3
     then Some (Reveal (get_epoch s0, r)) else Some (Commit (get_epoch s0, r + 1)))"
  using guard assms(3-)
proof (induction xs "is" arbitrary: sigs s rule: list_all2_induct)
  case (Cons x xs i "is")
  obtain s1 where s1: "waiting s0 (sigs @ [i]) s1"
    "committee_selection_beacon_commit_phase_timeout x (get_epoch s0) r s = Some (Success EDNone,
       if Suc (length sigs) = quorum (com_members (current_committee s0)) then finish_commit_phase r s1 else s1)"
    by (rule commit_timeout_step[OF Cons.prems(1) ph Cons.hyps(1)]) (use Cons.prems in auto)
  show ?case
  proof (cases "is = []")
    case True
    then have "xs = []" using Cons.hyps(2) by simp
    then have run: "commit_timeouts (x # xs) (get_epoch s0) r s = Some (finish_commit_phase r s1)"
      using s1(2) True Cons.prems(5) by (simp add: commit_timeouts_def)
    have e: "get_epoch s1 = get_epoch s0" using s1(1) by (simp add: waiting_def)
    show ?thesis
      using run committee_beacons_waiting[OF s1(1)] e
      by (simp add: finish_commit_phase_def Let_def clear_committee_selection_beacons_def
          clear_committee_selection_beacon_non_revealing_node_def
          clear_committee_selection_beacon_timeouts_def)
  next
    case False
    then have "Suc (length sigs) \<noteq> quorum (com_members (current_committee s0))"
      using Cons.prems(5) by (cases "is") auto
    then have "commit_timeouts (x # xs) (get_epoch s0) r s = commit_timeouts xs (get_epoch s0) r s1"
      using s1(2) by (simp add: commit_timeouts_def)
    moreover have "\<exists>s'. commit_timeouts xs (get_epoch s0) r s1 = Some s' \<and> beacon_phase s' =
      (if length (committee_beacons s0) > 2 * length (participating_committee_members s0) div 3
       then Some (Reveal (get_epoch s0, r)) else Some (Commit (get_epoch s0, r + 1)))"
      by (rule Cons.IH[OF s1(1)]) (use Cons.prems False in auto)
    ultimately show ?thesis by simp
  qed
qed simp

end
