(* ===== verification/Accounts.thy ===== *)
theory Accounts
  imports Conservation
begin

text \<open>
  What the account and staking operations do to single balances and locks, on the values of the
  source's words: transfers, the lock of unstaked tokens, the lock of a stake, and slashing.
\<close>

section \<open>Transfers\<close>

lemma transfer_moves:
  assumes "transfer sender x t to s = (r, s')" "is_success r"
  shows "\<exists>a. sender = AccountOwner a \<and> a \<noteq> to \<and> x \<le> acc_flk_balance (account s a) \<and>
    account s' a = (account s a)\<lparr>acc_flk_balance := acc_flk_balance (account s a) - x\<rparr> \<and>
    account s' to = (account s to)\<lparr>acc_flk_balance := acc_flk_balance (account s to) + x\<rparr> \<and>
    (\<forall>b. b \<noteq> a \<longrightarrow> b \<noteq> to \<longrightarrow> account s' b = account s b)"
proof -
  obtain a where a: "sender = AccountOwner a" "account s a \<noteq> account s to" "x \<le> acc_flk_balance (account s a)"
      and s': "s' = set_account_info a ((account s a)\<lparr>acc_flk_balance := acc_flk_balance (account s a) - x\<rparr>)
        (set_account_info to ((account s to)\<lparr>acc_flk_balance := acc_flk_balance (account s to) + x\<rparr>) s)"
    using assms
    by (auto simp: transfer_def Let_def only_account_owner_def split: TransactionSender.split_asm if_split_asm)
  have "a \<noteq> to" using a(2) by auto
  then show ?thesis using a(1,3) by (auto simp: s' account_set)
qed

section \<open>Unstaking\<close>

lemma unstake_locks:
  assumes "unstake sender x pk s = Some (r, s')" "is_success r"
  shows "\<exists>i n. get_node_info s (NodeMain pk) = Some (i, n) \<and> sender = AccountOwner (ni_owner n) \<and>
    stk_stake_locked_until (ni_stake n) \<le> get_epoch s \<and> x \<le> stk_staked (ni_stake n) \<and>
    (\<exists>n'. get_node_info s' (NodeMain pk) = Some (i, n') \<and> ni_owner n' = ni_owner n \<and> ni_stake n' = (ni_stake n)\<lparr>
        stk_staked := stk_staked (ni_stake n) - x, stk_locked := stk_locked (ni_stake n) + x,
        stk_locked_until := get_epoch s + lock_time_of s\<rparr>)"
proof -
  obtain a where a: "only_account_owner sender = Inr a"
    using assms by (cases "only_account_owner sender")
      (auto simp: unstake_def only_account_owner_def split: TransactionSender.split_asm)
  obtain i n where gi: "get_node_info s (NodeMain pk) = Some (i, n)"
    using assms a by (cases "get_node_info s (NodeMain pk)") (auto simp: unstake_def)
  note n = get_node_info_Some[OF gi]
  have c: "a = ni_owner n" "stk_stake_locked_until (ni_stake n) \<le> get_epoch s" "x \<le> stk_staked (ni_stake n)"
    using assms a gi by (auto simp: unstake_def Let_def split: if_split_asm)
  have "\<exists>n'. get_node_info s' (NodeMain pk) = Some (i, n') \<and> ni_owner n' = ni_owner n \<and> ni_stake n' = (ni_stake n)\<lparr>
        stk_staked := stk_staked (ni_stake n) - x, stk_locked := stk_locked (ni_stake n) + x,
        stk_locked_until := get_epoch s + lock_time_of s\<rparr>"
    using assms a gi
    by (auto simp: unstake_def Let_def bind_eq_Some_conv set_node_info_def get_node_info_def
        split: if_split_asm option.split_asm)
  then show ?thesis using gi c a
    by (auto simp: only_account_owner_def split: TransactionSender.split_asm)
qed

lemma withdraw_unstaked_locked:
  assumes "get_node_info s (NodeMain pk) = Some (i, n)" "get_epoch s < stk_locked_until (ni_stake n)"
  shows "\<not> is_success (fst (withdraw_unstaked sender pk rc s)) \<and> snd (withdraw_unstaked sender pk rc s) = s"
  using assms
  by (auto simp: withdraw_unstaked_def only_account_owner_def split: TransactionSender.splits)

section \<open>The lock of a stake\<close>

text \<open>The sum of the current lock and the new one wraps around, and so does the end of the lock.\<close>

lemma stake_lock_undone:
  assumes "get_node_info s (NodeMain pk) = Some (i, n)" "stk_staked (ni_stake n) \<noteq> 0"
    and "get_epoch s \<le> stk_stake_locked_until (ni_stake n)"
  shows "stake_lock (AccountOwner (ni_owner n)) pk
      (get_epoch s - stk_stake_locked_until (ni_stake n)) s =
    (Success EDNone, set_node_info i (n\<lparr>ni_stake := (ni_stake n)\<lparr>stk_stake_locked_until := get_epoch s\<rparr>\<rparr>) s)"
  using assms
  by (simp add: stake_lock_def only_account_owner_def saturating_sub_def Let_def)

section \<open>Slashing\<close>

lemma unat_get_value_minus:
  "x \<le> y \<Longrightarrow> unat (get_value (y - x)) = unat (get_value y) - unat (get_value x)"
  by (simp add: HpUfixed_minus HpUfixed_less_eq unat_sub)

lemma less_eq_unat: "x \<le> y \<longleftrightarrow> unat (get_value x) \<le> unat (get_value y)"
  by (simp add: HpUfixed_less_eq word_le_nat_alt)

lemma slash_stake_bounds:
  "stk_staked (slash_stake x st) \<le> stk_staked st \<and> stk_locked (slash_stake x st) \<le> stk_locked st \<and>
   unat (get_value (stk_staked (slash_stake x st))) + unat (get_value (stk_locked (slash_stake x st))) =
     unat (get_value (stk_staked st)) + unat (get_value (stk_locked st)) - unat (get_value x)"
proof (cases "x \<le> stk_staked st")
  case True
  then show ?thesis
    using unat_get_value_minus[OF True]
    by (auto simp: slash_stake_def less_eq_unat HpUfixed_zero)
next
  case False
  then have le: "stk_staked st \<le> x" by simp
  note u = unat_get_value_minus[OF le]
  show ?thesis
  proof (cases "x - stk_staked st \<le> stk_locked st")
    case True
    then show ?thesis
      using False unat_get_value_minus[OF True] u
      by (auto simp: slash_stake_def less_eq_unat HpUfixed_zero)
  next
    case locked: False
    then show ?thesis
      using False u by (auto simp: slash_stake_def less_eq_unat HpUfixed_zero)
  qed
qed

end
