(* ===== verification/Locks.thy ===== *)
theory Locks
  imports Accounts
begin

text \<open>
  How long unstaked tokens stay locked. \<^verbatim>\<open>unstake\<close> sets the end of the lock to the current epoch plus the
  parameter \<^verbatim>\<open>LockTime\<close>, and nothing else writes it. As long as no transaction changes \<^verbatim>\<open>LockTime\<close>, a later
  \<^verbatim>\<open>unstake\<close> can only move the end forward, so that the tokens are held until the lock time has passed.
  When \<^verbatim>\<open>LockTime\<close> is lowered, an \<^verbatim>\<open>unstake\<close> of nothing moves the end back.
\<close>

section \<open>What the handlers do to a lock\<close>

definition lock_end :: "app_state \<Rightarrow> NodePublicKey \<Rightarrow> Epoch option" where
  "lock_end s pk = map_option (\<lambda>(i, n). stk_locked_until (ni_stake n)) (get_node_info s (NodeMain pk))"

interpretation lock: lock_projection "\<lambda>n. stk_locked_until (ni_stake n)" "\<lambda>_. ()"
    "\<lambda>t. tbl_get t ProtocolParamKey.LockTime"
  by unfold_locales simp_all

abbreviation lock_frame :: "app_state \<Rightarrow> app_state \<Rightarrow> bool" where
  "lock_frame \<equiv> node_frame (\<lambda>n. stk_locked_until (ni_stake n)) (\<lambda>_. ())
     (\<lambda>t. tbl_get t ProtocolParamKey.LockTime)"

lemma lock_frame_keeps:
  assumes "lock_frame s s'"
  shows "lock_end s' pk = lock_end s pk" "lock_time_of s' = lock_time_of s"
proof -
  have "map_option (\<lambda>n. stk_locked_until (ni_stake n)) (node s' i) =
      map_option (\<lambda>n. stk_locked_until (ni_stake n)) (node s i)" for i
    using assms unfolding node_frame_def by blast
  moreover have "st_pub_key_to_index s' = st_pub_key_to_index s" using assms unfolding node_frame_def by blast
  ultimately show "lock_end s' pk = lock_end s pk"
    by (simp add: lock_end_def get_node_info_def option.map_comp comp_def split: option.split)
  show "lock_time_of s' = lock_time_of s" using assms by (simp add: node_frame_def lock_time_of_def)
qed

lemma create_node_lock:
  assumes "registry_inv s" "tbl_get (st_pub_key_to_index s) (ni_public_key info) = None"
    "tbl_get (st_consensus_key_to_index s) (ni_consensus_key info) = None" "lock_end s pk = Some x"
  shows "lock_end (snd (create_node info s)) pk = Some x"
    "lock_time_of (snd (create_node info s)) = lock_time_of s"
proof -
  define s' where "s' = snd (create_node info s)"
  have fresh: "node s (next_node_index s) = None" using assms(1) unfolding registry_inv_def by blast
  have f: "st_pub_key_to_index s' = tbl_set (st_pub_key_to_index s) (ni_public_key info) (next_node_index s)"
    "st_node_info s' = tbl_set (st_node_info s) (next_node_index s) info" "st_parameters s' = st_parameters s"
    using assms(2,3) by (simp_all add: s'_def create_node_def Let_def next_node_index_def set_defs)
  show "lock_end (snd (create_node info s)) pk = Some x"
    unfolding s'_def[symmetric] using assms(2,4) fresh
    by (auto simp: lock_end_def get_node_info_def f split: option.splits if_splits)
  show "lock_time_of (snd (create_node info s)) = lock_time_of s"
    unfolding s'_def[symmetric] by (simp add: lock_time_of_def f)
qed

lemma stake_keeps_lock:
  assumes x: "stake sender amount pk' ck nd wk wd po s = Some (r, s')" and inv: "registry_inv s"
    and e: "lock_end s pk = Some x"
  shows "lock_end s' pk = Some x \<and> lock_time_of s' = lock_time_of s"
proof (cases "tbl_get (st_pub_key_to_index s) pk'")
  case (Some i)
  with lock_frame_keeps[OF lock.stake_more_keeps[OF x Some]] e show ?thesis by simp
next
  case None
  show ?thesis
  proof (cases rule: stake_new_cases[OF x None])
    case 1
    with e show ?thesis by simp
  next
    case created: (2 info s1 a)
    have "lock_frame (snd (create_node info s)) s'"
      unfolding created(7) by (rule node_frame_account[OF _ record_change_nodes[OF created(6)]]) simp
    with create_node_lock[OF inv _ created(4) e] None created(3) show ?thesis
      by (simp add: lock_frame_keeps)
  qed
qed

lemma unstake_sets_lock:
  assumes "unstake sender amount pk' s = Some (r, s')"
  shows "lock_time_of s' = lock_time_of s \<and>
    (lock_end s' pk = lock_end s pk \<or> lock_end s' pk = Some (get_epoch s + lock_time_of s))"
  using assms
  by (auto simp: unstake_def Let_def bind_eq_Some_conv lock_time_of_def lock_end_def get_node_info_def set_node_info_def
      split: sum.split_asm option.split_asm if_split_asm prod.split_asm option.split)

lemma other_param_lock:
  assumes "change_protocol_param sender p v s = Some (r, s')" "p \<noteq> ProtocolParamKey.LockTime"
  shows "lock_frame s s'"
  using assms
  by (auto simp: change_protocol_param_def Let_def bind_eq_Some_conv node_frame_parameters
      split: sum.split_asm if_split_asm)

section \<open>Histories without a change of the lock time\<close>

definition keeps_lock_time :: "UpdateMethod \<Rightarrow> bool" where
  "keeps_lock_time m \<longleftrightarrow> (\<forall>v. m \<noteq> ChangeProtocolParam ProtocolParamKey.LockTime v)"

text \<open>One method moves the end of a lock only to the current epoch plus the lock time.\<close>

lemma method_lock:
  assumes "execute_method ext sender m s = Some (r, s')" "keeps_lock_time m" "registry_inv s"
    "lock_end s pk = Some x"
  shows "lock_time_of s' = lock_time_of s \<and>
    (lock_end s' pk = Some x \<or> lock_end s' pk = Some (get_epoch s + lock_time_of s))"
proof -
  consider "lock_frame s s'"
    | a pk' ck nd wk wd po where "stake sender a pk' ck nd wk wd po s = Some (r, s')"
    | a pk' where "unstake sender a pk' s = Some (r, s')"
    | p v where "m = ChangeProtocolParam p v" "change_protocol_param sender p v s = Some (r, s')"
    using lock.execute_method_but[OF assms(1)] by blast
  then show ?thesis
  proof cases
    case 1
    then show ?thesis using lock_frame_keeps assms(4) by simp
  next
    case 2
    then show ?thesis using stake_keeps_lock[OF 2 assms(3,4)] by simp
  next
    case 3
    then show ?thesis using unstake_sets_lock[OF 3] assms(4) by metis
  next
    case 4
    then have "lock_frame s s'" using other_param_lock assms(2) by (auto simp: keeps_lock_time_def)
    then show ?thesis using lock_frame_keeps assms(4) by simp
  qed
qed

lemma ethereum_lock:
  assumes "execute_ethereum_transaction ext t s = Some (r, s')" "registry_inv s" "lock_end s pk = Some x"
  shows "lock_time_of s' = lock_time_of s \<and>
    (lock_end s' pk = Some x \<or> lock_end s' pk = Some (get_epoch s + lock_time_of s))"
  using lock.execute_ethereum_but[OF assms(1)] lock_frame_keeps stake_keeps_lock[OF _ assms(2,3)]
    unstake_sets_lock assms(3) by metis

lemma method_epoch:
  "execute_method ext sender m s = Some (r, s') \<Longrightarrow> get_epoch s' = get_epoch s \<or> get_epoch s' = get_epoch s + 1"
  using epoch_advances by blast

text \<open>
  The lock of a node's tokens does not end before the epoch \<open>e + l\<close>, and the epochs of \<open>k\<close> more
  transactions with the lock time added stay below the end of the 64-bit range.
\<close>

definition held :: "NodePublicKey \<Rightarrow> Epoch \<Rightarrow> u64 \<Rightarrow> nat \<Rightarrow> app_state \<Rightarrow> bool" where
  "held pk e l k s \<longleftrightarrow> room_for k s \<and> lock_time_of s = l \<and> e \<le> get_epoch s \<and>
     unat (get_epoch s) + k + unat l < 2 ^ 64 \<and> (\<exists>x. lock_end s pk = Some x \<and> e + l \<le> x)"

lemma epoch_plus_le:
  assumes "e \<le> (ep :: Epoch)" "unat ep + k + unat l < 2 ^ 64"
  shows "e + l \<le> ep + l"
  using assms unat_plus_if_size[of e l] unat_plus_if_size[of ep l]
  by (simp add: word_le_nat_alt word_size split: if_splits)

lemma epoch_next:
  assumes "e \<le> (ep :: Epoch)" "unat ep + Suc k + unat (l :: u64) < 2 ^ 64"
  shows "e \<le> ep + 1" "unat (ep + 1) + k + unat l < 2 ^ 64"
  using assms unat_plus_if_size[of ep 1] by (simp_all add: word_le_nat_alt word_size)

lemma held_step:
  assumes "held pk e l (Suc k) s" "room_for k s'" "get_epoch s' = get_epoch s \<or> get_epoch s' = get_epoch s + 1"
    and l: "\<And>x. lock_end s pk = Some x \<Longrightarrow> lock_time_of s' = lock_time_of s \<and>
      (lock_end s' pk = Some x \<or> lock_end s' pk = Some (get_epoch s + lock_time_of s))"
  shows "held pk e l k s'"
proof -
  obtain x where x: "lock_end s pk = Some x" "e + l \<le> x" and h: "lock_time_of s = l" "e \<le> get_epoch s"
      "unat (get_epoch s) + Suc k + unat l < 2 ^ 64"
    using assms(1) unfolding held_def by blast
  have "e + l \<le> get_epoch s + l" by (rule epoch_plus_le[OF h(2,3)])
  with l[OF x(1)] x(2) h(1) have "\<exists>y. lock_end s' pk = Some y \<and> e + l \<le> y" "lock_time_of s' = l" by auto
  moreover have "e \<le> get_epoch s' \<and> unat (get_epoch s') + k + unat l < 2 ^ 64"
    using assms(3) epoch_next[OF h(2,3)] h(2,3) by auto
  ultimately show ?thesis using assms(2) unfolding held_def by blast
qed

lemma held_same:
  assumes "held pk e l k s" "room_for k s'" "get_epoch s' = get_epoch s" "lock_frame s s'"
  shows "held pk e l k s'"
  using assms(1-3) lock_frame_keeps[OF assms(4)] unfolding held_def by simp

lemma held_registry: "held pk e l (Suc k) s \<Longrightarrow> registry_inv s"
  by (simp add: held_def room_for_def)

interpretation lock_history: restricted_history ext keeps_lock_time "held pk e l" "held pk e l" for ext pk e l
proof (unfold_locales, goal_cases)
  case (1 k s m sender r s')
  have "room_for k s'" using execute_method_room[OF 1(3)] 1(1) unfolding held_def by blast
  then show ?case
    by (rule held_step[OF 1(1) _ method_epoch[OF 1(3)] method_lock[OF 1(3,2) held_registry[OF 1(1)]]])
next
  case (2 k s t r s')
  have "room_for k s'" using execute_ethereum_room[OF 2(2)] 2(1) unfolding held_def by blast
  then show ?case
    by (rule held_step[OF 2(1) _ _ ethereum_lock[OF 2(2) held_registry[OF 2(1)]]])
      (simp add: frame_epoch[OF execute_ethereum_frame[OF 2(2)]])
next
  case (3 k s d)
  show ?case
    by (rule held_same[OF 3])
      (use 3 room_for_frame[of s "s\<lparr>st_executed_digests := d\<rparr>"] in \<open>simp_all add: held_def get_epoch_def\<close>)
next
  case (4 k s sender s')
  have "lock_frame s s'"
    using 4(2) by (auto simp: increment_nonce_def Let_def bind_eq_Some_conv
      intro!: node_frame_node node_frame_account split: TransactionSender.splits)
  moreover have "get_epoch s' = get_epoch s"
    using 4(2) by (auto simp: increment_nonce_def Let_def bind_eq_Some_conv get_epoch_def set_defs
      split: TransactionSender.splits)
  ultimately show ?case
    using held_same[OF 4(1)] room_for_frame[OF increment_nonce_keys[OF 4(2)]] 4(1) unfolding held_def by blast
next
  case (5 k s)
  then show ?case by (auto simp: held_def room_for_less)
next
  case (6 k s x v)
  have "x \<noteq> Metadata.Epoch" using 6(2) by (auto simp: block_metadata_def)
  then have "get_epoch (set_metadata x v s) = get_epoch s" "lock_time_of (set_metadata x v s) = lock_time_of s"
    "lock_end (set_metadata x v s) pk = lock_end s pk"
    by (simp_all add: get_epoch_def lock_time_of_def lock_end_def get_node_info_def set_metadata_def cong: option.case_cong)
  moreover have "room_for k (set_metadata x v s)"
    using registry_room.all.block_writes[OF _ 6(2)] 6(1) unfolding held_def by blast
  ultimately show ?case using 6(1) by (simp add: held_def)
qed

section \<open>Withdrawals\<close>

text \<open>Unstaked tokens cannot be withdrawn before the lock time has passed.\<close>

lemma unstaked_held:
  assumes u: "unstake sender x pk s = Some (r, s1)" "is_success r" and room: "room_for n s1"
    and h: "reachable_by ext keeps_lock_time s1 n s2"
    and bound: "unat (get_epoch s) + n + unat (lock_time_of s) < 2 ^ 64"
    and early: "get_epoch s2 < get_epoch s + lock_time_of s"
  shows "\<not> is_success (fst (withdraw_unstaked sender' pk rc s2)) \<and> snd (withdraw_unstaked sender' pk rc s2) = s2"
proof -
  have ep: "get_epoch s1 = get_epoch s" by (rule frame_epoch[OF staking_frame(2)[OF u(1)]])
  have lt: "lock_time_of s1 = lock_time_of s" using unstake_sets_lock[OF u(1)] by blast
  have "lock_end s1 pk = Some (get_epoch s + lock_time_of s)"
    using unstake_locks[OF u] by (auto simp: lock_end_def)
  then have "held pk (get_epoch s) (lock_time_of s) (0 + n) s1"
    using room bound by (simp add: held_def ep lt)
  from lock_history.reachable_by_uses[OF h this]
  obtain i n' where "get_node_info s2 (NodeMain pk) = Some (i, n')"
      "get_epoch s + lock_time_of s \<le> stk_locked_until (ni_stake n')"
    by (auto simp: held_def lock_end_def)
  then show ?thesis using withdraw_unstaked_locked early by (metis order_less_le_trans)
qed

text \<open>
  After the lock time was lowered, the owner can move the end of the lock back by unstaking nothing; with a
  lock time of zero the tokens are withdrawn at once.
\<close>

lemma lock_shortened:
  assumes n: "get_node_info s (NodeMain pk) = Some (i, n)" "stk_locked (ni_stake n) \<noteq> 0"
    and "stk_stake_locked_until (ni_stake n) \<le> get_epoch s" "lock_time_of s = 0" "get_min_stake s \<noteq> None"
  shows "\<exists>s1. unstake (AccountOwner (ni_owner n)) 0 pk s = Some (Success EDNone, s1) \<and>
    fst (withdraw_unstaked (AccountOwner (ni_owner n)) pk rc s1) = Success EDNone"
proof -
  let ?u = "unstake (AccountOwner (ni_owner n)) 0 pk s"
  define t where "t = set_node_info i (n\<lparr>ni_stake := (ni_stake n)\<lparr>
      stk_staked := stk_staked (ni_stake n) - 0, stk_locked := stk_locked (ni_stake n) + 0,
      stk_locked_until := get_epoch s + lock_time_of s\<rparr>\<rparr>) s"
  have "get_min_stake t = get_min_stake s" by (simp add: t_def get_min_stake_def set_node_info_def)
  then obtain ok where "has_sufficient_unlocked_stake t i = Some ok"
    using assms(5) by (cases "node t i") (auto simp: has_sufficient_unlocked_stake_def)
  then obtain s1 where s1: "?u = Some (Success EDNone, s1)"
    using assms(1,3) unfolding t_def
    by (simp add: unstake_def only_account_owner_def Let_def not_less HpUfixed_less HpUfixed_zero)
  obtain n' where n': "get_node_info s1 (NodeMain pk) = Some (i, n')" "ni_owner n' = ni_owner n"
      "ni_stake n' = (ni_stake n)\<lparr>stk_staked := stk_staked (ni_stake n) - 0,
        stk_locked := stk_locked (ni_stake n) + 0, stk_locked_until := get_epoch s + lock_time_of s\<rparr>"
    using unstake_locks[OF s1] n(1) by auto
  have "get_epoch s1 = get_epoch s" by (rule frame_epoch[OF staking_frame(2)[OF s1]])
  then have "fst (withdraw_unstaked (AccountOwner (ni_owner n)) pk rc s1) = Success EDNone"
    using n' n(2) assms(4) by (simp add: withdraw_unstaked_def only_account_owner_def Let_def)
  then show ?thesis using s1 by blast
qed

end
