(* ===== verification/Examples.thy ===== *)
theory Examples
  imports Genesis Execution Block_Codec
begin

text \<open>
  A small network for the witnesses: a genesis with one account and the committee nodes whose keys
  are given, and simple functions for the third-party code. A node's public key, consensus key and
  owner are the same number, and the nodes get the indexes 0, 1, 2 in the order of the list.
\<close>

section \<open>Evaluation\<close>

text \<open>
  Code equations on integers for the conversions, whose definitions compute with large natural
  numbers.
\<close>

fun parse_int :: "int \<Rightarrow> string \<Rightarrow> int option" where
  "parse_int acc [] = Some acc"
| "parse_int acc (c # cs) =
     (case digit_of c of None \<Rightarrow> None | Some d \<Rightarrow> parse_int (10 * acc + int d) cs)"

lemma parse_int_digits: "parse_int (int n) s = map_option int (parse_digits n s)"
proof (induction s arbitrary: n)
  case (Cons c cs)
  have "10 * int n + int d = int (10 * n + d)" for d by simp
  then show ?case by (cases "digit_of c") (simp_all only: parse_int.simps parse_digits.simps Cons option.simps)
qed simp

definition float_parts_int :: "nat \<Rightarrow> string \<Rightarrow> (int \<times> int) option" where
  "float_parts_int P s =
     (let parts = split_on CHR ''.'' s
      in do {
        integer_part \<leftarrow> parse_int 0 (parts ! 0);
        fraction_part \<leftarrow> (if length parts > 1 then parse_int 0 (pad_fraction P (parts ! 1))
                          else Some 0);
        Some (integer_part, fraction_part)
      })"

lemma float_parts_int: "float_parts_int P s = map_option (map_prod int int) (get_float_parts_b P s)"
  using parse_int_digits[of 0]
  by (auto simp: float_parts_int_def get_float_parts_b_def Let_def split: Option.bind_splits)

lemma hp_from_f64_code [code]:
  "hp_from_f64 s = (case float_parts_int LENGTH('p) s of
     Some (i, f) \<Rightarrow> if i < 2 ^ 256 \<and> f < 2 ^ 256
       then Some (HpUfixed (of_int i * scale TYPE('p) + of_int f) :: 'p::len0 HpUfixed) else None
   | None \<Rightarrow> None)"
proof -
  have le: "int n < 2 ^ 256 \<longleftrightarrow> n < 2 ^ 256" for n
    using of_nat_less_iff[of n "2 ^ 256", where 'a = int] by (simp only: of_nat_power of_nat_numeral)
  show ?thesis
  proof (cases "get_float_parts_b LENGTH('p) s")
    case (Some p)
    then show ?thesis
      by (cases p) (simp only: hp_from_f64_def get_float_parts_def float_parts_int option.simps
          prod.case map_prod_simp le of_int_of_nat_eq if_distrib simp_thms split: if_split)
  qed (simp add: hp_from_f64_def get_float_parts_def float_parts_int)
qed

lemma sfrom_f64_code [code]:
  "sfrom_f64 s =
     (let neg = (s \<noteq> [] \<and> hd s = CHR ''-'');
          s' = (if neg \<and> \<not> (tl s \<noteq> [] \<and> hd (tl s) = CHR ''+'') then tl s else s)
      in case float_parts_int LENGTH('p) s' of
           Some (i, f) \<Rightarrow> Some (HpFixed (if neg then - (i * 10 ^ LENGTH('p) + f)
             else i * 10 ^ LENGTH('p) + f) :: 'p::len0 HpFixed)
         | None \<Rightarrow> None)"
  unfolding sfrom_f64_def Let_def float_parts_int by (auto split: option.splits)

lemma hp_try_into_code [code]:
  "(hp_try_into (x :: 'p::len0 HpUfixed) :: _ + 'w::len word) =
     (let divisor = scale TYPE('p)
      in if divisor = 0 then Inl DivisionError
         else let interim = get_value x div divisor
           in if uint interim < 2 ^ LENGTH('w) then Inr (ucast interim) else Inl Overflow)"
proof -
  have "unat w < 2 ^ n \<longleftrightarrow> uint w < 2 ^ n" for w :: u256 and n
    using of_nat_less_iff[of "unat w" "2 ^ n", where 'a = int] by simp
  then show ?thesis by (simp add: hp_try_into_def Let_def)
qed

lemma no_reports: "calculate_reputation_scores [] = Some []"
proof -
  obtain i where i: "f64_max = Some (HpFixed i)" "f64_min = Some (HpFixed (- i))" using f64_limits by blast
  show ?thesis
    unfolding calculate_reputation_scores_def calculate_normalized_measurements_def min_max_values_def i
    by simp
qed

lemma calculate_reputation_scores_code [code]:
  "calculate_reputation_scores t = (if t = [] then Some [] else do {
     normalized \<leftarrow> calculate_normalized_measurements t;
     mm \<leftarrow> min_max_values normalized;
     normalized' \<leftarrow> map_table (normalize mm) normalized;
     map_table (\<lambda>m. map_option (\<lambda>score. (score, get_uptime m)) (calculate_score m)) normalized'
   })"
  using no_reports by (simp add: calculate_reputation_scores_def)

text \<open>The constants of the scores.\<close>

lemma score_constants_code [code]:
  "DEFAULT_REP_QUANTILE = Some (HpUfixed 150000000000000000)"
  "REP_EWMA_WEIGHT = Some (HpUfixed 700000000000000000)"
  by code_simp+

section \<open>A small network\<close>

definition demo_node :: "u256 \<Rightarrow> GenesisNode" where
  "demo_node k = \<lparr>gn_owner = ucast k, gn_primary_public_key = k, gn_consensus_public_key = ucast k,
     gn_primary_domain = V4 0, gn_worker_domain = V4 0, gn_worker_public_key = k,
     gn_ports = NodePorts_default, gn_stake = Staking_default\<lparr>stk_staked := hp_from 5\<rparr>,
     gn_reputation = None, gn_current_epoch_served = None, gn_genesis_committee = True\<rparr>"

definition demo_genesis :: "u256 list \<Rightarrow> Genesis" where
  "demo_genesis ks = \<lparr>ge_chain_id = 7, ge_epoch_start = 0, ge_epoch_time = 100,
     ge_epochs_per_year = 365, ge_committee_size = 2, ge_node_count = 3, ge_min_stake = 1,
     ge_eligibility_time = 1, ge_lock_time = 5, ge_max_inflation = 10, ge_protocol_share = 10,
     ge_node_share = 80, ge_service_builder_share = 10, ge_max_boost = 4, ge_max_lock_time = 40,
     ge_min_num_measurements = 2, ge_node_info = map demo_node ks, ge_service = [],
     ge_account = [\<lparr>ga_public_key = 100, ga_flk_balance = hp_from 50, ga_stables_balance = 0,
       ga_bandwidth_balance = 0\<rparr>],
     ge_client = [], ge_commodity_prices = [], ge_supply_at_genesis = 60,
     ge_protocol_fund_address = 200, ge_governance_address = 201, ge_total_served = [],
     ge_latencies = None, ge_reputation_ping_timeout = 1, ge_topology_target_k = 8,
     ge_topology_min_nodes = 16, ge_commit_phase_duration = 10, ge_reveal_phase_duration = 10,
     ge_non_reveal_slash_amount = 1, ge_total_intervals = 6\<rparr>"

definition demo_state :: "u256 list \<Rightarrow> app_state" where
  "demo_state ks = snd (the (apply_genesis_block (demo_genesis ks) empty_state))"

definition demo_ext :: externals where
  "demo_ext = \<lparr>ext_derive_key = (\<lambda>_ bs. of_nat (length bs)), ext_sha3_256 = be_word,
     ext_shuffle = (\<lambda>_. rev), ext_verify_consensus = (\<lambda>_ _ _. True), ext_verify_node = (\<lambda>_ _ _. True),
     ext_verify_account = (\<lambda>_ _ _. True), ext_eth_hash = et_value, ext_recover_from = (\<lambda>t. Some (et_from t)),
     ext_typed_rlp = et_input, ext_decode_call = (\<lambda>_. None), ext_parse_ip = (\<lambda>_. None),
     ext_show_ip = (\<lambda>_. ''''), ext_encode_hex = (\<lambda>_. '''')\<rparr>"

lemma demo_genesis_ok: "apply_genesis_block (demo_genesis [1, 2]) empty_state = Some (True, demo_state [1, 2])"
proof -
  have "map_option fst (apply_genesis_block (demo_genesis [1, 2]) empty_state) = Some True" by code_simp
  then show ?thesis by (auto simp: demo_state_def)
qed

definition demo_txn :: TransactionRequest where
  "demo_txn = UpdateReq \<lparr>ur_signature = SigAccountOwner 0,
     ur_payload = \<lparr>up_sender = AccountOwner 100, up_nonce = 1, up_method = IncrementNonce, up_chain_id = 7\<rparr>\<rparr>"

definition demo_block :: Block where
  "demo_block = \<lparr>bl_digest = 77, bl_sub_dag_index = 1, bl_sub_dag_round = 1, bl_transactions = [demo_txn]\<rparr>"

lemma demo_txn_verifies:
  "verify_transaction demo_ext (demo_state [1, 2]) demo_txn = Some (Inr (), demo_txn)"
proof -
  have "map_option fst (verify_transaction demo_ext (demo_state [1, 2]) demo_txn) = Some (Inr ())" by code_simp
  then obtain t where t: "verify_transaction demo_ext (demo_state [1, 2]) demo_txn = Some (Inr (), t)"
    by auto
  then have "t = demo_txn" using verify_update_same unfolding demo_txn_def by blast
  then show ?thesis using t by simp
qed

lemma demo_txn_executes:
  "\<exists>s'. execute_transaction demo_ext demo_txn (demo_state [1, 2]) = Some (Success EDNone, s')"
proof -
  have "map_option fst (execute_transaction demo_ext demo_txn (demo_state [1, 2])) = Some (Success EDNone)"
    by code_simp
  then show ?thesis by auto
qed

lemma demo_block_runs: "run_block demo_ext demo_block (demo_state [1, 2]) \<noteq> None"
  by code_simp

text \<open>A run of methods, without verification.\<close>

definition play :: "(TransactionSender \<times> UpdateMethod) list \<Rightarrow> app_state \<Rightarrow> app_state option" where
  "play = for_each (\<lambda>(sender, m) s. map_option snd (execute_method demo_ext sender m s))"

definition demo_round :: "(TransactionSender \<times> UpdateMethod) list" where
  "demo_round = [(NodeMain 1, ChangeEpoch 0),
     (NodeMain 1, CommitteeSelectionBeaconCommit (commit_build demo_ext 0 0 9)),
     (NodeMain 1, CommitteeSelectionBeaconCommitPhaseTimeout 0 0),
     (NodeMain 1, CommitteeSelectionBeaconReveal 9)]"

definition demo_reveal_state :: app_state where
  "demo_reveal_state = the (play demo_round (demo_state [1]))"

lemma demo_reveal_epoch: "get_epoch demo_reveal_state = 0"
  by code_simp

lemma demo_epoch_change:
  "map_option (\<lambda>(r, s). (r, get_epoch s)) (execute_method demo_ext (NodeMain 1)
     (CommitteeSelectionBeaconRevealPhaseTimeout 0 0) demo_reveal_state) = Some (Success EpochChange, 1)"
  by code_simp

section \<open>A state written out\<close>

text \<open>Two nodes, with the indexes 0 and 1 and the keys 1 and 2, and one account.\<close>

definition toy_node :: "NodePublicKey \<Rightarrow> NodeInfo" where
  "toy_node k = \<lparr>ni_owner = ucast k, ni_public_key = k, ni_consensus_key = ucast k, ni_staked_since = 0,
     ni_stake = Staking_default\<lparr>stk_staked := hp_from 5\<rparr>, ni_domain = V4 0, ni_worker_domain = V4 0,
     ni_ports = NodePorts_default, ni_worker_public_key = k, ni_participation = PTrue, ni_nonce = 0\<rparr>"

definition toy_committee :: Committee where
  "toy_committee = Committee_default\<lparr>com_members := [0, 1], com_active_node_set := [0, 1]\<rparr>"

definition toy_state :: app_state where
  "toy_state = empty_state\<lparr>
     st_metadata := [(Metadata.Epoch, Value.Epoch 0), (Metadata.BlockNumber, Value.BlockNumber 0),
       (Metadata.NextNodeIndex, Value.NextNodeIndex 2), (Metadata.GovernanceAddress, AccountPublicKey 201),
       (Metadata.TotalSupply, VHpUfixed (hp_from 60)), (Metadata.ChainId, Value.ChainId 7)],
     st_account_info := [(100, AccountInfo_default\<lparr>acc_flk_balance := hp_from 50\<rparr>)],
     st_node_info := [(0, toy_node 1), (1, toy_node 2)],
     st_pub_key_to_index := [(1, 0), (2, 1)], st_consensus_key_to_index := [(1, 0), (2, 1)],
     st_committee_info := [(0, toy_committee)],
     st_parameters := [(ProtocolParamKey.MinimumNodeStake, ProtocolParamValue.MinimumNodeStake 1),
       (ProtocolParamKey.NodeCount, ProtocolParamValue.NodeCount 1),
       (ProtocolParamKey.CommitteeSize, ProtocolParamValue.CommitteeSize 1),
       (ProtocolParamKey.LockTime, ProtocolParamValue.LockTime 5),
       (ProtocolParamKey.MaxStakeLockTime, ProtocolParamValue.MaxStakeLockTime 40),
       (ProtocolParamKey.MaxBoost, ProtocolParamValue.MaxBoost 4),
       (ProtocolParamKey.EpochTime, ProtocolParamValue.EpochTime 100),
       (ProtocolParamKey.CommitteeSelectionBeaconCommitPhaseDuration,
         ProtocolParamValue.CommitteeSelectionBeaconCommitPhaseDuration 10),
       (ProtocolParamKey.CommitteeSelectionBeaconRevealPhaseDuration,
         ProtocolParamValue.CommitteeSelectionBeaconRevealPhaseDuration 10),
       (ProtocolParamKey.TotalTimeIntervals, ProtocolParamValue.TotalTimeIntervals 6)]\<rparr>"

text \<open>What the simplifier needs to compute with it.\<close>

lemmas toy_defs = toy_state_def empty_state_def guard_defs has_sufficient_stake_def get_min_stake_def
  tbl_get_def toy_node_def hp_from_def scale_def Staking_default_def HpUfixed_arith_defs
  is_participating_def get_epoch_def toy_committee_def Committee_default_def quorum_def set_defs
  tbl_set_def beacon_phase_def

text \<open>A job with a given hash, and the network with one job that is assigned to node 0.\<close>

definition toy_job :: "u256 \<Rightarrow> Job" where
  "toy_job h = \<lparr>job_hash = h, job_info = \<lparr>jf_frequency = 1, jf_amount = 1, jf_service = 0, jf_arguments = []\<rparr>,
     job_status = None, job_assignee = None\<rparr>"

definition toy_jobs_state :: app_state where
  "toy_jobs_state = toy_state\<lparr>st_jobs := [(3, (toy_job 3)\<lparr>job_assignee := Some 0\<rparr>)],
     st_assigned_jobs := [(0, [3])]\<rparr>"

lemma toy_participating: "participating_nodes toy_state = {0, 1}"
  by code_simp

lemma toy_jobs_participating: "participating_nodes toy_jobs_state = {0, 1}"
  by code_simp

lemma toy_jobs_ok: "jobs_ok toy_state" "jobs_ok toy_jobs_state"
  by (auto simp: jobs_ok_def toy_jobs_state_def toy_state_def empty_state_def tbl_wf_def tbl_get_def toy_job_def)

lemma demo_shuffle: "shuffle_permutes demo_ext"
  by (simp add: shuffle_permutes_def demo_ext_def)

text \<open>The network at the end of an epoch in which node 0 served for 10 USDC.\<close>

definition toy_paying_state :: app_state where
  "toy_paying_state = toy_state\<lparr>
     st_metadata := [(Metadata.SupplyYearStart, VHpUfixed (hp_from 60)),
       (Metadata.ProtocolFundAddress, AccountPublicKey 200)] @ st_metadata toy_state,
     st_parameters := [(ProtocolParamKey.EpochsPerYear, ProtocolParamValue.EpochsPerYear 365),
       (ProtocolParamKey.MaxInflation, ProtocolParamValue.MaxInflation 10),
       (ProtocolParamKey.NodeShare, ProtocolParamValue.NodeShare 80),
       (ProtocolParamKey.ServiceBuilderShare, ProtocolParamValue.ServiceBuilderShare 10),
       (ProtocolParamKey.ProtocolShare, ProtocolParamValue.ProtocolShare 10)] @ st_parameters toy_state,
     st_current_epoch_served := [(0, \<lparr>ns_served = [4], ns_stables_revenue = hp_from 10\<rparr>)],
     st_total_served := [(0, \<lparr>ts_served = [4], ts_reward_pool = hp_from 10\<rparr>)]\<rparr>"

lemma toy_paying: "distribute_rewards toy_paying_state \<noteq> None"
  by code_simp

text \<open>A report of a node's uptime.\<close>

definition toy_report :: "int \<Rightarrow> WeightedReputationMeasurements" where
  "toy_report u = \<lparr>wrm_measurements = \<lparr>rm_latency = None, rm_interactions = None,
     rm_inbound_bandwidth = None, rm_outbound_bandwidth = None, rm_bytes_received = None,
     rm_bytes_sent = None, rm_uptime = Some (sfrom u), rm_hops = None\<rparr>, wrm_weight = 50\<rparr>"

text \<open>
  An Ethereum transaction, and serializers that keep the value of an Ethereum transaction and the nonce
  of a Fleek request.
\<close>

definition toy_eth :: EthersTransaction where
  "toy_eth = \<lparr>et_hash = 0, et_nonce = 1, et_from = 100, et_to = Some 9, et_value = 3, et_input = [],
     et_chain_id = None, et_v = 0, et_r = 0, et_s = 0\<rparr>"

definition toy_codecs :: codecs where
  "toy_codecs = \<lparr>cdc_bincode = (\<lambda>r. be_bytes 8 (up_nonce (ur_payload r))), 
     cdc_unbincode = (\<lambda>bs. Some \<lparr>ur_signature = SigAccountOwner 0, ur_payload = \<lparr>up_sender = AccountOwner 100,
       up_nonce = be_word bs, up_method = IncrementNonce, up_chain_id = 7\<rparr>\<rparr>),
     cdc_rlp = (\<lambda>t. be_bytes 32 (et_value t)), cdc_unrlp = (\<lambda>bs. Some (toy_eth\<lparr>et_value := be_word bs\<rparr>))\<rparr>"

end
