(* ===== verification/Spec2Isabelle.thy ===== *)
theory Spec2Isabelle
  imports Genesis_Safety Replay Conservation Blocks Block_Codec Signing Beacon_Liveness Epochs Locks
    Content_Safety Examples
begin

text \<open>
  Lightning is the node of the Fleek network. Its nodes agree on a sequence of blocks, and every node
  executes them on the same state: accounts, staked nodes, committees, reputation, content, jobs. This
  development models that replicated state machine, from the bytes of a block to the tables after it,
  and proves what holds of every state it can reach.

  \<^bold>\<open>The parts and how they interact.\<close> A block arrives from consensus; its transactions were checked by
  the validator of the consensus worker. \<^verbatim>\<open>core/application/src/env.rs\<close> runs it: each transaction is
  verified and executed by \<^verbatim>\<open>core/application/src/state/executor.rs\<close>, which dispatches to one handler per
  method. The handlers read and write tables. Some of them, in \<^verbatim>\<open>state/executor/epoch_change.rs\<close>, drive
  a commit-reveal protocol among the committee; when it completes, the epoch changes: reputation is
  scored, rewards are paid, the content of nodes that left is dropped, the auction picks the active
  nodes, a committee is drawn from them, and the jobs are assigned anew. The genesis block seeds the
  state.

  \<^bold>\<open>Which theory models which part.\<close>

  \<^item> \<open>Prelude\<close>: the words of the source, options, loops that can panic (\<open>for_each\<close>).
  \<^item> \<open>Tables\<close>: the interface \<^verbatim>\<open>TableRef\<close> of \<^verbatim>\<open>state/context.rs\<close> as the locale \<open>table_ref\<close>, interpreted on the
    association lists of the model (\<open>tbl\<close>).
  \<^item> \<open>HpFixed\<close>: the fixed-point numbers of \<^verbatim>\<open>lib/hp-fixed\<close>; the precision is a phantom type, the unsigned
    ones are 256-bit words that wrap, the signed ones are unbounded.
  \<^item> \<open>Types\<close>, \<open>State\<close>: the data of \<^verbatim>\<open>core/types\<close> and the state, one record field per table, with the guards
    that the handlers share. Record fields carry a prefix (\<open>acc_\<close>, \<open>ni_\<close>, \<open>stk_\<close>, \<open>com_\<close>, \<open>st_\<close> and so on).
  \<^item> \<open>Externals\<close>: third-party code (hashes, signature checks, the seeded shuffle, ABI decoding) as the
    record \<open>externals\<close>, the first argument of what uses it. The only law relied on is \<open>shuffle_permutes\<close>.
  \<^item> \<open>Ledger\<close>, \<open>Staking\<close>, \<open>Auction\<close>, \<open>Content_Registry\<close>, \<open>Jobs\<close>: the handlers of \<^verbatim>\<open>executor.rs\<close>.
  \<^item> \<open>Reputation\<close>, \<open>Scores\<close>: \<^verbatim>\<open>core/reputation\<close> and its use by the executor.
  \<^item> \<open>Rewards\<close>, \<open>Beacon\<close>, \<open>Epoch_Change\<close>: \<^verbatim>\<open>epoch_change.rs\<close>.
  \<^item> \<open>Transcript\<close>, \<open>Execution\<close>: \<^verbatim>\<open>lib/ink-quill\<close>, the digests of \<^verbatim>\<open>core/types/src/transaction.rs\<close>, the
    verification and execution of transactions, and blocks (\<^verbatim>\<open>env.rs\<close>).
  \<^item> \<open>Genesis\<close>, \<open>Block_Codec\<close>: the genesis block; the encoding of blocks and the consensus validator.

  A handler is a function from its arguments and the state to the response and the new state. A panic
  of the source (\<^verbatim>\<open>unwrap\<close>, \<^verbatim>\<open>expect\<close>, \<^verbatim>\<open>unreachable!\<close>, a division by zero, an index out of range) is
  \<open>None\<close>, an \<open>ExecutionError\<close> is a \<open>Revert\<close>, a \<^verbatim>\<open>Result\<close> is a sum. Arithmetic is that of a release build.

  \<^bold>\<open>What the lemmas show.\<close>

  \<^item> \<open>Chain\<close> defines the states that blocks reach (\<open>reachable\<close>, with the number of transactions run) and
    gives, as locales, what a proof about every reachable state needs: \<open>block_invariant\<close> for an invariant
    and \<open>block_budget\<close> for one that holds while a counter does not wrap; \<open>restricted_history\<close> is the latter
    for blocks whose methods satisfy a condition. The locales are interpreted on
    the beacon (\<open>Beacon_Safety\<close>), the content registry (\<open>Content_Safety\<close>), the node registry (\<open>Registry\<close>),
    the nonces (\<open>Replay\<close>), the block number (\<open>Blocks\<close>) and the lock of unstaked tokens (\<open>Locks\<close>). \<open>Frames\<close> and \<open>Projections\<close> say what each
    handler leaves alone. \<open>Genesis_Safety\<close> shows that the genesis establishes the invariants.
  \<^item> \<open>Epochs\<close> and \<open>Beacon_Liveness\<close>: when the epoch advances, and that the commit phase ends.
  \<^item> \<open>Conservation\<close>, \<open>Accounts\<close>, \<open>Locks\<close>, \<open>Rewards\<close>: where FLK comes from and goes to, and how long it is locked.
  \<^item> \<open>Auction\<close>, \<open>Epoch_Change\<close>, \<open>Jobs\<close>, \<open>Reputation\<close>: the algorithms are correct and return.
  \<^item> \<open>Signing\<close>, \<open>Block_Codec\<close>: what a signature covers, and the round trip of the encoding.
  \<^item> \<open>Examples\<close>: a small network for the witnesses.

  The properties below are the main results. Some of them state defects of the code: a transaction
  that stops every block it is in, locks that wrap around, a stale job assignment, panics on input. Some
  contradict the documentation: a comment and the README of \<^verbatim>\<open>core/committee-beacon\<close> have the last reveal
  change the epoch, while in the code only a quorum of timeouts of the reveal phase does.

  \<^bold>\<open>Bounds and fuel.\<close> No definition takes fuel: the loops are folds over lists, and the one recursion
  that is not structural, the quickselect of the auction, is a partial function that is proved to return.
  Where a counter of the source may wrap, the property bounds the number of transactions: fewer than
  \<open>2^32\<close> node indexes and \<open>2^64\<close> nonces and epochs. The reports of one node are counted without a bound,
  in the source in 32 bits.

  \<^bold>\<open>Not modelled.\<close> The state tree with its roots and proofs and the database below it (\<^verbatim>\<open>lib/merklize\<close>,
  \<^verbatim>\<open>lib/atomo\<close>): the model has the tables only. Read-only queries and the JSON-RPC servers. The consensus
  protocol, the networking, the storage and transfer of content, hash trees, the services and the
  runtime: asynchronous code over third-party libraries, outside the state machine. The nodes that
  react to the phases of the beacon (\<^verbatim>\<open>core/committee-beacon\<close>): their transactions are modelled, their
  timers are not. Signature schemes and serializers are parameters. Formatting and metrics have no
  effect on the state. The order in which a hash map is iterated is unspecified in the source and
  that of insertion here.
\<close>

section \<open>A history\<close>

text \<open>The history the witnesses use: one block with one transaction, after a genesis of two nodes.\<close>

lemma demo_history: "\<exists>s. reachable demo_ext (demo_state [1, 2]) 1 s"
proof -
  obtain resp s' where "run_block demo_ext demo_block (demo_state [1, 2]) = Some (resp, s')"
    using demo_block_runs by auto
  from reachable.block[OF reachable.start this] show ?thesis by (auto simp: demo_block_def)
qed

section \<open>Every reachable state\<close>

text \<open>
  C2. In every state that blocks reach from a genesis, the committee selection beacon
  is consistent: the phase belongs to the current epoch; outside a phase fewer than a quorum of
  members have signalled and nothing is committed; in the commit phase a quorum has signalled, fewer
  than a quorum have timed out and nothing is revealed; in the reveal phase there is a commit, and
  every recorded reveal hashes to its commit at this epoch and round; every commit is of a member
  that is not barred from the round.
\<close>

theorem beacon_invariant:
  assumes "apply_genesis_block g empty_state = Some (True, s0)" and "reachable ext s0 n s"
  shows "beacon_ok ext s"
  using beacon_inv.reachable_keeps[OF assms(2)] genesis_establishes[OF assms(1)] by blast

theorem beacon_invariant_witness:
  "\<exists>s. reachable demo_ext (demo_state [1, 2]) 1 s \<and> beacon_ok demo_ext s"
  using beacon_invariant[OF demo_genesis_ok] demo_history by blast

text \<open>
  C4. In every reachable state the two tables of the content registry mirror each
  other: a node is listed as a provider of a content exactly when the content is listed for the node.
\<close>

theorem content_mirrored:
  assumes "apply_genesis_block g empty_state = Some (True, s0)" and "reachable ext s0 n s"
  shows "i \<in> providers s uri \<longleftrightarrow> uri \<in> uris_provided s i"
  using content_inv.reachable_keeps[OF assms(2)] genesis_establishes[OF assms(1)]
  unfolding content_ok_def by blast

theorem content_mirrored_witness:
  "\<exists>s. reachable demo_ext (demo_state [1, 2]) 1 s \<and> (0 \<in> providers s 5 \<longleftrightarrow> 5 \<in> uris_provided s 0)"
  using content_mirrored[OF demo_genesis_ok] demo_history by blast

text \<open>
  C3. When the genesis lists its nodes with different keys, in every reachable
  state a node's public key and consensus key are indexed to that node and every index entry
  belongs to a node with that key, so the three tables have the same size. The node index is a
  32-bit counter: the nodes of the genesis and the transactions run so far are fewer than \<open>2^32\<close>.
\<close>

theorem registry_consistent:
  assumes "apply_genesis_block g empty_state = Some (True, s0)" and "reachable ext s0 n s"
    and "distinct (map gn_primary_public_key (ge_node_info g))"
      "distinct (map gn_consensus_public_key (ge_node_info g))"
    and "length (ge_node_info g) + n < 2 ^ 32"
  shows "registry_ok s \<and> length (tbl_keys (st_node_info s)) = length (tbl_keys (st_pub_key_to_index s)) \<and>
    length (tbl_keys (st_node_info s)) = length (tbl_keys (st_consensus_key_to_index s))"
proof -
  have "room_for (0 + n) s0" using genesis_registry[OF assms(1,3,4), of n] assms(5) by simp
  then have "room_for 0 s" by (rule registry_room.reachable_uses[OF assms(2)])
  then have "registry_ok s" by (simp add: room_for_def registry_inv_def)
  then show ?thesis using registry_ok_sizes by blast
qed

theorem registry_consistent_witness:
  "\<exists>s. reachable demo_ext (demo_state [1, 2]) 1 s \<and> registry_ok s"
  using registry_consistent[OF demo_genesis_ok] demo_history
  by (fastforce simp: demo_genesis_def demo_node_def)

text \<open>
  C1. A transaction that passed verification and was executed is rejected in
  every later state, in its own epoch and in every other: its nonce is used up. Node indexes and
  nonces are words, and neither may wrap over the \<open>k\<close> transactions in between.
\<close>

theorem executed_never_again:
  assumes "registry_inv s" and "unat (next_node_index s) + k + 2 < 2 ^ 32"
    and "verify_transaction ext s txn = Some (Inr (), txn')"
    and "execute_transaction ext txn' s = Some (r, s')"
    and "txn_nonce txn = Some n" "unat n + k + 1 < 2 ^ 64"
    and "reachable ext s' k s''"
  shows "verify_transaction ext s'' txn \<noteq> Some (Inr (), txn'')"
  by (rule no_replay[OF assms])

theorem executed_never_again_witness:
  "\<exists>s'. execute_transaction demo_ext demo_txn (demo_state [1, 2]) = Some (Success EDNone, s') \<and>
    verify_transaction demo_ext s' demo_txn \<noteq> Some (Inr (), demo_txn)"
proof -
  obtain s' where s': "execute_transaction demo_ext demo_txn (demo_state [1, 2]) = Some (Success EDNone, s')"
    using demo_txn_executes by blast
  have "room_for 2 (demo_state [1, 2])"
    by (rule genesis_registry[OF demo_genesis_ok]) (simp_all add: demo_genesis_def demo_node_def)
  then have r: "registry_inv (demo_state [1, 2])" "unat (next_node_index (demo_state [1, 2])) + 0 + 2 < 2 ^ 32"
    by (simp_all add: room_for_def)
  have "txn_nonce demo_txn = Some 1" by (simp add: txn_nonce_def demo_txn_def)
  from executed_never_again[OF r demo_txn_verifies s' this _ reachable.start] s' show ?thesis by auto
qed



text \<open>
  C27. The genesis block starts epoch 0 in era 0 with consistent content and job
  tables, and applying a genesis block again changes nothing.
\<close>

theorem genesis_invariants:
  assumes "apply_genesis_block g empty_state = Some (True, s)"
  shows "content_ok s \<and> jobs_ok s \<and> beacon_ok ext s \<and> get_epoch s = 0 \<and> get_epoch_era s = 0 \<and>
    apply_genesis_block g' s = Some (False, s)"
  using genesis_establishes[OF assms] genesis_once[OF assms] by blast

theorem genesis_invariants_witness:
  "apply_genesis_block (demo_genesis [3]) (demo_state [1, 2]) = Some (False, demo_state [1, 2])"
  using genesis_invariants[OF demo_genesis_ok] by blast

section \<open>The auction\<close>

text \<open>
  C6. The staking auction always returns. It keeps the smaller of \<^verbatim>\<open>NodeCount\<close> and the
  number of candidates, every candidate is either kept or dropped, and no dropped candidate beats a
  kept one in the order of stake and then reputation.
\<close>

theorem auction_keeps_the_best:
  assumes "tbl_get (st_parameters s) ProtocolParamKey.NodeCount = Some (ProtocolParamValue.NodeCount v)"
  shows "\<exists>kept dropped. settle_auction s nodes = Some kept \<and>
    length kept = min (unat v) (length nodes) \<and> mset nodes = mset dropped + mset kept \<and>
    (\<forall>a \<in> set dropped. \<forall>b \<in> set kept.
       stk_staked (ni_stake (snd a)) < stk_staked (ni_stake (snd b)) \<or>
       stk_staked (ni_stake (snd a)) = stk_staked (ni_stake (snd b)) \<and>
         rep_score s (fst a) \<le> rep_score s (fst b))"
proof -
  have cmp: "compare_nodes_in_auction s a b \<longleftrightarrow>
      stk_staked (ni_stake (snd a)) < stk_staked (ni_stake (snd b)) \<or>
      stk_staked (ni_stake (snd a)) = stk_staked (ni_stake (snd b)) \<and>
        rep_score s (fst a) \<le> rep_score s (fst b)" for a b
    by (auto simp: compare_nodes_in_auction_def Let_def)
  show ?thesis using settle_auction_keeps[OF assms, of nodes] unfolding cmp .
qed

theorem auction_keeps_the_best_witness:
  "\<exists>kept. settle_auction (empty_state\<lparr>st_parameters :=
      [(ProtocolParamKey.NodeCount, ProtocolParamValue.NodeCount 2)]\<rparr>)
      [(0, toy_node 1), (1, toy_node 2), (2, toy_node 3)] = Some kept \<and> length kept = 2"
  using auction_keeps_the_best[of "empty_state\<lparr>st_parameters :=
      [(ProtocolParamKey.NodeCount, ProtocolParamValue.NodeCount 2)]\<rparr>" 2
      "[(0, toy_node 1), (1, toy_node 2), (2, toy_node 3)]"]
  by (auto simp: tbl_get_def)

section \<open>The committee beacon and the epoch change\<close>

text \<open>
  C5. The epoch advances only by the timeout of the reveal phase: the phase is the
  one the signal names, with this signal a quorum of the committee has signalled, every node that
  committed has revealed, and the epoch goes up by one with the phase and the beacons cleared. No
  other method changes the epoch; in particular a reveal does not, even the last one. The comment above
  \<^verbatim>\<open>committee_selection_beacon_reveal\<close> and the README of \<^verbatim>\<open>core/committee-beacon\<close> say that the epoch change
  is executed once all nodes that committed have revealed: the code does not do that.
\<close>

theorem epoch_advances_only:
  assumes "execute_method ext sender m s = Some (r, s')" and "get_epoch s' \<noteq> get_epoch s"
  shows "\<exists>e k. m = CommitteeSelectionBeaconRevealPhaseTimeout e k \<and>
    beacon_phase s = Some (Reveal (e, k)) \<and>
    Suc (length (com_signalled_reveal_phase_timeout (current_committee s))) =
      quorum (com_members (current_committee s)) \<and>
    list_all (\<lambda>(_, _, reveal). reveal \<noteq> None) (st_committee_selection_beacon s) \<and>
    r = Success EpochChange \<and> get_epoch s' = get_epoch s + 1 \<and> beacon_phase s' = None \<and>
    (\<forall>i. tbl_get (st_committee_selection_beacon s') i = None)"
  by (rule epoch_advances[OF assms])

theorem epoch_advances_only_witness:
  "\<exists>s'. execute_method demo_ext (NodeMain 1) (CommitteeSelectionBeaconRevealPhaseTimeout 0 0)
      demo_reveal_state = Some (Success EpochChange, s') \<and> get_epoch s' = 1 \<and> beacon_phase s' = None \<and>
    beacon_phase demo_reveal_state = Some (Reveal (0, 0))"
proof -
  obtain s' where s': "execute_method demo_ext (NodeMain 1) (CommitteeSelectionBeaconRevealPhaseTimeout 0 0)
      demo_reveal_state = Some (Success EpochChange, s')" "get_epoch s' = 1"
    using demo_epoch_change by auto
  have "get_epoch s' \<noteq> get_epoch demo_reveal_state" using s'(2) demo_reveal_epoch by simp
  from epoch_advances_only[OF s'(1) this] s' show ?thesis by auto
qed

text \<open>
  C7. The committee chosen at an epoch change: its active nodes are different
  participating nodes, as many as \<^verbatim>\<open>NodeCount\<close> allows, and its members are different active
  nodes, as many as the committee size allows. The shuffle is assumed to permute its input.
\<close>

theorem new_committee_sound:
  assumes "choose_new_committee ext b s = Some (c, s')" and "shuffle_permutes ext"
    and "tbl_wf (st_node_info s)"
  shows "\<exists>csize count. get_committee_size s = Some csize \<and>
    tbl_get (st_parameters s) ProtocolParamKey.NodeCount = Some (ProtocolParamValue.NodeCount count) \<and>
    set (com_members c) \<subseteq> set (com_active_node_set c) \<and>
    set (com_active_node_set c) \<subseteq> participating_nodes s \<and>
    distinct (com_members c) \<and> distinct (com_active_node_set c) \<and>
    length (com_active_node_set c) = min (unat count) (card (participating_nodes s)) \<and>
    length (com_members c) = min (unat csize) (length (com_active_node_set c))"
  by (rule new_committee[OF assms])

theorem new_committee_sound_witness:
  "\<exists>c s'. choose_new_committee demo_ext [] toy_state = Some (c, s') \<and>
    distinct (com_members c) \<and> set (com_members c) \<subseteq> participating_nodes toy_state"
proof -
  have "choose_new_committee demo_ext [] toy_state \<noteq> None" by code_simp
  then obtain c s' where c: "choose_new_committee demo_ext [] toy_state = Some (c, s')" by auto
  have "shuffle_permutes demo_ext" by (simp add: shuffle_permutes_def demo_ext_def)
  moreover have "tbl_wf (st_node_info toy_state)" by (simp add: toy_state_def tbl_wf_def)
  ultimately show ?thesis using new_committee_sound[OF c] c by blast
qed

text \<open>
  C8. The commit phase ends: when a quorum of different committee members with enough
  stake signal the timeout, in any order and one after the other, every signal is accepted and the
  last one leaves the phase. It goes on to the reveal phase of the same round when more than two
  thirds of the participating members have committed, and to the commit phase of the next round
  otherwise.
\<close>

theorem commit_phase_ends:
  assumes "beacon_phase s = Some (Commit (get_epoch s, r))"
    and "com_signalled_commit_phase_timeout (current_committee s) = []"
    and "list_all2 (\<lambda>x i. only_node_with_sufficient_stake s x = Some (Inr i)) xs is"
    and "distinct is" "set is \<subseteq> set (com_members (current_committee s))"
    and "length is = quorum (com_members (current_committee s))"
  shows "\<exists>s'. commit_timeouts xs (get_epoch s) r s = Some s' \<and> beacon_phase s' =
    (if length (committee_beacons s) > 2 * length (participating_committee_members s) div 3
     then Some (Reveal (get_epoch s, r)) else Some (Commit (get_epoch s, r + 1)))"
proof -
  have w: "waiting s [] s" using assms(2) by (simp add: waiting_def)
  have "is \<noteq> []" using assms(6) by (auto simp: quorum_def)
  then show ?thesis using commit_timeouts_end[OF assms(1,3) w] assms(4-6) by simp
qed

theorem commit_phase_ends_witness:
  "\<exists>s'. commit_timeouts [NodeMain 2, NodeMain 1] 0 0
      (set_committee_selection_beacon_commit_phase 0 0 toy_state) = Some s' \<and>
    beacon_phase s' = Some (Commit (0, 1))"
proof -
  let ?s = "set_committee_selection_beacon_commit_phase 0 0 toy_state"
  note d = toy_defs set_committee_selection_beacon_commit_phase_def current_committee_def
  have e: "get_epoch toy_state = 0" by (simp add: d)
  have "beacon_phase ?s = Some (Commit (get_epoch ?s, 0))"
    "com_signalled_commit_phase_timeout (current_committee ?s) = []"
    "list_all2 (\<lambda>x i. only_node_with_sufficient_stake ?s x = Some (Inr i)) [NodeMain 2, NodeMain 1] [1, 0]"
    "distinct [1, 0 :: NodeIndex]" "set [1, 0] \<subseteq> set (com_members (current_committee ?s))"
    "length [1, 0 :: NodeIndex] = quorum (com_members (current_committee ?s))"
    by (simp_all add: d)
  note ended = commit_phase_ends[OF this]
  have "committee_beacons ?s = []" by (simp add: committee_beacons_def tbl_as_map_def d)
  then show ?thesis using ended by (simp add: e)
qed

text \<open>
  C13. A signal to change the epoch is accepted only from a staked participating
  committee member, once, and for the current epoch; the commit phase of round 0 starts exactly when
  the signals reach a quorum. A rejected signal changes nothing.
\<close>

theorem change_epoch_signal:
  assumes "change_epoch sender epoch s = Some (r, s')"
  shows "(\<not> is_success r \<and> s' = s) \<or>
    (\<exists>i. r = Success EDNone \<and> epoch = get_epoch s \<and>
      only_node_with_sufficient_stake_and_participating s sender = Some (Inr i) \<and>
      i \<in> set (com_members (current_committee s)) \<and>
      i \<notin> set (com_ready_to_change (current_committee s)) \<and>
      com_ready_to_change (current_committee s') = com_ready_to_change (current_committee s) @ [i] \<and>
      beacon_phase s' = (if Suc (length (com_ready_to_change (current_committee s))) =
          quorum (com_members (current_committee s))
        then Some (Commit (epoch, 0)) else beacon_phase s))"
  using change_epoch_cases[OF assms]
  by (auto simp: Let_def current_committee_def)

theorem change_epoch_signal_witness:
  "\<exists>s'. change_epoch (NodeMain 1) 0 toy_state = Some (Success EDNone, s') \<and>
    com_ready_to_change (current_committee s') = [0] \<and> beacon_phase s' = None"
proof -
  have "\<exists>s'. change_epoch (NodeMain 1) 0 toy_state = Some (Success EDNone, s')"
    by (simp add: change_epoch_def toy_defs)
  then obtain s' where s': "change_epoch (NodeMain 1) 0 toy_state = Some (Success EDNone, s')" by blast
  from change_epoch_signal[OF this] s' show ?thesis
    by (auto simp: toy_defs current_committee_def)
qed

text \<open>
  C14. A reveal is accepted only in the reveal phase, from a committee member that has
  committed and not revealed, and only when it hashes to the commit for this epoch and round; nothing
  but that node's entry changes. This contradicts the comment above the function and the README of
  \<^verbatim>\<open>core/committee-beacon\<close>, by which the last reveal executes the epoch change: the state after the last
  reveal is still in the reveal phase of the same epoch.
\<close>

theorem reveal_opens_commit:
  assumes "committee_selection_beacon_reveal ext sender reveal s = Some (r, s')" and "is_success r"
  shows "\<exists>i pe round. i \<in> set (com_members (current_committee s)) \<and>
    only_node_with_sufficient_stake_and_participating s sender = Some (Inr i) \<and>
    beacon_phase s = Some (Reveal (pe, round)) \<and>
    tbl_get (st_committee_selection_beacon s) i = Some (commit_build ext (get_epoch s) round reveal, None) \<and>
    s' = s\<lparr>st_committee_selection_beacon := tbl_set (st_committee_selection_beacon s) i
      (commit_build ext (get_epoch s) round reveal, Some reveal)\<rparr> \<and>
    get_epoch s' = get_epoch s \<and> beacon_phase s' = beacon_phase s"
proof -
  obtain i pe round where "i \<in> set (com_members (current_committee s))"
      "only_node_with_sufficient_stake_and_participating s sender = Some (Inr i)"
      "beacon_phase s = Some (Reveal (pe, round))"
      "tbl_get (st_committee_selection_beacon s) i = Some (commit_build ext (get_epoch s) round reveal, None)"
    and s': "s' = s\<lparr>st_committee_selection_beacon := tbl_set (st_committee_selection_beacon s) i
      (commit_build ext (get_epoch s) round reveal, Some reveal)\<rparr>"
    using reveal_cases[OF assms(1)] assms(2) by blast
  moreover have "get_epoch s' = get_epoch s" "beacon_phase s' = beacon_phase s"
    by (simp_all add: s' get_epoch_def beacon_phase_def)
  ultimately show ?thesis by blast
qed

theorem reveal_opens_commit_witness:
  "\<exists>s'. committee_selection_beacon_reveal demo_ext (NodeMain 1) 9
      ((set_committee_selection_beacon_reveal_phase 0 0 toy_state)\<lparr>st_committee_selection_beacon :=
         [(0, (commit_build demo_ext 0 0 9, None))]\<rparr>) = Some (Success EDNone, s') \<and>
    tbl_get (st_committee_selection_beacon s') 0 = Some (commit_build demo_ext 0 0 9, Some 9)"
proof -
  let ?s = "(set_committee_selection_beacon_reveal_phase 0 0 toy_state)\<lparr>st_committee_selection_beacon :=
         [(0, (commit_build demo_ext 0 0 9, None))]\<rparr>"
  have "\<exists>s'. committee_selection_beacon_reveal demo_ext (NodeMain 1) 9 ?s = Some (Success EDNone, s')"
    by (simp add: committee_selection_beacon_reveal_def set_committee_selection_beacon_reveal_phase_def toy_defs)
  then obtain s' where s': "committee_selection_beacon_reveal demo_ext (NodeMain 1) 9 ?s =
    Some (Success EDNone, s')" by blast
  from reveal_opens_commit[OF this] s' show ?thesis
    by (auto simp: toy_defs set_committee_selection_beacon_reveal_phase_def)
qed

section \<open>Jobs\<close>



text \<open>
  C20. Removing jobs and updating their status keep the jobs and the per-node assignments
  consistent; a removed job is neither stored nor assigned.
\<close>

theorem jobs_kept:
  assumes "jobs_ok s" and "remove_jobs hs s = (r, s1)" and "update_jobs us s1 = (r', s2)"
  shows "jobs_ok s1 \<and> jobs_ok s2 \<and>
    (\<forall>h \<in> set hs. tbl_get (st_jobs s1) h = None \<and> (\<forall>i. h \<notin> set (assigned_to s1 i)))"
proof -
  have ok: "jobs_ok s1" by (rule remove_jobs_ok[OF assms(1,2)])
  have "tbl_get (st_jobs s1) h = None" if "h \<in> set hs" for h
    using removed_jobs[OF that, of s] assms(2) by (simp add: remove_jobs_def)
  then show ?thesis using ok update_jobs_ok[OF ok assms(3)] by (simp add: jobs_ok_def)
qed

theorem jobs_kept_witness:
  "\<exists>s1. remove_jobs [3] toy_jobs_state = (Success EDNone, s1) \<and> jobs_ok s1 \<and>
    tbl_get (st_jobs s1) 3 = None"
proof -
  obtain s1 where r: "remove_jobs [3] toy_jobs_state = (Success EDNone, s1)" by (simp add: remove_jobs_def)
  moreover have "update_jobs [] s1 = (Success EDNone, s1)" by (simp add: update_jobs_def)
  ultimately show ?thesis using jobs_kept[OF toy_jobs_ok(2) r] by simp
qed

text \<open>
  C34. With no participating node, adding a job does not return: the assignment divides
  the jobs among an empty list of nodes.
\<close>

theorem jobs_without_nodes:
  assumes "shuffle_permutes ext" and "participating_nodes s = {}" and "jl \<noteq> []"
  shows "add_jobs ext jl s = None"
  by (rule add_jobs_panics[OF assms])

theorem jobs_without_nodes_witness: "add_jobs demo_ext [toy_job 3] empty_state = None"
  using jobs_without_nodes[of demo_ext empty_state "[toy_job 3]"]
  by (simp add: demo_ext_def shuffle_permutes_def participating_nodes_def get_node_registry_def
      empty_state_def tbl_keys_def List.map_filter_simps)

text \<open>
  C33. Adding a job under the hash of a stored and assigned job is accepted and assigns the
  job to a participating node without dropping the first assignment: the hash is appended to the list
  of the new assignee, every other list stays as it was, and so the old assignee's list still has the
  hash. Afterwards the job is listed for a node that is not its assignee, or twice for the same node.
\<close>

theorem job_added_twice:
  assumes "shuffle_permutes ext" and "jobs_ok s" and "participating_nodes s \<noteq> {}"
    and "tbl_get (st_jobs s) (job_hash job) = Some job0" "job_assignee job0 = Some i"
  shows "\<exists>s' k. add_jobs ext [job] s = Some (Success EDNone, s') \<and> k \<in> participating_nodes s \<and>
    tbl_get (st_jobs s') (job_hash job) = Some (job\<lparr>job_assignee := Some k\<rparr>) \<and>
    (\<forall>j. assigned_to s' j = assigned_to s j @ (if j = k then [job_hash job] else [])) \<and>
    job_hash job \<in> set (assigned_to s' i) \<and>
    (k \<noteq> i \<or> 2 \<le> count_list (assigned_to s' i) (job_hash job)) \<and> \<not> jobs_ok s'"
  by (rule job_added_again[OF assms])

theorem job_added_twice_witness:
  "\<exists>s' k. add_jobs demo_ext [toy_job 3] toy_jobs_state = Some (Success EDNone, s') \<and> 3 \<in> set (assigned_to s' 0) \<and>
    (k \<noteq> 0 \<or> 2 \<le> count_list (assigned_to s' 0) 3) \<and>
    tbl_get (st_jobs s') 3 = Some ((toy_job 3)\<lparr>job_assignee := Some k\<rparr>)"
proof -
  have h: "job_hash (toy_job 3) = 3" by (simp add: toy_job_def)
  have j: "tbl_get (st_jobs toy_jobs_state) (job_hash (toy_job 3)) = Some ((toy_job 3)\<lparr>job_assignee := Some 0\<rparr>)"
    "job_assignee ((toy_job 3)\<lparr>job_assignee := Some 0\<rparr>) = Some 0"
    by (simp_all add: toy_jobs_state_def tbl_get_def toy_job_def)
  have "participating_nodes toy_jobs_state \<noteq> {}" by (simp add: toy_jobs_participating)
  from job_added_twice[OF demo_shuffle toy_jobs_ok(2) this j] show ?thesis unfolding h by blast
qed

section \<open>The content registry\<close>

text \<open>
  C10. The content registry implements a relation between nodes and contents. An update
  list is accepted only from a staked participating node, with at most the allowed number of items
  and no content twice; then the relation is the old one with the items applied one after the other
  for that node. A list with one bad item is rejected as a whole and changes nothing.
\<close>

theorem content_updates_refine:
  assumes "update_content_registry sender us s = Some (r, s')"
  shows "(\<not> is_success r \<and> s' = s) \<or>
    (\<exists>i. only_node_with_sufficient_stake_and_participating s sender = Some (Inr i) \<and>
      r = Success EDNone \<and> distinct (map cu_uri us) \<and> length us \<le> MAX_UPDATES_CONTENT_REGISTRY \<and>
      provides s' = fold (apply_update i) us (provides s))"
  by (rule update_content_refines[OF assms])

theorem content_updates_refine_witness:
  "\<exists>s'. update_content_registry (NodeMain 2) [\<lparr>cu_uri = 5, cu_remove = False\<rparr>, \<lparr>cu_uri = 6, cu_remove = False\<rparr>]
      toy_state = Some (Success EDNone, s') \<and> provides s' = {(1, 5), (1, 6)}"
proof -
  let ?us = "[\<lparr>cu_uri = 5, cu_remove = False\<rparr>, \<lparr>cu_uri = 6, cu_remove = False\<rparr>]"
  have "\<exists>s'. update_content_registry (NodeMain 2) ?us toy_state = Some (Success EDNone, s')"
    by (simp add: update_content_registry_def stage_update_def MAX_UPDATES_CONTENT_REGISTRY_def toy_defs)
  then obtain s' where s': "update_content_registry (NodeMain 2) ?us toy_state = Some (Success EDNone, s')"
    by blast
  have "only_node_with_sufficient_stake_and_participating toy_state (NodeMain 2) = Some (Inr 1)"
    "provides toy_state = {}"
    by (simp_all add: toy_defs provides_def)
  with content_updates_refine[OF s'] s' show ?thesis by (auto simp: apply_update_def)
qed

section \<open>Reputation and rewards\<close>

text \<open>
  C15. The reputation computation returns for every set of reports: no division by zero,
  no failed conversion, and one entry per node in the order of the input. The source counts the reports
  of a node in 32 bits, which is the same below \<open>2 ^ 31\<close> of them.
\<close>

theorem reputation_returns:
  "\<exists>scores. calculate_reputation_scores t = Some scores \<and> map fst scores = map fst t"
  by (rule reputation_scores_total)

text \<open>
  C16. When the reported uptimes lie between 0 and 100, every computed score and every
  computed uptime is a percentage. As before, this is for fewer than \<open>2 ^ 31\<close> reports of a node.
\<close>

theorem reputation_percent:
  assumes "\<forall>(k, ms) \<in> set t. uptimes_valid ms"
    and "calculate_reputation_scores t = Some scores" and "(k, (score, uptime)) \<in> set scores"
  shows "(\<forall>p. score = Some p \<longrightarrow> unat p \<le> 100) \<and> (\<forall>p. uptime = Some p \<longrightarrow> unat p \<le> 100)"
  by (rule reputation_scores_percent[OF assms])

theorem reputation_percent_witness:
  "\<exists>score uptime. calculate_reputation_scores [(7, [toy_report 90, toy_report 30])] = Some [(7, (score, uptime))] \<and>
    (\<forall>p. score = Some p \<longrightarrow> unat p \<le> 100) \<and> (\<forall>p. uptime = Some p \<longrightarrow> unat p \<le> 100)"
proof -
  let ?t = "[(7 :: NodeIndex, [toy_report 90, toy_report 30])]"
  obtain scores where s: "calculate_reputation_scores ?t = Some scores" "map fst scores = [7]"
    using reputation_scores_total[of ?t] by auto
  then obtain score uptime where e: "scores = [(7, (score, uptime))]" by (cases scores) auto
  have "\<forall>(k, ms) \<in> set ?t. uptimes_valid ms"
    by (simp add: uptimes_valid_def toy_report_def sfrom_def HpFixed_less_eq)
  from reputation_percent[OF this s(1), of 7 score uptime] s(1) e show ?thesis by simp
qed

text \<open>
  C17. The distribution of rewards records what it mints: the FLK held by accounts and
  nodes grows by exactly as much as the recorded total supply.
\<close>

theorem rewards_recorded:
  assumes "distribute_rewards s = Some s'" and "balance_tables_wf s" and "get_total_supply s = Some x"
  shows "\<exists>x'. get_total_supply s' = Some x' \<and> flk_total s' - flk_total s = x' - x"
proof -
  have "supply_gap (flk_total s - x) s" using assms(2,3) by (simp add: supply_gap_def)
  from distribute_rewards_gap[OF assms(1) this] show ?thesis
    by (auto simp: supply_gap_def algebra_simps)
qed

theorem rewards_recorded_witness:
  "\<exists>s' x'. distribute_rewards toy_paying_state = Some s' \<and> get_total_supply s' = Some x' \<and>
    flk_total s' - flk_total toy_paying_state = x' - hp_from 60"
proof -
  obtain s' where "distribute_rewards toy_paying_state = Some s'" using toy_paying by auto
  moreover have "balance_tables_wf toy_paying_state" "get_total_supply toy_paying_state = Some (hp_from 60)"
    by (simp_all add: toy_paying_state_def toy_state_def balance_tables_wf_def tbl_wf_def get_total_supply_def
        empty_state_def tbl_get_def)
  ultimately show ?thesis using rewards_recorded by blast
qed

text \<open>
  C18. The boost of a locked stake in thousandths: 1 without a lock, growing with the remaining
  lock in proportion to the maximal lock time, and never above the maximal boost. It is exact on the
  naturals, so nothing overflows.
\<close>

theorem boost_bounds:
  assumes "tbl_get (st_parameters s) ProtocolParamKey.MaxBoost = Some (ProtocolParamValue.MaxBoost m)"
    and "tbl_get (st_parameters s) ProtocolParamKey.MaxStakeLockTime =
      Some (ProtocolParamValue.MaxStakeLockTime l)"
    and "0 < unat m" and "0 < unat l"
  shows "\<exists>b. get_boost s locked_until epoch = Some b \<and>
    unat (get_value b) = min (unat m * 1000)
      (1000 + (unat m - 1) * ((unat locked_until - unat epoch) * 1000 div unat l))"
  by (rule get_boost_value[OF assms])

theorem boost_bounds_witness: "\<exists>b. get_boost toy_state 20 0 = Some b \<and> unat (get_value b) = 2500"
  using boost_bounds[of toy_state 4 40 20 0] by (simp add: toy_state_def empty_state_def tbl_get_def)

section \<open>Balances\<close>




text \<open>
  C23. A successful transfer comes from an account with enough FLK and goes to another address;
  the sender's FLK balance falls and the receiver's rises by the amount, and no other field and no
  other account changes. This holds for either token: the token the transfer names has no effect.
\<close>

theorem transfer_effect:
  assumes "transfer sender x t to s = (r, s')" and "is_success r"
  shows "\<exists>a. sender = AccountOwner a \<and> a \<noteq> to \<and> x \<le> acc_flk_balance (account s a) \<and>
    account s' a = (account s a)\<lparr>acc_flk_balance := acc_flk_balance (account s a) - x\<rparr> \<and>
    account s' to = (account s to)\<lparr>acc_flk_balance := acc_flk_balance (account s to) + x\<rparr> \<and>
    (\<forall>b. b \<noteq> a \<longrightarrow> b \<noteq> to \<longrightarrow> account s' b = account s b)"
  by (rule transfer_moves[OF assms])

theorem transfer_effect_witness:
  "\<exists>s'. transfer (AccountOwner 100) (hp_from 30) USDC 9 toy_state = (Success EDNone, s') \<and>
    acc_flk_balance (account s' 9) = acc_flk_balance (account toy_state 9) + hp_from 30"
proof -
  have "\<exists>s'. transfer (AccountOwner 100) (hp_from 30) USDC 9 toy_state = (Success EDNone, s')"
    by (simp add: transfer_def only_account_owner_def AccountInfo_default_def toy_defs)
  then obtain s' where s': "transfer (AccountOwner 100) (hp_from 30) USDC 9 toy_state = (Success EDNone, s')"
    by blast
  have "is_success (Success EDNone)" by simp
  from transfer_effect[OF s' this] s' show ?thesis by auto
qed

text \<open>
  C22. After a successful unstake, the tokens cannot be withdrawn before the lock time has
  passed: in every state that blocks lead to in which no transaction changes the parameter \<^verbatim>\<open>LockTime\<close>,
  as long as the epoch is below that of the unstake plus the lock time, every withdrawal of the tokens
  of that node is rejected and changes nothing, whoever sends it. Other transactions, further unstakes
  of the same node included, may happen in between. The condition on \<^verbatim>\<open>LockTime\<close> is needed: after it was
  lowered, an unstake of nothing ends the lock early (\<open>lock_shortened\<close>). The bounds keep node indexes and
  epochs from wrapping.
\<close>

theorem unstaked_stay_locked:
  assumes "unstake sender x pk s = Some (r, s1)" and "is_success r" and "room_for n s1"
    and "reachable_by ext keeps_lock_time s1 n s2"
    and "unat (get_epoch s) + n + unat (lock_time_of s) < 2 ^ 64"
    and "get_epoch s2 < get_epoch s + lock_time_of s"
  shows "\<not> is_success (fst (withdraw_unstaked sender' pk rc s2)) \<and> snd (withdraw_unstaked sender' pk rc s2) = s2"
  by (rule unstaked_held[OF assms])

theorem unstaked_stay_locked_witness:
  "\<exists>s1 resp s2. unstake (AccountOwner 1) (hp_from 2) 1 (demo_state [1, 2]) = Some (Success EDNone, s1) \<and>
    run_block demo_ext demo_block s1 = Some (resp, s2) \<and>
    snd (withdraw_unstaked (AccountOwner 1) 1 None s2) = s2"
proof -
  let ?s = "demo_state [1, 2]" and ?u = "unstake (AccountOwner 1) (hp_from 2) 1 (demo_state [1, 2])"
  have c: "(case ?u of Some (r, s1) \<Rightarrow> r = Success EDNone \<and>
      (case run_block demo_ext demo_block s1 of Some (_, s2) \<Rightarrow> get_epoch s2 = 0 | None \<Rightarrow> False)
    | None \<Rightarrow> False)" by code_simp
  then obtain s1 resp s2 where u: "?u = Some (Success EDNone, s1)"
      and b: "run_block demo_ext demo_block s1 = Some (resp, s2)" "get_epoch s2 = 0"
    by (auto split: option.splits prod.splits)
  have "get_epoch ?s = 0 \<and> lock_time_of ?s = 5" by code_simp
  then have l: "unat (get_epoch ?s) + 1 + unat (lock_time_of ?s) < 2 ^ 64" "get_epoch s2 < get_epoch ?s + lock_time_of ?s"
    using b(2) by simp_all
  have "room_for 2 ?s"
    by (rule genesis_registry[OF demo_genesis_ok]) (simp_all add: demo_genesis_def demo_node_def)
  then have room: "room_for 1 s1"
    using room_for_frame[OF keys.unstake_keeps[OF u]] room_for_less[of 1 s1] by (simp add: numeral_2_eq_2)
  have "reachable_by demo_ext keeps_lock_time s1 (length (bl_transactions demo_block) + 0) s2"
    by (rule reachable_by.block[OF reachable_by.start b(1)])
      (simp add: demo_block_def demo_txn_def allows_def keeps_lock_time_def)
  then have h: "reachable_by demo_ext keeps_lock_time s1 1 s2" by (simp add: demo_block_def)
  have "is_success (Success EDNone)" by simp
  from unstaked_stay_locked[OF u this room h l] u b(1) show ?thesis by blast
qed

text \<open>
  C32. The owner of a node can end the lock of its stake at once: both sums of \<^verbatim>\<open>stake_lock\<close>
  are on 64-bit words and wrap around, so a lock for the negative of the remaining time is accepted
  and moves the end of the lock to the current epoch.
\<close>

theorem stake_lock_wraps:
  assumes "get_node_info s (NodeMain pk) = Some (i, n)" and "stk_staked (ni_stake n) \<noteq> 0"
    and "get_epoch s \<le> stk_stake_locked_until (ni_stake n)"
  shows "stake_lock (AccountOwner (ni_owner n)) pk
      (get_epoch s - stk_stake_locked_until (ni_stake n)) s =
    (Success EDNone, set_node_info i (n\<lparr>ni_stake := (ni_stake n)\<lparr>stk_stake_locked_until := get_epoch s\<rparr>\<rparr>) s)"
  by (rule stake_lock_undone[OF assms])

theorem stake_lock_wraps_witness:
  "\<exists>s n. node s 0 = Some n \<and> stk_stake_locked_until (ni_stake n) = 20 \<and> get_epoch s = 0 \<and>
    fst (stake_lock (AccountOwner (ni_owner n)) 1 (- 20) s) = Success EDNone"
proof -
  define n where "n = (toy_node 1)\<lparr>ni_stake := (ni_stake (toy_node 1))\<lparr>stk_stake_locked_until := 20\<rparr>\<rparr>"
  define s where "s = set_node_info 0 n toy_state"
  have s: "node s 0 = Some n" "stk_stake_locked_until (ni_stake n) = 20" "get_epoch s = 0"
    by (simp_all add: s_def n_def toy_defs)
  have "get_node_info s (NodeMain 1) = Some (0, n)" by (simp add: get_node_info_def s_def toy_defs)
  moreover have "stk_staked (ni_stake n) \<noteq> 0" by (simp add: n_def toy_defs)
  ultimately have "fst (stake_lock (AccountOwner (ni_owner n)) 1 (- 20) s) = Success EDNone"
    using stake_lock_wraps[of s 1 0 n] s by simp
  then show ?thesis using s by blast
qed

text \<open>
  C24. Slashing takes from the stake first and from the locked tokens after it, never more than
  there is: neither part grows, and as numbers their sum falls by the amount, or to zero.
\<close>

theorem slashing_bounded:
  "stk_staked (slash_stake x st) \<le> stk_staked st \<and> stk_locked (slash_stake x st) \<le> stk_locked st \<and>
   unat (get_value (stk_staked (slash_stake x st))) + unat (get_value (stk_locked (slash_stake x st))) =
     unat (get_value (stk_staked st)) + unat (get_value (stk_locked st)) - unat (get_value x)"
  by (rule slash_stake_bounds)

text \<open>
  C30. Raising the precision of an amount and lowering it again gives the amount back, as
  long as the scaled value fits into 256 bits and at most 38 digits are added.
\<close>

theorem precision_roundtrip:
  fixes x :: "'p::len0 HpUfixed"
  assumes "LENGTH('p) \<le> LENGTH('q::len0)" and "LENGTH('q) - LENGTH('p) \<le> 38"
    and "unat (get_value x) * 10 ^ (LENGTH('q) - LENGTH('p)) < 2 ^ 256"
  shows "convert_precision (convert_precision x :: 'q HpUfixed) = x"
  by (rule convert_precision_roundtrip[OF assms])

theorem precision_roundtrip_witness:
  "convert_precision (convert_precision (HpUfixed 12345 :: 6 HpUfixed) :: 18 HpUfixed) = (HpUfixed 12345 :: 6 HpUfixed)"
  using precision_roundtrip[where 'p = 6 and 'q = 18, of "HpUfixed 12345"] by simp

section \<open>Signing and encoding\<close>

text \<open>
  C26. The order in which a transaction adds its fields to the transcript that is hashed and
  signed does not matter: two lists with the same fields give the same transcript, or both panic.
\<close>

theorem transcript_order:
  assumes "label_sorted (tb_data b)" and "mset fs = mset fs'"
  shows "with_all fs b = with_all fs' b"
  by (rule with_all_permute[OF assms])

theorem transcript_order_witness:
  "with_all [(''nonce'', in_u64 3), (''chain_id'', in_u32 7)] (tb_empty FN_TXN_PAYLOAD_DOMAIN) =
   with_all [(''chain_id'', in_u32 7), (''nonce'', in_u64 3)] (tb_empty FN_TXN_PAYLOAD_DOMAIN)"
  by (rule transcript_order) (simp_all add: tb_empty_def)

text \<open>
  C21. The signature of a transfer covers all of it: two transfers that differ in the sender,
  the nonce, the amount, the token, the receiver or the chain are hashed from different bytes.
\<close>

theorem transfer_signed:
  assumes "transcript ext \<lparr>up_sender = AccountOwner a, up_nonce = n, up_method = Transfer x t to, up_chain_id = c\<rparr> = Some b"
    and "transcript ext \<lparr>up_sender = AccountOwner a', up_nonce = n', up_method = Transfer x' t' to', up_chain_id = c'\<rparr> = Some b'"
    and "(a, n, x, t, to, c) \<noteq> (a', n', x', t', to', c')"
  shows "tb_compile b \<noteq> tb_compile b'"
  using transfer_compile_inject[OF assms(1,2)] assms(3) by blast

theorem transfer_signed_witness:
  "\<exists>b b'. transcript demo_ext \<lparr>up_sender = AccountOwner 1, up_nonce = 1, up_method = Transfer (hp_from 3) FLK 2, up_chain_id = 7\<rparr> = Some b \<and>
    transcript demo_ext \<lparr>up_sender = AccountOwner 1, up_nonce = 1, up_method = Transfer (hp_from 3) FLK 9, up_chain_id = 7\<rparr> = Some b' \<and>
    tb_compile b \<noteq> tb_compile b'"
proof -
  obtain b b' where
    "transcript demo_ext \<lparr>up_sender = AccountOwner 1, up_nonce = 1, up_method = Transfer (hp_from 3) FLK 2, up_chain_id = 7\<rparr> = Some b"
    "transcript demo_ext \<lparr>up_sender = AccountOwner 1, up_nonce = 1, up_method = Transfer (hp_from 3) FLK 9, up_chain_id = 7\<rparr> = Some b'"
    unfolding transfer_transcript by blast
  then show ?thesis using transfer_signed[of demo_ext 1 1 "hp_from 3" FLK 2 7 b 1 1 "hp_from 3" FLK 9 7 b'] by simp
qed

text \<open>
  C36. A signature on reputation measurements does not cover the uptimes: with any other uptimes
  the transaction has the same digest.
\<close>

theorem uptime_unsigned:
  "to_digest ext (p\<lparr>up_method := SubmitReputationMeasurements
      (map (\<lambda>(k, m). (k, m\<lparr>rm_uptime := u k\<rparr>)) ms)\<rparr>) =
   to_digest ext (p\<lparr>up_method := SubmitReputationMeasurements ms\<rparr>)"
  by (simp add: to_digest_def transcript_def method_transcript_def measurement_uptime case_prod_unfold comp_def)

text \<open>
  C31. A transaction that removes two or more jobs repeats a label in its transcript, which
  panics: no block that contains one runs, whatever its signature and wherever it stands.
\<close>

theorem remove_jobs_stops_block:
  assumes "UpdateReq r \<in> set (bl_transactions b)" and "up_method (ur_payload r) = RemoveJobs (h1 # h2 # hs)"
  shows "run_block ext b s = None"
  using remove_jobs_block[OF assms] by (simp add: run_block_def bind_eq_None_conv)

theorem remove_jobs_stops_block_witness:
  "run_block demo_ext (demo_block\<lparr>bl_transactions := [demo_txn, UpdateReq \<lparr>ur_signature = SigAccountOwner 0,
     ur_payload = \<lparr>up_sender = AccountOwner 5, up_nonce = 1, up_method = RemoveJobs [1, 2], up_chain_id = 7\<rparr>\<rparr>]\<rparr>)
     (demo_state [1, 2]) = None"
  by (rule remove_jobs_stops_block[of "\<lparr>ur_signature = SigAccountOwner 0,
     ur_payload = \<lparr>up_sender = AccountOwner 5, up_nonce = 1, up_method = RemoveJobs [1, 2], up_chain_id = 7\<rparr>\<rparr>"
     _ 1 2 "[]"]) simp_all

text \<open>
  C11. Decoding an encoded block gives the block back. Each transaction is assumed to be
  one that its serializer decodes from what it encoded, lengths fit into 64 bits, and the vector for the
  transactions can be allocated.
\<close>

theorem block_roundtrip:
  assumes "\<forall>t \<in> set (bl_transactions b). serializes cdc t \<and> length (encode_txn cdc t) < 2 ^ 64"
    and "length (bl_transactions b) < 2 ^ 64" and "capacity_ok txn_size (length (bl_transactions b))"
  shows "decode_block cdc txn_size (encode_block cdc b) = Some (Inr b)"
  by (rule decode_encode_block[OF assms])

theorem block_roundtrip_witness:
  "decode_block toy_codecs 400 (encode_block toy_codecs
     (demo_block\<lparr>bl_transactions := [demo_txn, EthereumReq (toy_eth\<lparr>et_value := 4\<rparr>)]\<rparr>)) =
   Some (Inr (demo_block\<lparr>bl_transactions := [demo_txn, EthereumReq (toy_eth\<lparr>et_value := 4\<rparr>)]\<rparr>))"
  by (rule block_roundtrip)
    (simp_all add: serializes_def encode_txn_def toy_codecs_def be_word_be_bytes toy_eth_def demo_txn_def
      capacity_ok_def)

text \<open>
  C40. A block in which some transaction has length zero makes the decoder panic: it reads the
  last byte of the transaction without a check. This holds after any number of well-formed
  transactions and whatever follows.
\<close>

theorem empty_transaction_panics:
  assumes "\<forall>t \<in> set txns. serializes cdc t \<and> length (encode_txn cdc t) < 2 ^ 64"
  shows "decode_txns cdc (pre @ concat (map (encode_entry cdc) txns) @ le_bytes 8 (0 :: u64) @ post)
    (length txns + Suc n) (length pre) = None"
  by (rule empty_txn_panics[OF assms])

theorem empty_transaction_panics_witness:
  "decode_txns toy_codecs (concat (map (encode_entry toy_codecs) [EthereumReq toy_eth]) @ le_bytes 8 (0 :: u64)) 2 0 = None"
proof -
  have "\<forall>t \<in> set [EthereumReq toy_eth]. serializes toy_codecs t \<and> length (encode_txn toy_codecs t) < 2 ^ 64"
    by (simp add: serializes_def encode_txn_def toy_codecs_def be_word_be_bytes toy_eth_def)
  from empty_transaction_panics[OF this, of "[]" "[]" 0] show ?thesis by (simp add: numeral_2_eq_2)
qed

section \<open>Errors\<close>

text \<open>
  C29. A transaction that fails verification changes nothing: its receipt holds the error as
  a revert, it has no event, and the state is the one before it.
\<close>

theorem rejected_unchanged:
  assumes "run_transaction ext d n i txn s = Some (rc, s')"
    and "verify_transaction ext s txn = Some (Inl e, txn')"
  shows "s' = s \<and> tr_response rc = Revert e \<and> tr_event rc = None"
  using assms by (auto simp: run_transaction_def bind_eq_Some_conv)

theorem rejected_unchanged_witness:
  "\<exists>rc s'. run_transaction demo_ext 5 1 0 (EthereumReq (toy_eth\<lparr>et_chain_id := Some 8\<rparr>)) toy_state = Some (rc, s') \<and>
    s' = toy_state \<and> tr_response rc = Revert InvalidChainId"
proof -
  let ?t = "EthereumReq (toy_eth\<lparr>et_chain_id := Some 8\<rparr>)"
  have v: "verify_transaction demo_ext toy_state ?t = Some (Inl InvalidChainId, ?t)"
    by (simp add: verify_transaction_def verify_chain_id_def txn_chain_id_def u256_as_def toy_defs)
  then obtain rc s' where "run_transaction demo_ext 5 1 0 ?t toy_state = Some (rc, s')"
    by (simp add: run_transaction_def txn_hash_def)
  then show ?thesis using rejected_unchanged[OF _ v] by blast
qed

text \<open>
  C39. On a network with a chain id, an Ethereum transaction without one panics during
  verification: the block that contains it as its next transaction does not run.
\<close>

theorem chain_id_missing:
  assumes "tbl_get (st_metadata s) Metadata.ChainId = Some (Value.ChainId c)" and "et_chain_id t = None"
  shows "run_transactions ext d n i (EthereumReq t # ts) s = None"
  using assms
  by (simp add: run_transaction_def verify_transaction_def verify_chain_id_def txn_chain_id_def)

theorem chain_id_missing_witness: "run_transactions demo_ext 5 1 0 [EthereumReq toy_eth] toy_state = None"
  by (rule chain_id_missing[of _ 7]) (simp_all add: toy_eth_def toy_defs)

text \<open>
  C38. Governance can store a value of the wrong kind under a protocol parameter: the change of
  \<^verbatim>\<open>NodeCount\<close> to any other kind of value is accepted, and afterwards the auction and with it the
  choice of the next committee do not return.
\<close>

theorem param_kind_unchecked:
  assumes "get_governance_address s = Some gov" and "\<forall>c. v \<noteq> ProtocolParamValue.NodeCount c"
  shows "\<exists>s'. change_protocol_param (AccountOwner gov) ProtocolParamKey.NodeCount v s = Some (Success EDNone, s') \<and>
    (\<forall>nodes. settle_auction s' nodes = None) \<and> (\<forall>b. choose_new_committee ext b s' = None)"
proof -
  let ?s = "s\<lparr>st_parameters := tbl_set (st_parameters s) ProtocolParamKey.NodeCount v\<rparr>"
  have "settle_auction ?s nodes = None" for nodes
    using assms(2) by (cases v) (simp_all add: settle_auction_def)
  moreover from this have "choose_new_committee ext b ?s = None" for b
    by (simp add: choose_new_committee_def bind_eq_None_conv)
  ultimately show ?thesis using assms(1) by (simp add: change_protocol_param_def only_account_owner_def)
qed

theorem param_kind_unchecked_witness:
  "\<exists>s'. change_protocol_param (AccountOwner 201) ProtocolParamKey.NodeCount (ProtocolParamValue.EpochTime 5) toy_state =
    Some (Success EDNone, s') \<and> choose_new_committee demo_ext [] s' = None"
proof -
  have "get_governance_address toy_state = Some 201" by (simp add: get_governance_address_def toy_defs)
  moreover have "\<forall>c. ProtocolParamValue.EpochTime 5 \<noteq> ProtocolParamValue.NodeCount c" by simp
  ultimately show ?thesis using param_kind_unchecked by blast
qed

text \<open>
  C28. After the genesis every protocol parameter but \<^verbatim>\<open>SGXSharedPubKey\<close> holds a value of its
  own kind, and \<^verbatim>\<open>SGXSharedPubKey\<close> is not set. Each reader of a parameter in the executor therefore
  returns, with the value that the genesis gives.
\<close>

theorem genesis_params_typed:
  assumes "apply_genesis_block g empty_state = Some (True, s)"
  shows "(\<forall>k. k \<noteq> ProtocolParamKey.SGXSharedPubKey \<longrightarrow>
      (\<exists>v. tbl_get (st_parameters s) k = Some v \<and> kind_of v = k)) \<and>
    tbl_get (st_parameters s) ProtocolParamKey.SGXSharedPubKey = None \<and>
    get_committee_size s = Some (ge_committee_size g) \<and> get_epoch_time s = Some (ge_epoch_time g) \<and>
    get_commit_phase_duration s = Some (ge_commit_phase_duration g) \<and>
    get_reveal_phase_duration s = Some (ge_reveal_phase_duration g) \<and>
    get_total_intervals s = Some (genesis_total_intervals g) \<and>
    get_epochs_per_year s = Some (ge_epochs_per_year g) \<and>
    tbl_get (st_parameters s) ProtocolParamKey.NodeCount = Some (ProtocolParamValue.NodeCount (ge_node_count g)) \<and>
    max_stake_lock_time s = ge_max_lock_time g \<and> lock_time_of s = ge_lock_time g \<and>
    get_min_stake s = Some (hp_from (unat (ge_min_stake g))) \<and>
    min_num_measurements_of s = Some (ge_min_num_measurements g) \<and>
    get_committee_selection_beacon_non_reveal_slash_amount s = Some (hp_from (unat (ge_non_reveal_slash_amount g))) \<and>
    node_share_of s = hp_div (hp_from (unat (ge_node_share g))) (hp_from 100) \<and>
    service_share_of s = hp_div (hp_from (unat (ge_service_builder_share g))) (hp_from 100) \<and>
    protocol_share_of s = hp_div (hp_from (unat (ge_protocol_share g))) (hp_from 100) \<and>
    tbl_get (st_parameters s) ProtocolParamKey.MaxBoost = Some (ProtocolParamValue.MaxBoost (ge_max_boost g)) \<and>
    tbl_get (st_parameters s) ProtocolParamKey.MaxInflation =
      Some (ProtocolParamValue.MaxInflation (ge_max_inflation g))"
proof -
  have p: "st_parameters s = genesis_params g" by (rule genesis_parameters[OF assms])
  have "\<exists>v. tbl_get (st_parameters s) k = Some v \<and> kind_of v = k"
    if "k \<noteq> ProtocolParamKey.SGXSharedPubKey" for k
    using that by (cases k) (simp_all add: p genesis_params_def tbl_get_def)
  then show ?thesis
    by (simp add: p genesis_params_def get_committee_size_def get_epoch_time_def get_commit_phase_duration_def
      get_reveal_phase_duration_def get_total_intervals_def get_epochs_per_year_def max_stake_lock_time_def
      lock_time_of_def get_min_stake_def min_num_measurements_of_def node_share_of_def service_share_of_def
      protocol_share_of_def get_committee_selection_beacon_non_reveal_slash_amount_def tbl_get_def)
qed

theorem genesis_params_typed_witness:
  "get_committee_size (demo_state [1, 2]) = Some 2 \<and> lock_time_of (demo_state [1, 2]) = 5 \<and>
   (\<exists>v. tbl_get (st_parameters (demo_state [1, 2])) ProtocolParamKey.TopologyTargetK = Some v \<and>
     kind_of v = ProtocolParamKey.TopologyTargetK)"
  using genesis_params_typed[OF demo_genesis_ok] by (simp add: demo_genesis_def)

text \<open>
  C12. Executing a transaction raises its sender's nonce by exactly one, whether the handler
  accepts or reverts.
\<close>

theorem nonce_advances:
  assumes "execute_transaction ext txn s = Some (r, s')" and "registry_inv s"
    and "sender_nonce s (txn_sender txn) = Some m"
  shows "sender_nonce s' (txn_sender txn) = Some (m + 1)"
proof -
  obtain h s1 where s1: "(case txn of
        UpdateReq u \<Rightarrow> execute_method ext (up_sender (ur_payload u)) (up_method (ur_payload u)) s
      | EthereumReq t \<Rightarrow> execute_ethereum_transaction ext t s) = Some (r, s1)"
    and inc: "increment_nonce (txn_sender txn)
        (s1\<lparr>st_executed_digests := tbl_set (st_executed_digests s1) h ()\<rparr>) = Some s'"
    by (rule execute_transaction_cases[OF assms(1)])
  have "sender_nonce s1 (txn_sender txn) = Some m"
    using s1 execute_method_nonce[OF _ assms(2,3)] execute_ethereum_nonce[OF _ assms(2,3)]
    by (cases txn) auto
  then have "sender_nonce (s1\<lparr>st_executed_digests := tbl_set (st_executed_digests s1) h ()\<rparr>)
      (txn_sender txn) = Some m"
    by (simp add: sender_nonce_def split: TransactionSender.splits)
  with increment_nonce_sender[OF inc] show ?thesis by auto
qed

theorem nonce_advances_witness:
  "\<exists>s' m. execute_transaction demo_ext demo_txn (demo_state [1, 2]) = Some (Success EDNone, s') \<and>
    sender_nonce (demo_state [1, 2]) (AccountOwner 100) = Some m \<and>
    sender_nonce s' (AccountOwner 100) = Some (m + 1)"
proof -
  obtain s' where s': "execute_transaction demo_ext demo_txn (demo_state [1, 2]) = Some (Success EDNone, s')"
    using demo_txn_executes by blast
  have "room_for 2 (demo_state [1, 2])"
    by (rule genesis_registry[OF demo_genesis_ok]) (simp_all add: demo_genesis_def demo_node_def)
  then have r: "registry_inv (demo_state [1, 2])" by (simp add: room_for_def)
  have t: "txn_sender demo_txn = AccountOwner 100" by (simp add: demo_txn_def)
  obtain m where m: "sender_nonce (demo_state [1, 2]) (AccountOwner 100) = Some m"
    by (simp add: sender_nonce_def)
  from nonce_advances[OF s' r] t m s' show ?thesis by auto
qed

text \<open>
  C35. A node whose unlocked stake is below the minimum can opt in when its locked tokens
  make up the difference: the guard of \<^verbatim>\<open>opt_in\<close> for unlocked stake counts the locked tokens too.
\<close>

theorem opt_in_on_locked_stake:
  assumes "only_node s sender = Inr i" and "node s i = Some n"
    and "has_sufficient_stake s i = Some True" and "has_sufficient_unlocked_stake s i = Some False"
  shows "\<exists>s' n'. opt_in sender s = Some (Success EDNone, s') \<and> node s' i = Some n' \<and>
    ni_participation n' = OptedIn"
  using assms
  by (auto simp: opt_in_def only_node_with_sufficient_unlocked_stake_def set_node_info_def)

theorem opt_in_on_locked_stake_witness:
  "\<exists>s s' n'. has_sufficient_unlocked_stake s 0 = Some False \<and> opt_in (NodeMain 1) s = Some (Success EDNone, s') \<and>
    node s' 0 = Some n' \<and> ni_participation n' = OptedIn"
proof -
  define n where "n = (toy_node 1)\<lparr>ni_participation := PFalse,
    ni_stake := Staking_default\<lparr>stk_locked := hp_from 5\<rparr>\<rparr>"
  define s where "s = set_node_info 0 n toy_state"
  have "only_node s (NodeMain 1) = Inr 0" "node s 0 = Some n" "has_sufficient_stake s 0 = Some True"
    "has_sufficient_unlocked_stake s 0 = Some False"
    by (simp_all add: s_def n_def toy_defs has_sufficient_unlocked_stake_def)
  then show ?thesis using opt_in_on_locked_stake[of s "NodeMain 1" 0 n] by blast
qed



end
